(* ===== verification/Prelude.thy ===== *)
theory Prelude
  imports Main "HOL-Library.Word" "HOL-Library.Sublist"
begin

text \<open>
  The vocabulary every component shares: machine integers at their Rust widths, the result of
  fallible code, the slice and iterator operations of the Rust standard library the sources use
  (\<open>chunks\<close>, \<open>step_by\<close>, \<open>collect\<close> into a \<open>Result\<close>, \<open>is_power_of_two\<close>,
  \<open>to_be_bytes\<close>), and the lemmas about them.

  Conventions of the whole development:
  \<^item> \<open>u8\<close>, \<open>u16\<close>, \<open>u32\<close> and \<open>u64\<close> are words, so arithmetic wraps, as in the
    release profile the workspace builds; \<open>as u32\<close> of a length is \<open>of_nat\<close>.
  \<^item> \<open>usize\<close> is \<open>nat\<close> where the value is a length or an index, and a 64-bit word where the
    code works on its bits.
  \<^item> A \<open>Result<T, String>\<close> is \<open>fail + 'a\<close>. \<open>Panic\<close> stands for an \<open>expect\<close>,
    an \<open>unwrap\<close> or an index out of range, so a theorem that a function returns \<open>Inr\<close> also
    says that it does not panic.
\<close>

section \<open>Machine integers\<close>

unbundle bit_operations_syntax

type_synonym u8 = "8 word"
type_synonym u16 = "16 word"
type_synonym u32 = "32 word"
type_synonym u64 = "64 word"
type_synonym bytes = "u8 list"

section \<open>Fallible code\<close>

datatype fail =
    Err string
  | ErrN string "nat list"
  | Panic string

type_synonym 'a res = "fail + 'a"

text \<open>Facts that evaluate and case-split fallible code, and facts about list operations.\<close>

named_theorems res_simps \<open>evaluation of results\<close>
named_theorems slice_simps \<open>chunks, step_by and their lengths\<close>

definition res_bind :: "'e + 'a \<Rightarrow> ('a \<Rightarrow> 'e + 'b) \<Rightarrow> 'e + 'b" where
  "res_bind m f = (case m of Inl e \<Rightarrow> Inl e | Inr a \<Rightarrow> f a)"

definition res_map :: "('a \<Rightarrow> 'b) \<Rightarrow> 'e + 'a \<Rightarrow> 'e + 'b" where
  "res_map f m = (case m of Inl e \<Rightarrow> Inl e | Inr a \<Rightarrow> Inr (f a))"

definition res_expect :: "string \<Rightarrow> 'a res \<Rightarrow> 'a res" where
  "res_expect msg m = (case m of Inl (Panic p) \<Rightarrow> Inl (Panic p) | Inl _ \<Rightarrow> Inl (Panic msg) | Inr a \<Rightarrow> Inr a)"

definition ok_or :: "'e \<Rightarrow> 'a option \<Rightarrow> 'e + 'a" where
  "ok_or e x = (case x of None \<Rightarrow> Inl e | Some a \<Rightarrow> Inr a)"

definition index_res :: "'a list \<Rightarrow> nat \<Rightarrow> 'a res" where
  "index_res xs i = (if i < length xs then Inr (xs ! i) else Inl (Panic ''index out of bounds''))"

definition get_opt :: "'a list \<Rightarrow> nat \<Rightarrow> 'a option" where
  "get_opt xs i = (if i < length xs then Some (xs ! i) else None)"

text \<open>\<open>iter().map(f).collect::<Result<Vec<_>, _>>()\<close>: the first failure stops the iteration.\<close>

primrec traverse :: "('a \<Rightarrow> 'e + 'b) \<Rightarrow> 'a list \<Rightarrow> 'e + 'b list" where
  "traverse f [] = Inr []"
| "traverse f (x # xs) =
     (case f x of Inl e \<Rightarrow> Inl e
      | Inr y \<Rightarrow> (case traverse f xs of Inl e \<Rightarrow> Inl e | Inr ys \<Rightarrow> Inr (y # ys)))"

section \<open>Encodings\<close>

text \<open>The \<open>Encode\<close> and \<open>Decode\<close> implementations that the codec crate derives for a type. What
  the code relies on: decoding an encoded value gives the value.\<close>

record 'a codec =
  encode :: "'a \<Rightarrow> bytes"
  decode :: "bytes \<Rightarrow> 'a option"

definition codec_documented :: "'a codec \<Rightarrow> bool" where
  "codec_documented c \<longleftrightarrow> (\<forall>a. decode c (encode c a) = Some a)"

section \<open>Slices and iterators\<close>

function chunks :: "nat \<Rightarrow> 'a list \<Rightarrow> 'a list list" where
  "chunks n xs = (if n = 0 \<or> xs = [] then [] else take n xs # chunks n (drop n xs))"
  by pat_completeness auto
termination
  by (relation "measure (\<lambda>(n, xs). length xs)") auto

function step_by :: "nat \<Rightarrow> 'a list \<Rightarrow> 'a list" where
  "step_by n xs = (if n = 0 then [] else (case xs of [] \<Rightarrow> [] | y # ys \<Rightarrow> y # step_by n (drop n xs)))"
  by pat_completeness auto
termination
  by (relation "measure (\<lambda>(n, xs). length xs)") auto

definition chunks_exact :: "nat \<Rightarrow> 'a list \<Rightarrow> 'a list list" where
  "chunks_exact n xs = chunks n (take (length xs div n * n) xs)"

text \<open>\<open>xs[lo..hi]\<close>, \<open>xs[lo..hi].copy_from_slice(ys)\<close>
  and \<open>xs[i] = v\<close>.\<close>

definition slice_res :: "'a list \<Rightarrow> nat \<Rightarrow> nat \<Rightarrow> 'a list res" where
  "slice_res xs lo hi =
     (if lo \<le> hi \<and> hi \<le> length xs then Inr (take (hi - lo) (drop lo xs)) else Inl (Panic ''slice out of range''))"

definition copy_from_slice :: "nat \<Rightarrow> nat \<Rightarrow> 'a list \<Rightarrow> 'a list \<Rightarrow> 'a list res" where
  "copy_from_slice lo hi ys xs =
     (if lo \<le> hi \<and> hi \<le> length xs \<and> length ys = hi - lo then Inr (take lo xs @ ys @ drop hi xs)
      else Inl (Panic ''slice out of range''))"

definition set_res :: "'a list \<Rightarrow> nat \<Rightarrow> 'a \<Rightarrow> 'a list res" where
  "set_res xs i v = (if i < length xs then Inr (xs[i := v]) else Inl (Panic ''index out of bounds''))"

text \<open>A loop whose body may fail.\<close>

primrec fold_res :: "('a \<Rightarrow> 's \<Rightarrow> 'e + 's) \<Rightarrow> 'a list \<Rightarrow> 's \<Rightarrow> 'e + 's" where
  "fold_res f [] s = Inr s"
| "fold_res f (x # xs) s = (case f x s of Inl e \<Rightarrow> Inl e | Inr s' \<Rightarrow> fold_res f xs s')"

definition resize :: "nat \<Rightarrow> 'a \<Rightarrow> 'a list \<Rightarrow> 'a list" where
  "resize n v xs = take n xs @ replicate (n - length xs) v"

fun is_power_of_two :: "nat \<Rightarrow> bool" where
  "is_power_of_two n = (if n = 0 then False else if n = 1 then True
     else even n \<and> is_power_of_two (n div 2))"

text \<open>A \<open>usize\<close> result kept to 64 bits.\<close>

definition wrap64 :: "nat \<Rightarrow> nat" where
  "wrap64 n = n mod 2 ^ 64"

text \<open>\<open>reverse_bits\<close> and \<open>leading_zeros\<close> of a machine word.\<close>

definition reverse_bits :: "'a::len word \<Rightarrow> 'a word" where
  "reverse_bits w = horner_sum of_bool 2 (map (\<lambda>i. bit w (LENGTH('a) - 1 - i)) [0..<LENGTH('a)])"

definition leading_zeros :: "'a::len word \<Rightarrow> nat" where
  "leading_zeros w = length (takeWhile (\<lambda>i. \<not> bit w i) (rev [0..<LENGTH('a)]))"

definition enumerate0 :: "'a list \<Rightarrow> (nat \<times> 'a) list" where
  "enumerate0 xs = zip [0..<length xs] xs"

text \<open>A byte string literal \<open>b"..."\<close>.\<close>

definition str_bytes :: "string \<Rightarrow> bytes" where
  "str_bytes s = map of_char s"

definition u32_to_be_bytes :: "u32 \<Rightarrow> bytes" where
  "u32_to_be_bytes w = map (\<lambda>i. ucast (drop_bit (8 * i) w)) [3, 2, 1, 0]"

definition u32_from_be_bytes :: "bytes \<Rightarrow> u32" where
  "u32_from_be_bytes bs = foldl (\<lambda>acc b. push_bit 8 acc OR ucast b) 0 bs"

definition u16_from_be_bytes :: "bytes \<Rightarrow> u16" where
  "u16_from_be_bytes bs = foldl (\<lambda>acc b. push_bit 8 acc OR ucast b) 0 bs"

declare chunks.simps [simp del] step_by.simps [simp del] is_power_of_two.simps [simp del]

section \<open>Lemmas on results\<close>

lemma res_bind_simps [simp, res_simps]:
  "res_bind (Inl e) f = Inl e"
  "res_bind (Inr a) f = f a"
  by (simp_all add: res_bind_def)

lemma res_map_simps [simp, res_simps]:
  "res_map g (Inl e) = Inl e"
  "res_map g (Inr a) = Inr (g a)"
  by (simp_all add: res_map_def)

lemma res_bind_Inr_iff [res_simps]:
  "res_bind m f = Inr b \<longleftrightarrow> (\<exists>a. m = Inr a \<and> f a = Inr b)"
  by (cases m) auto

lemma res_map_Inr_iff [res_simps]:
  "res_map g m = Inr b \<longleftrightarrow> (\<exists>a. m = Inr a \<and> b = g a)"
  by (cases m) auto

lemma res_expect_Inr [simp, res_simps]: "res_expect msg (Inr a) = Inr a"
  by (simp add: res_expect_def)

lemma res_expect_Inr_iff [res_simps]: "res_expect msg m = Inr a \<longleftrightarrow> m = Inr a"
  by (auto simp: res_expect_def split: sum.splits fail.splits)

lemma ok_or_simps [simp, res_simps]:
  "ok_or e None = Inl e"
  "ok_or e (Some a) = Inr a"
  by (simp_all add: ok_or_def)

lemma ok_or_Inr_iff [res_simps]: "ok_or e x = Inr a \<longleftrightarrow> x = Some a"
  by (cases x) auto

lemma index_res_Inr_iff [res_simps]: "index_res xs i = Inr a \<longleftrightarrow> i < length xs \<and> a = xs ! i"
  by (auto simp: index_res_def)

lemma index_res_lt [simp]: "i < length xs \<Longrightarrow> index_res xs i = Inr (xs ! i)"
  by (simp add: index_res_def)

lemma get_opt_Some_iff [res_simps]: "get_opt xs i = Some a \<longleftrightarrow> i < length xs \<and> a = xs ! i"
  by (auto simp: get_opt_def)

lemma get_opt_None_iff [res_simps]: "get_opt xs i = None \<longleftrightarrow> length xs \<le> i"
  by (auto simp: get_opt_def)

lemma codec_roundtrip: "codec_documented c \<Longrightarrow> decode c (encode c a) = Some a"
  by (simp add: codec_documented_def)

lemma codec_inject: "codec_documented c \<Longrightarrow> encode c a = encode c b \<longleftrightarrow> a = b"
  by (metis codec_roundtrip option.inject)

lemma traverse_Inr_iff [res_simps]:
  "traverse f xs = Inr ys \<longleftrightarrow> length ys = length xs \<and> (\<forall>i < length xs. f (xs ! i) = Inr (ys ! i))"
proof (induction xs arbitrary: ys)
  case Nil
  then show ?case by auto
next
  case (Cons x xs)
  show ?case
  proof (cases ys)
    case Nil
    then show ?thesis by (auto split: sum.splits)
  next
    case (Cons y ys')
    have split_all: "(\<forall>i < Suc n. P i) \<longleftrightarrow> P 0 \<and> (\<forall>i < n. P (Suc i))" for n P
      by (auto simp: less_Suc_eq_0_disj)
    show ?thesis
      by (cases "f x"; cases "traverse f xs")
        (use Cons.IH [of ys'] in \<open>auto simp: Cons split_all\<close>)
  qed
qed

lemma traverse_all_Inr:
  assumes "\<And>x. x \<in> set xs \<Longrightarrow> f x = Inr (g x)"
  shows "traverse f xs = Inr (map g xs)"
  using assms by (induction xs) auto

lemma traverse_section:
  assumes "\<And>x. x \<in> set xs \<Longrightarrow> \<exists>y. f x = Inr y \<and> g y = x"
  shows "\<exists>ys. traverse f xs = Inr ys \<and> map g ys = xs"
  using assms
proof (induction xs)
  case Nil
  then show ?case by simp
next
  case (Cons x xs)
  from Cons.prems [of x] obtain y where "f x = Inr y" "g y = x" by auto
  moreover from Cons obtain ys where "traverse f xs = Inr ys" "map g ys = xs" by auto
  ultimately show ?case by (auto intro!: exI [of _ "y # ys"])
qed

lemma traverse_Inl_iff:
  "traverse f xs = Inl e \<longleftrightarrow> (\<exists>i < length xs. f (xs ! i) = Inl e \<and> (\<forall>j < i. \<exists>y. f (xs ! j) = Inr y))"
proof (induction xs)
  case Nil
  then show ?case by simp
next
  case (Cons x xs)
  have split_ex: "(\<exists>i < Suc n. P i) \<longleftrightarrow> P 0 \<or> (\<exists>i < n. P (Suc i))" for n P
    by (auto simp: less_Suc_eq_0_disj)
  have split_all: "(\<forall>i < Suc n. P i) \<longleftrightarrow> P 0 \<and> (\<forall>i < n. P (Suc i))" for n P
    by (auto simp: less_Suc_eq_0_disj)
  show ?case
    using Cons.IH by (cases "f x"; cases "traverse f xs") (auto simp: split_ex split_all)
qed

lemma fold_res_append:
  "fold_res f (xs @ ys) s = res_bind (fold_res f xs s) (fold_res f ys)"
  by (induction xs arbitrary: s) (auto split: sum.splits)

section \<open>Lemmas on slices\<close>

lemma fold_res_cong:
  "(\<And>x s. x \<in> set xs \<Longrightarrow> f x s = g x s) \<Longrightarrow> fold_res f xs s = fold_res g xs s"
  by (induction xs arbitrary: s) (auto split: sum.splits)

lemma copy_from_slice_append:
  "length a = lo \<Longrightarrow> length b = hi - lo \<Longrightarrow> lo \<le> hi \<Longrightarrow> length ys = hi - lo \<Longrightarrow>
   copy_from_slice lo hi ys (a @ b @ c) = Inr (a @ ys @ c)"
  by (simp add: copy_from_slice_def)

text \<open>Writing a run of elements one by one, and a run of equally long blocks one by one.\<close>

lemma fold_set_res:
  "off + length v \<le> length xs \<Longrightarrow>
   fold_res (\<lambda>i s. set_res s (off + i) (v ! i)) [0..<length v] xs =
   Inr (take off xs @ v @ drop (off + length v) xs)"
proof (induction v rule: rev_induct)
  case Nil
  then show ?case by simp
next
  case (snoc a v)
  have "fold_res (\<lambda>i s. set_res s (off + i) ((v @ [a]) ! i)) [0..<length v] xs =
        fold_res (\<lambda>i s. set_res s (off + i) (v ! i)) [0..<length v] xs"
    by (rule fold_res_cong) (simp add: nth_append)
  with snoc show ?case
    by (simp add: fold_res_append set_res_def list_update_append nth_append
        Cons_nth_drop_Suc [symmetric] del: upt_Suc add: upt_Suc_append)
qed

lemma length_concat_const: "(\<And>x. x \<in> set xss \<Longrightarrow> length x = n) \<Longrightarrow> length (concat xss) = length xss * n"
  by (induction xss) auto

lemma fold_copy_blocks:
  assumes "\<And>b. b \<in> set bs \<Longrightarrow> length b = w" and "off + length bs * w \<le> length xs"
  shows "fold_res (\<lambda>i s. copy_from_slice (off + i * w) (off + (i + 1) * w) (bs ! i) s) [0..<length bs] xs =
    Inr (take off xs @ concat bs @ drop (off + length bs * w) xs)"
  using assms
proof (induction bs rule: rev_induct)
  case Nil
  then show ?case by simp
next
  case (snoc b bs)
  let ?n = "length bs * w"
  have b: "length b = w" and len: "length (concat bs) = ?n"
    using snoc.prems(1) by (auto intro: length_concat_const)
  have room: "off + ?n + w \<le> length xs" using snoc.prems(2) by (simp add: algebra_simps)
  have "fold_res (\<lambda>i s. copy_from_slice (off + i * w) (off + (i + 1) * w) ((bs @ [b]) ! i) s) [0..<length bs] xs =
        fold_res (\<lambda>i s. copy_from_slice (off + i * w) (off + (i + 1) * w) (bs ! i) s) [0..<length bs] xs"
    by (rule fold_res_cong) (simp add: nth_append)
  also have "\<dots> = Inr (take off xs @ concat bs @ drop (off + ?n) xs)"
    using snoc.prems room by (intro snoc.IH) auto
  finally have IH: "fold_res (\<lambda>i s. copy_from_slice (off + i * w) (off + (i + 1) * w) ((bs @ [b]) ! i) s) [0..<length bs] xs
      = Inr ((take off xs @ concat bs) @ take w (drop (off + ?n) xs) @ drop (off + ?n + w) xs)"
    by (simp add: add.commute flip: drop_drop)
  have "copy_from_slice (off + ?n) (off + (length bs + 1) * w) b
      ((take off xs @ concat bs) @ take w (drop (off + ?n) xs) @ drop (off + ?n + w) xs)
      = Inr ((take off xs @ concat bs) @ b @ drop (off + ?n + w) xs)"
    using room b len by (intro copy_from_slice_append) auto
  with IH show ?case
    by (simp add: fold_res_append upt_Suc_append algebra_simps del: upt_Suc)
qed

lemma chunks_Nil [simp, slice_simps]: "chunks n [] = []"
  by (simp add: chunks.simps)

lemma chunks_step [slice_simps]:
  "0 < n \<Longrightarrow> xs \<noteq> [] \<Longrightarrow> chunks n xs = take n xs # chunks n (drop n xs)"
  by (simp add: chunks.simps [of n xs])

lemma chunks_eq_Nil_iff: "chunks n xs = [] \<longleftrightarrow> n = 0 \<or> xs = []"
  by (simp add: chunks.simps [of n xs])

lemma concat_chunks [simp, slice_simps]: "0 < n \<Longrightarrow> concat (chunks n xs) = xs"
proof (induction n xs rule: chunks.induct)
  case (1 n xs)
  then show ?case by (cases "xs = []") (auto simp: chunks_step)
qed

lemma div_ceil_step:
  assumes "0 < (n::nat)" and "0 < m"
  shows "(m + n - 1) div n = Suc ((m - n + n - 1) div n)"
proof -
  have shift: "(m + n - 1) div n = Suc ((m - 1) div n)"
  proof -
    have "m + n - 1 = (m - 1) + n" using assms by simp
    moreover have "((m - 1) + n) div n = Suc ((m - 1) div n)"
      using assms div_add_self2 [of n "m - 1"] by (simp only: Suc_eq_plus1) 
    ultimately show ?thesis by (simp only:)
  qed
  show ?thesis
  proof (cases "n \<le> m")
    case True
    with shift show ?thesis by simp
  next
    case False
    with shift assms show ?thesis by simp
  qed
qed

lemma length_chunks [slice_simps]: "0 < n \<Longrightarrow> length (chunks n xs) = (length xs + n - 1) div n"
proof (induction n xs rule: chunks.induct)
  case (1 n xs)
  show ?case
  proof (cases "xs = []")
    case True
    with "1.prems" show ?thesis by simp
  next
    case False
    with 1 have "length (chunks n xs) = Suc ((length xs - n + n - 1) div n)"
      by (simp add: chunks_step)
    with False "1.prems" show ?thesis by (simp add: div_ceil_step del: One_nat_def)
  qed
qed

lemma length_chunks_mult [slice_simps]:
  "0 < n \<Longrightarrow> length xs = k * n \<Longrightarrow> length (chunks n xs) = k"
proof -
  assume n: "0 < n" and l: "length xs = k * n"
  have "(k * n + n - 1) div n = k"
  proof -
    have "k * n + n - 1 = (n - 1) + k * n" using n by simp
    also have "\<dots> div n = k + (n - 1) div n" using n by (intro div_mult_self1) simp
    finally show ?thesis using n by simp
  qed
  then show ?thesis using n l by (simp add: length_chunks)
qed

lemma nth_chunks [slice_simps]:
  "0 < n \<Longrightarrow> i < length (chunks n xs) \<Longrightarrow> chunks n xs ! i = take n (drop (i * n) xs)"
proof (induction n xs arbitrary: i rule: chunks.induct)
  case (1 n xs)
  show ?case
  proof (cases "xs = []")
    case True
    with "1.prems" show ?thesis by simp
  next
    case False
    with 1 show ?thesis
      by (cases i) (auto simp: chunks_step add.commute)
  qed
qed

lemma chunks_lengths:
  "0 < n \<Longrightarrow> c \<in> set (chunks n xs) \<Longrightarrow> 0 < length c \<and> length c \<le> n"
proof (induction n xs rule: chunks.induct)
  case (1 n xs)
  then show ?case by (cases "xs = []") (auto simp: chunks_step)
qed

text \<open>Padding every chunk to full size only appends to the whole.\<close>

lemma concat_padded_chunks:
  "0 < n \<Longrightarrow> concat (map (\<lambda>c. c @ replicate (n - length c) v) (chunks n xs)) =
     xs @ replicate (length (chunks n xs) * n - length xs) v"
proof (induction n xs rule: chunks.induct)
  case (1 n xs)
  show ?case
  proof (cases "xs = []")
    case False
    show ?thesis
    proof (cases "length xs \<le> n")
      case True
      then show ?thesis using False "1.prems" by (simp add: chunks_step)
    next
      case long: False
      let ?L = "length (chunks n (drop n xs))"
      have step: "chunks n xs = take n xs # chunks n (drop n xs)" using False "1.prems" by (simp add: chunks_step)
      have "concat (map (\<lambda>c. c @ replicate (n - length c) v) (chunks n xs)) =
          (take n xs @ drop n xs) @ replicate (?L * n - length (drop n xs)) v"
        unfolding step using long "1.IH" False "1.prems" by simp
      also have "?L * n - length (drop n xs) = length (chunks n xs) * n - length xs"
        unfolding step using long by simp
      finally show ?thesis by simp
    qed
  qed simp
qed

lemma chunks_concat:
  assumes "0 < n" and "\<And>x. x \<in> set xss \<Longrightarrow> length x = n"
  shows "chunks n (concat xss) = xss"
  using assms(2)
proof (induction xss)
  case Nil
  then show ?case by simp
next
  case (Cons x xss)
  then have "length x = n" and "x \<noteq> []" using assms(1) by auto
  then show ?case using Cons assms(1) by (simp add: chunks_step)
qed

lemma chunks_exact:
  assumes "0 < n" and "length xs = k * n" and "c \<in> set (chunks n xs)"
  shows "length c = n"
proof -
  have len: "length (chunks n xs) = k" using assms by (simp add: length_chunks_mult)
  from assms(3) obtain i where i: "i < k" and c: "c = chunks n xs ! i"
    by (metis in_set_conv_nth len)
  have "i * n + n \<le> k * n"
    using i by (metis Suc_leI mult_Suc add.commute mult_le_mono1)
  then show ?thesis using i c len assms(1,2) by (simp add: nth_chunks)
qed

lemma step_by_Nil [simp, slice_simps]: "step_by n [] = []"
  by (simp add: step_by.simps)

lemma step_by_Cons [slice_simps]: "0 < n \<Longrightarrow> step_by n (y # ys) = y # step_by n (drop (n - 1) ys)"
  by (subst step_by.simps, cases n) simp_all

lemma length_step_by [slice_simps]: "0 < n \<Longrightarrow> length (step_by n xs) = (length xs + n - 1) div n"
proof (induction n xs rule: step_by.induct)
  case (1 n xs)
  show ?case
  proof (cases xs)
    case Nil
    with "1.prems" show ?thesis by simp
  next
    case (Cons y ys)
    with 1 have "length (step_by n xs) = Suc ((length xs - n + n - 1) div n)"
      by (simp add: step_by.simps [of n "y # ys"])
    moreover have "0 < length xs" using Cons by simp
    ultimately show ?thesis using "1.prems" by (simp only: div_ceil_step)
  qed
qed

lemma nth_step_by [slice_simps]:
  "0 < n \<Longrightarrow> i * n < length xs \<Longrightarrow> i < length (step_by n xs) \<and> step_by n xs ! i = xs ! (i * n)"
proof (induction n xs arbitrary: i rule: step_by.induct)
  case (1 n xs)
  then obtain y ys where xs: "xs = y # ys" by (cases xs) auto
  have step: "step_by n xs = y # step_by n (drop n xs)"
    using "1.prems" by (subst step_by.simps) (simp add: xs)
  show ?case
  proof (cases i)
    case 0
    then show ?thesis using step xs by simp
  next
    case (Suc j)
    then have "j * n < length (drop n xs)" using "1.prems" by auto
    then have "j < length (step_by n (drop n xs)) \<and> step_by n (drop n xs) ! j = drop n xs ! (j * n)"
      using "1.IH" xs "1.prems" by blast
    then show ?thesis using step Suc "1.prems" by (simp add: add.commute)
  qed
qed

lemma length_resize [simp, slice_simps]: "length (resize n v xs) = n"
  by (simp add: resize_def)

lemma resize_pad: "length xs \<le> n \<Longrightarrow> resize n v xs = xs @ replicate (n - length xs) v"
  by (simp add: resize_def)

lemma resize_truncate: "n \<le> length xs \<Longrightarrow> resize n v xs = take n xs"
  by (simp add: resize_def)

lemma length_enumerate0 [simp]: "length (enumerate0 xs) = length xs"
  by (simp add: enumerate0_def)

lemma nth_enumerate0 [simp]: "i < length xs \<Longrightarrow> enumerate0 xs ! i = (i, xs ! i)"
  by (simp add: enumerate0_def)

lemma set_enumerate0: "(i, x) \<in> set (enumerate0 xs) \<longleftrightarrow> i < length xs \<and> x = xs ! i"
  by (auto simp: enumerate0_def in_set_zip intro!: exI [of _ i])

lemma nth_concat_const:
  assumes "\<And>x. x \<in> set xss \<Longrightarrow> length x = n" and "i < length xss" and "j < n"
  shows "concat xss ! (i * n + j) = xss ! i ! j"
  using assms
proof (induction xss arbitrary: i)
  case Nil
  then show ?case by simp
next
  case (Cons x xss)
  then have "length x = n" by simp
  with Cons show ?case by (cases i) (auto simp: nth_append add.assoc)
qed

lemma map_snd_enumerate0: "map (\<lambda>p. f (snd p)) (enumerate0 xs) = map f xs"
  by (rule nth_equalityI) simp_all

lemma enumerate0_snoc: "enumerate0 (xs @ [x]) = enumerate0 xs @ [(length xs, x)]"
  by (simp add: enumerate0_def)

lemma enumerate0_evens:
  "map snd (filter (\<lambda>(i, _). i mod 2 = 0) (enumerate0 xs)) = map (\<lambda>i. xs ! (2 * i)) [0..<(length xs + 1) div 2]"
proof (induction xs rule: rev_induct)
  case Nil
  then show ?case by (simp add: enumerate0_def)
next
  case (snoc x xs)
  have "map (\<lambda>i. (xs @ [x]) ! (2 * i)) [0..<(length xs + 1) div 2] = map (\<lambda>i. xs ! (2 * i)) [0..<(length xs + 1) div 2]"
    by (auto simp: nth_append)
  then show ?case using snoc
    by (cases "even (length xs)") (auto simp: enumerate0_snoc elim!: evenE oddE)
qed

lemma enumerate0_odds:
  "map snd (filter (\<lambda>(i, _). i mod 2 \<noteq> 0) (enumerate0 xs)) = map (\<lambda>i. xs ! (2 * i + 1)) [0..<length xs div 2]"
proof (induction xs rule: rev_induct)
  case Nil
  then show ?case by (simp add: enumerate0_def)
next
  case (snoc x xs)
  have "map (\<lambda>i. (xs @ [x]) ! (2 * i + 1)) [0..<length xs div 2] = map (\<lambda>i. xs ! (2 * i + 1)) [0..<length xs div 2]"
    by (auto simp: nth_append)
  then show ?case using snoc
    by (cases "even (length xs)") (auto simp: enumerate0_snoc elim!: evenE oddE)
qed

section \<open>Lemmas on integers\<close>

lemma is_power_of_two_iff: "is_power_of_two n \<longleftrightarrow> (\<exists>k. n = 2 ^ k)"
proof (induction n rule: is_power_of_two.induct)
  case (1 n)
  show ?case
  proof (cases "n = 0 \<or> n = 1")
    case True
    then show ?thesis by (auto simp: is_power_of_two.simps [of n] intro: exI [of _ 0])
  next
    case False
    have "(\<exists>k. n = 2 ^ k) \<longleftrightarrow> even n \<and> (\<exists>k. n div 2 = 2 ^ k)"
    proof
      assume "\<exists>k. n = 2 ^ k"
      then obtain k where k: "n = 2 ^ k" by blast
      with False obtain j where "k = Suc j" by (cases k) auto
      with k show "even n \<and> (\<exists>k. n div 2 = 2 ^ k)" by auto
    next
      assume "even n \<and> (\<exists>k. n div 2 = 2 ^ k)"
      then obtain k where "even n" and "n div 2 = 2 ^ k" by blast
      then have "n = 2 ^ Suc k" by (metis dvd_mult_div_cancel power_Suc)
      then show "\<exists>k. n = 2 ^ k" by blast
    qed
    with False 1 show ?thesis by (simp add: is_power_of_two.simps [of n])
  qed
qed

lemma is_power_of_two_pos: "is_power_of_two n \<Longrightarrow> 0 < n"
  by (auto simp: is_power_of_two_iff)

lemma is_power_of_two_power [simp]: "is_power_of_two (2 ^ k)"
  by (auto simp: is_power_of_two_iff)

lemma is_power_of_two_mult: "is_power_of_two m \<Longrightarrow> is_power_of_two n \<Longrightarrow> is_power_of_two (m * n)"
  by (auto simp: is_power_of_two_iff simp flip: power_add)

lemma unat_of_nat_u32 [simp]: "i < 2 ^ 32 \<Longrightarrow> unat (of_nat i :: u32) = i"
  by (simp add: unat_of_nat take_bit_nat_eq_self)

lemma unat_u32_less: "unat (w :: u32) < 2 ^ 32"
  by (rule order.strict_trans2 [OF unsigned_less]) simp

lemma find_unique:
  assumes "\<And>a. a \<in> set xs \<Longrightarrow> P a \<longleftrightarrow> a = x" and "P x"
  shows "find P xs = (if x \<in> set xs then Some x else None)"
  using assms(1) by (induction xs) (auto simp: assms(2))

lemma u32_be_roundtrip [simp]: "u32_from_be_bytes (u32_to_be_bytes w) = w"
proof (rule bit_word_eqI)
  fix n
  assume "n < LENGTH(32)"
  then consider "n < 8" | "8 \<le> n" "n < 16" | "16 \<le> n" "n < 24" | "24 \<le> n" "n < 32"
    by (cases "n < 8"; cases "n < 16"; cases "n < 24") auto
  then show "bit (u32_from_be_bytes (u32_to_be_bytes w)) n \<longleftrightarrow> bit w n"
    by cases (auto simp: u32_from_be_bytes_def u32_to_be_bytes_def bit_simps)
qed

lemma u32_to_be_bytes_inject [simp]: "u32_to_be_bytes v = u32_to_be_bytes w \<longleftrightarrow> v = w"
  by (metis u32_be_roundtrip)

lemma length_u32_to_be_bytes [simp]: "length (u32_to_be_bytes w) = 4"
  by (simp add: u32_to_be_bytes_def)

lemma bit_nat_imp_exp_le: "bit (n::nat) j \<Longrightarrow> 2 ^ j \<le> n"
  by (metis bit_iff_odd div_less dvd_0_right not_less)

lemma bit_reverse_bits [bit_simps]:
  "bit (reverse_bits w) n \<longleftrightarrow> n < LENGTH('a) \<and> bit w (LENGTH('a) - 1 - n)" for w :: "'a::len word"
  by (auto simp: reverse_bits_def bit_horner_sum_bit_word_iff)

lemma reverse_bits_reverse_bits [simp]: "reverse_bits (reverse_bits w) = w"
  by (rule bit_word_eqI) (auto simp: bit_simps)

lemma leading_zeros_exp:
  assumes "k < LENGTH('a)"
  shows "leading_zeros (push_bit k 1 :: 'a::len word) = LENGTH('a) - 1 - k"
proof -
  let ?P = "\<lambda>i. \<not> bit (push_bit k 1 :: 'a word) i"
  have "[0..<LENGTH('a)] = [0..<k] @ [k..<LENGTH('a)]"
    using assms upt_add_eq_append [of 0 k "LENGTH('a) - k"] by simp
  also have "[k..<LENGTH('a)] = k # [Suc k..<LENGTH('a)]" using assms by (rule upt_conv_Cons)
  finally have "rev [0..<LENGTH('a)] = rev [Suc k..<LENGTH('a)] @ k # rev [0..<k]" by simp
  moreover have "\<forall>i \<in> set (rev [Suc k..<LENGTH('a)]). ?P i" by (auto simp: bit_simps)
  moreover have "\<not> ?P k" using assms by (simp add: bit_simps)
  ultimately have "takeWhile ?P (rev [0..<LENGTH('a)]) = rev [Suc k..<LENGTH('a)]"
    using takeWhile_append2 [of "rev [Suc k..<LENGTH('a)]" ?P "k # rev [0..<k]"] by fastforce
  then show ?thesis by (simp add: leading_zeros_def)
qed

end
