(* ===== verification/Crypto.thy ===== *)
theory Crypto
  imports Prelude
begin

text \<open>
  The KZG layer of \<open>crates/das-primitives\<close>: \<open>crypto/mod.rs\<close> and \<open>polynomial.rs\<close>.

  The crates \<open>kzg\<close> and \<open>rust_kzg_blst\<close> are the record \<open>kzg_lib\<close> of their operations,
  over opaque types of field elements \<open>'fr\<close>, group elements \<open>'g1\<close> and \<open>'g2\<close>, FFT
  settings \<open>'fs\<close> and FK20 settings \<open>'fk\<close>. The wrappers \<open>BlsScalar\<close>,
  \<open>KZGCommitment\<close> and \<open>KZGProof\<close> are transparent, so they are the wrapped types and the
  conversions of \<open>ReprConvert\<close> are the identity. What the code relies on of the libraries is
  stated by the \<open>_documented\<close> predicates of the theories that need it.
\<close>

section \<open>The proof libraries\<close>

record ('g1, 'g2, 'fs) FsKZGSettings =
  secret_g1 :: "'g1 list"
  secret_g2 :: "'g2 list"
  ks_fs :: 'fs

record ('fr, 'g1, 'g2, 'fs, 'fk) kzg_lib =
  fr_zero :: 'fr
  fr_to_bytes :: "'fr \<Rightarrow> bytes"
  fr_from_bytes :: "bytes \<Rightarrow> 'fr res"
  BYTES_PER_G1 :: nat
  BYTES_PER_G2 :: nat
  g1_identity :: 'g1
  g1_is_valid :: "'g1 \<Rightarrow> bool"
  g1_to_bytes :: "'g1 \<Rightarrow> bytes"
  g1_from_bytes :: "bytes \<Rightarrow> 'g1 res"
  g2_from_bytes :: "bytes \<Rightarrow> 'g2 res"
  fft_settings_new :: "nat \<Rightarrow> 'fs res"
  fs_max_width :: "'fs \<Rightarrow> nat"
  fft_fr :: "'fs \<Rightarrow> 'fr list \<Rightarrow> bool \<Rightarrow> 'fr list res"
  fft_g1 :: "'fs \<Rightarrow> 'g1 list \<Rightarrow> bool \<Rightarrow> 'g1 list res"
  das_fft_extension :: "'fs \<Rightarrow> 'fr list \<Rightarrow> 'fr list res"
  poly_new :: "nat \<Rightarrow> 'fr list res"
  poly_eval :: "'fr list \<Rightarrow> 'fr \<Rightarrow> 'fr"
  recover_poly_from_samples :: "'fr option list \<Rightarrow> 'fs \<Rightarrow> 'fr list res"
  recover_poly_coeffs_from_samples :: "'fr option list \<Rightarrow> 'fs \<Rightarrow> 'fr list res"
  bit_order_index :: "nat \<Rightarrow> nat \<Rightarrow> nat"
  expanded_roots_of_unity :: "('g1, 'g2, 'fs) FsKZGSettings \<Rightarrow> nat \<Rightarrow> 'fr res"
  commit_to_poly :: "('g1, 'g2, 'fs) FsKZGSettings \<Rightarrow> 'fr list \<Rightarrow> 'g1 res"
  ks_compute_proof_single :: "('g1, 'g2, 'fs) FsKZGSettings \<Rightarrow> 'fr list \<Rightarrow> 'fr \<Rightarrow> 'g1 res"
  ks_check_proof_single :: "('g1, 'g2, 'fs) FsKZGSettings \<Rightarrow> 'g1 \<Rightarrow> 'g1 \<Rightarrow> 'fr \<Rightarrow> 'fr \<Rightarrow> bool res"
  ks_compute_proof_multi :: "('g1, 'g2, 'fs) FsKZGSettings \<Rightarrow> 'fr list \<Rightarrow> 'fr \<Rightarrow> nat \<Rightarrow> 'g1 res"
  ks_check_proof_multi ::
    "('g1, 'g2, 'fs) FsKZGSettings \<Rightarrow> 'g1 \<Rightarrow> 'g1 \<Rightarrow> 'fr \<Rightarrow> 'fr list \<Rightarrow> nat \<Rightarrow> bool res"
  fk20_new :: "('g1, 'g2, 'fs) FsKZGSettings \<Rightarrow> nat \<Rightarrow> nat \<Rightarrow> 'fk res"
  fk20_data_availability :: "'fk \<Rightarrow> 'fr list \<Rightarrow> 'g1 list res"
  fk20_fs :: "'fk \<Rightarrow> 'fs"
  verify_kzg_proof_batch ::
    "'g1 list \<Rightarrow> 'fr list \<Rightarrow> 'fr list \<Rightarrow> 'g1 list \<Rightarrow> ('g1, 'g2, 'fs) FsKZGSettings \<Rightarrow> bool"
  CHALLENGE_INPUT_SIZE :: nat
  FIAT_SHAMIR_PROTOCOL_DOMAIN :: bytes
  bytes_of_uint64 :: "u64 \<Rightarrow> bytes"
  lib_hash :: "bytes \<Rightarrow> bytes"
  hash_to_bls_field :: "bytes \<Rightarrow> 'fr"

text \<open>\<open>reverse_bit_order\<close> is generic in the element type: it rearranges a slice in an order that
  depends on its length only.\<close>

definition reverse_bit_order :: "('fr, 'g1, 'g2, 'fs, 'fk) kzg_lib \<Rightarrow> 'a list \<Rightarrow> 'a list" where
  "reverse_bit_order L vals = map (\<lambda>i. vals ! bit_order_index L (length vals) i) [0..<length vals]"

definition bit_order_documented :: "('fr, 'g1, 'g2, 'fs, 'fk) kzg_lib \<Rightarrow> nat \<Rightarrow> bool" where
  "bit_order_documented L n \<longleftrightarrow>
     (\<forall>i < n. bit_order_index L n i < n \<and> bit_order_index L n (bit_order_index L n i) = i)"

section \<open>Scalars (crypto/mod.rs)\<close>

definition BYTES_PER_FIELD_ELEMENT :: nat where
  "BYTES_PER_FIELD_ELEMENT = 32"

definition FIELD_ELEMENTS_PER_BLOB :: nat where
  "FIELD_ELEMENTS_PER_BLOB = 2048"

definition BYTES_PER_BLOB :: nat where
  "BYTES_PER_BLOB = FIELD_ELEMENTS_PER_BLOB * BYTES_PER_FIELD_ELEMENT"

definition SCALAR_SAFE_BYTES :: nat where
  "SCALAR_SAFE_BYTES = 31"

definition BlsScalar_to_bytes :: "('fr, 'g1, 'g2, 'fs, 'fk) kzg_lib \<Rightarrow> 'fr \<Rightarrow> bytes" where
  "BlsScalar_to_bytes L s = fr_to_bytes L s"

definition BlsScalar_try_from_bytes :: "('fr, 'g1, 'g2, 'fs, 'fk) kzg_lib \<Rightarrow> bytes \<Rightarrow> 'fr res" where
  "BlsScalar_try_from_bytes L bs = fr_from_bytes L bs"

definition KZGCommitment_to_bytes :: "('fr, 'g1, 'g2, 'fs, 'fk) kzg_lib \<Rightarrow> 'g1 \<Rightarrow> bytes" where
  "KZGCommitment_to_bytes L c = g1_to_bytes L c"

definition KZGCommitment_try_from_bytes :: "('fr, 'g1, 'g2, 'fs, 'fk) kzg_lib \<Rightarrow> bytes \<Rightarrow> 'g1 res" where
  "KZGCommitment_try_from_bytes L bs = g1_from_bytes L bs"

definition KZGCommitment_size :: "('fr, 'g1, 'g2, 'fs, 'fk) kzg_lib \<Rightarrow> nat" where
  "KZGCommitment_size L = BYTES_PER_G1 L"

text \<open>\<open>Decode\<close> reads the fixed number of bytes from the input and parses them.\<close>

definition KZGCommitment_decode :: "('fr, 'g1, 'g2, 'fs, 'fk) kzg_lib \<Rightarrow> bytes \<Rightarrow> ('g1 \<times> bytes) res" where
  "KZGCommitment_decode L input =
     (if length input < BYTES_PER_G1 L then Inl (Err ''Not enough data to fill buffer'')
      else case KZGCommitment_try_from_bytes L (take (BYTES_PER_G1 L) input) of
             Inl (Panic p) \<Rightarrow> Inl (Panic p)
           | Inl _ \<Rightarrow> Inl (Err ''Failed to decode from bytes'')
           | Inr c \<Rightarrow> Inr (c, drop (BYTES_PER_G1 L) input))"

definition try_from_bytes_safe :: "('fr, 'g1, 'g2, 'fs, 'fk) kzg_lib \<Rightarrow> bytes \<Rightarrow> 'fr res" where
  "try_from_bytes_safe L v =
     BlsScalar_try_from_bytes L (take SCALAR_SAFE_BYTES v @ replicate (BYTES_PER_FIELD_ELEMENT - SCALAR_SAFE_BYTES) 0)"

definition to_bytes_safe :: "('fr, 'g1, 'g2, 'fs, 'fk) kzg_lib \<Rightarrow> 'fr \<Rightarrow> bytes" where
  "to_bytes_safe L s = take SCALAR_SAFE_BYTES (BlsScalar_to_bytes L s)"

definition BlsScalar_from :: "('fr, 'g1, 'g2, 'fs, 'fk) kzg_lib \<Rightarrow> bytes \<Rightarrow> 'fr res" where
  "BlsScalar_from L v = res_expect ''Safe bytes always fit into scalar and thus succeed; qed'' (try_from_bytes_safe L v)"

text \<open>The field has a 255-bit modulus and its elements are written little-endian in 32 bytes, so
  every string of 31 bytes with a zero byte appended is the encoding of an element.\<close>

definition scalar_documented :: "('fr, 'g1, 'g2, 'fs, 'fk) kzg_lib \<Rightarrow> bool" where
  "scalar_documented L \<longleftrightarrow>
     (\<forall>s. length (fr_to_bytes L s) = 32) \<and>
     (\<forall>bs. length bs = 31 \<longrightarrow> (\<exists>s. fr_from_bytes L (bs @ [0]) = Inr s \<and> fr_to_bytes L s = bs @ [0]))"

section \<open>The KZG instance (crypto/mod.rs)\<close>

definition NUM_G1_POWERS :: nat where
  "NUM_G1_POWERS = 4096"

definition NUM_G2_POWERS :: nat where
  "NUM_G2_POWERS = 65"

function max_scale_loop :: "nat \<Rightarrow> nat \<Rightarrow> nat" where
  "max_scale_loop num_g1_powers max_scale =
     (if 2 ^ max_scale < num_g1_powers then max_scale_loop num_g1_powers (max_scale + 1) else max_scale)"
  by pat_completeness auto
termination
  by (relation "measure (\<lambda>(n, s). n - s)")
    (auto intro: diff_less_mono2 less_trans [OF less_exp])

declare max_scale_loop.simps [simp del]

definition bytes_to_kzg_settings ::
  "('fr, 'g1, 'g2, 'fs, 'fk) kzg_lib \<Rightarrow> bytes \<Rightarrow> bytes \<Rightarrow> nat \<Rightarrow> nat \<Rightarrow> ('g1, 'g2, 'fs) FsKZGSettings res" where
  "bytes_to_kzg_settings L g1_bytes g2_bytes num_g1_powers num_g2_powers =
     (let num_g1_points = length g1_bytes div BYTES_PER_G1 L in
      if num_g1_points \<noteq> num_g1_powers \<or> num_g2_powers \<noteq> length g2_bytes div BYTES_PER_G2 L
      then Inl (Err ''Invalid bytes length'')
      else res_bind (traverse (g1_from_bytes L) (chunks_exact (BYTES_PER_G1 L) g1_bytes)) (\<lambda>g1_values.
           res_bind (traverse (g2_from_bytes L) (chunks_exact (BYTES_PER_G2 L) g2_bytes)) (\<lambda>g2_values.
           res_bind (res_expect ''Scale is within allowed bounds; qed''
                       (fft_settings_new L (max_scale_loop num_g1_powers 0))) (\<lambda>fs.
           Inr \<lparr> secret_g1 = g1_values, secret_g2 = g2_values, ks_fs = fs \<rparr>))))"

record ('g1, 'g2, 'fs) KZG =
  ks :: "('g1, 'g2, 'fs) FsKZGSettings"

definition KZG_new :: "('g1, 'g2, 'fs) FsKZGSettings \<Rightarrow> ('g1, 'g2, 'fs) KZG" where
  "KZG_new kzg_settings = \<lparr> ks = kzg_settings \<rparr>"

definition KZG_max_width :: "('fr, 'g1, 'g2, 'fs, 'fk) kzg_lib \<Rightarrow> ('g1, 'g2, 'fs) KZG \<Rightarrow> nat" where
  "KZG_max_width L kzg = fs_max_width L (ks_fs (ks kzg))"

definition embedded_kzg_settings ::
  "('fr, 'g1, 'g2, 'fs, 'fk) kzg_lib \<Rightarrow> bytes \<Rightarrow> nat \<Rightarrow> nat \<Rightarrow> ('g1, 'g2, 'fs) FsKZGSettings res" where
  "embedded_kzg_settings L settings_bytes num_g1_powers num_g2_powers =
     (let mid = BYTES_PER_G1 L * num_g1_powers in
      if length settings_bytes < mid then Inl (Panic ''split_at: mid > len'')
      else res_expect ''Static bytes are correct, there is a test for this; qed''
             (bytes_to_kzg_settings L (take mid settings_bytes) (drop mid settings_bytes) num_g1_powers num_g2_powers))"

definition default_embedded ::
  "('fr, 'g1, 'g2, 'fs, 'fk) kzg_lib \<Rightarrow> bytes \<Rightarrow> ('g1, 'g2, 'fs) KZG res" where
  "default_embedded L embedded_kzg_settings_bytes =
     res_map KZG_new (embedded_kzg_settings L embedded_kzg_settings_bytes NUM_G1_POWERS NUM_G2_POWERS)"

definition get_expanded_roots_of_unity_at ::
  "('fr, 'g1, 'g2, 'fs, 'fk) kzg_lib \<Rightarrow> ('g1, 'g2, 'fs) KZG \<Rightarrow> nat \<Rightarrow> 'fr res" where
  "get_expanded_roots_of_unity_at L kzg i = expanded_roots_of_unity L (ks kzg) i"

definition reverse_bits_limited :: "u64 \<Rightarrow> u64 \<Rightarrow> u64" where
  "reverse_bits_limited len v =
     (let unused_bits = leading_zeros len in drop_bit (unused_bits mod 64) (reverse_bits v))"

definition get_kzg_index ::
  "('fr, 'g1, 'g2, 'fs, 'fk) kzg_lib \<Rightarrow> ('g1, 'g2, 'fs) KZG \<Rightarrow> nat \<Rightarrow> nat \<Rightarrow> nat \<Rightarrow> nat res" where
  "get_kzg_index L kzg chunk_count chunk_index chunk_size =
     (let d = wrap64 (2 * chunk_size * chunk_count) in
      if d = 0 then Inl (Panic ''attempt to divide by zero'')
      else let domain_stride = KZG_max_width L kzg div d;
               domain_pos = unat (reverse_bits_limited (of_nat chunk_count) (of_nat chunk_index))
           in Inr (wrap64 (domain_pos * domain_stride)))"

section \<open>Polynomials (polynomial.rs)\<close>

datatype 'fr Polynomial = Polynomial (coeffs: "'fr list")

definition Polynomial_new :: "('fr, 'g1, 'g2, 'fs, 'fk) kzg_lib \<Rightarrow> nat \<Rightarrow> 'fr Polynomial res" where
  "Polynomial_new L sz = res_map Polynomial (poly_new L sz)"

definition Polynomial_is_valid :: "'fr Polynomial \<Rightarrow> bool" where
  "Polynomial_is_valid p = is_power_of_two (length (coeffs p))"

definition Polynomial_checked :: "'fr Polynomial \<Rightarrow> 'fr Polynomial res" where
  "Polynomial_checked p =
     (if \<not> Polynomial_is_valid p then Inl (Err ''Polynomial size must be a power of two'') else Inr p)"

definition Polynomial_from_coeffs :: "'fr list \<Rightarrow> 'fr Polynomial" where
  "Polynomial_from_coeffs cs = Polynomial cs"

definition Polynomial_left :: "'fr Polynomial \<Rightarrow> 'fr Polynomial" where
  "Polynomial_left p = (let half = length (coeffs p) div 2 in Polynomial (take half (coeffs p)))"

definition Polynomial_to_bls_scalars :: "'fr Polynomial \<Rightarrow> 'fr list" where
  "Polynomial_to_bls_scalars p = coeffs p"

definition Polynomial_eval_all ::
  "('fr, 'g1, 'g2, 'fs, 'fk) kzg_lib \<Rightarrow> 'fr Polynomial \<Rightarrow> 'fs \<Rightarrow> 'fr list res" where
  "Polynomial_eval_all L p fs = res_map (reverse_bit_order L) (fft_fr L fs (coeffs p) False)"

definition Polynomial_eval :: "('fr, 'g1, 'g2, 'fs, 'fk) kzg_lib \<Rightarrow> 'fr Polynomial \<Rightarrow> 'fr \<Rightarrow> 'fr" where
  "Polynomial_eval L p v = poly_eval L (coeffs p) v"

section \<open>Proof operations of the KZG instance (crypto/mod.rs)\<close>

definition KZG_all_proofs ::
  "('fr, 'g1, 'g2, 'fs, 'fk) kzg_lib \<Rightarrow> ('g1, 'g2, 'fs) KZG \<Rightarrow> 'fr Polynomial \<Rightarrow> nat \<Rightarrow> 'g1 list res" where
  "KZG_all_proofs L kzg p chunk_size =
     (let poly_len = length (coeffs p) in
      res_bind (res_expect ''unwrap'' (fk20_new L (ks kzg) (2 * poly_len) chunk_size)) (\<lambda>fk.
      res_expect ''unwrap'' (fk20_data_availability L fk (coeffs p))))"

definition KZG_compute_proof_multi ::
  "('fr, 'g1, 'g2, 'fs, 'fk) kzg_lib \<Rightarrow> ('g1, 'g2, 'fs) KZG \<Rightarrow> 'fr Polynomial \<Rightarrow> nat \<Rightarrow> nat \<Rightarrow> nat \<Rightarrow> 'g1 res" where
  "KZG_compute_proof_multi L kzg p chunk_index count chunk_size =
     res_bind (get_kzg_index L kzg count chunk_index chunk_size) (\<lambda>pos.
     res_bind (get_expanded_roots_of_unity_at L kzg pos) (\<lambda>x.
     ks_compute_proof_multi L (ks kzg) (coeffs p) x chunk_size))"

definition KZG_check_proof_multi ::
  "('fr, 'g1, 'g2, 'fs, 'fk) kzg_lib \<Rightarrow> ('g1, 'g2, 'fs) KZG \<Rightarrow> 'g1 \<Rightarrow> nat \<Rightarrow> nat \<Rightarrow> 'fr list \<Rightarrow> 'g1 \<Rightarrow> nat \<Rightarrow> bool res" where
  "KZG_check_proof_multi L kzg commitment i chunk_count values proof chunk_size =
     (let ys = reverse_bit_order L values in
      res_bind (get_kzg_index L kzg chunk_count i chunk_size) (\<lambda>pos.
      res_bind (get_expanded_roots_of_unity_at L kzg pos) (\<lambda>x.
      ks_check_proof_multi L (ks kzg) commitment proof x ys chunk_size)))"

definition KZG_compute_proof_with_index ::
  "('fr, 'g1, 'g2, 'fs, 'fk) kzg_lib \<Rightarrow> ('g1, 'g2, 'fs) KZG \<Rightarrow> 'fr Polynomial \<Rightarrow> nat \<Rightarrow> 'g1 res" where
  "KZG_compute_proof_with_index L kzg p i =
     res_bind (get_expanded_roots_of_unity_at L kzg i) (\<lambda>x. ks_compute_proof_single L (ks kzg) (coeffs p) x)"

definition KZG_compute_proof ::
  "('fr, 'g1, 'g2, 'fs, 'fk) kzg_lib \<Rightarrow> ('g1, 'g2, 'fs) KZG \<Rightarrow> 'fr Polynomial \<Rightarrow> 'fr \<Rightarrow> 'g1 res" where
  "KZG_compute_proof L kzg p x = ks_compute_proof_single L (ks kzg) (coeffs p) x"

definition KZG_commit ::
  "('fr, 'g1, 'g2, 'fs, 'fk) kzg_lib \<Rightarrow> ('g1, 'g2, 'fs) KZG \<Rightarrow> 'fr Polynomial \<Rightarrow> 'g1 res" where
  "KZG_commit L kzg p = commit_to_poly L (ks kzg) (coeffs p)"

definition KZG_verify ::
  "('fr, 'g1, 'g2, 'fs, 'fk) kzg_lib \<Rightarrow> ('g1, 'g2, 'fs) KZG \<Rightarrow> 'g1 \<Rightarrow> u32 \<Rightarrow> 'fr \<Rightarrow> 'g1 \<Rightarrow> bool res" where
  "KZG_verify L kzg commitment index v proof =
     res_bind (get_expanded_roots_of_unity_at L kzg (unat index)) (\<lambda>x.
     ks_check_proof_single L (ks kzg) commitment proof x v)"

definition KZG_check_proof_single ::
  "('fr, 'g1, 'g2, 'fs, 'fk) kzg_lib \<Rightarrow> ('g1, 'g2, 'fs) KZG \<Rightarrow> 'g1 \<Rightarrow> 'g1 \<Rightarrow> 'fr \<Rightarrow> 'fr \<Rightarrow> bool res" where
  "KZG_check_proof_single L kzg commitment proof x v = ks_check_proof_single L (ks kzg) commitment proof x v"

definition KZG_get_fs :: "('g1, 'g2, 'fs) KZG \<Rightarrow> 'fs" where
  "KZG_get_fs kzg = ks_fs (ks kzg)"

record Position =
  pos_x :: u32
  pos_y :: u32

section \<open>Lemmas\<close>

lemma length_reverse_bit_order [simp]: "length (reverse_bit_order L vals) = length vals"
  by (simp add: reverse_bit_order_def)

lemma nth_reverse_bit_order:
  "i < length vals \<Longrightarrow> reverse_bit_order L vals ! i = vals ! bit_order_index L (length vals) i"
  by (simp add: reverse_bit_order_def)

lemma reverse_bit_order_involution:
  "bit_order_documented L (length vals) \<Longrightarrow> reverse_bit_order L (reverse_bit_order L vals) = vals"
  by (rule nth_equalityI) (simp_all add: nth_reverse_bit_order bit_order_documented_def)

lemma set_reverse_bit_order:
  assumes "bit_order_documented L (length vals)"
  shows "set (reverse_bit_order L vals) = set vals"
proof -
  have sub: "set (reverse_bit_order L ws) \<subseteq> set ws" if "length ws = length vals" for ws
    using assms that by (auto simp: reverse_bit_order_def bit_order_documented_def)
  have "set vals \<subseteq> set (reverse_bit_order L vals)"
    using sub [of "reverse_bit_order L vals"] assms by (simp add: reverse_bit_order_involution)
  with sub [of vals] show ?thesis by auto
qed

lemma reverse_bit_order_map:
  "bit_order_documented L (length vals) \<Longrightarrow> reverse_bit_order L (map f vals) = map f (reverse_bit_order L vals)"
  by (auto simp: reverse_bit_order_def bit_order_documented_def)

text \<open>Scalars: 31 bytes survive the field element they are stored in.\<close>

lemma safe_scalar_roundtrip:
  assumes "scalar_documented L" and "length bs = SCALAR_SAFE_BYTES"
  shows "\<exists>s. try_from_bytes_safe L bs = Inr s \<and> to_bytes_safe L s = bs"
proof -
  from assms obtain s where "fr_from_bytes L (bs @ [0]) = Inr s" and "fr_to_bytes L s = bs @ [0]"
    unfolding scalar_documented_def SCALAR_SAFE_BYTES_def by blast
  then show ?thesis using assms(2)
    by (auto simp: try_from_bytes_safe_def to_bytes_safe_def BlsScalar_try_from_bytes_def
        BlsScalar_to_bytes_def SCALAR_SAFE_BYTES_def BYTES_PER_FIELD_ELEMENT_def)
qed

lemma length_to_bytes_safe: "scalar_documented L \<Longrightarrow> length (to_bytes_safe L s) = SCALAR_SAFE_BYTES"
  by (simp add: to_bytes_safe_def BlsScalar_to_bytes_def SCALAR_SAFE_BYTES_def scalar_documented_def)

text \<open>The setup loop.\<close>

lemma max_scale_loop_least:
  assumes "\<And>t. t < s \<Longrightarrow> 2 ^ t < n"
  shows "n \<le> 2 ^ max_scale_loop n s \<and> (\<forall>t < max_scale_loop n s. 2 ^ t < n)"
  using assms
proof (induction n s rule: max_scale_loop.induct)
  case (1 n s)
  show ?case
  proof (cases "2 ^ s < n")
    case True
    then have "\<And>t. t < s + 1 \<Longrightarrow> 2 ^ t < n" using "1.prems" by (auto simp: less_Suc_eq)
    then show ?thesis using "1.IH" True by (simp add: max_scale_loop.simps [of n s])
  next
    case False
    then show ?thesis using "1.prems" by (simp add: max_scale_loop.simps [of n s])
  qed
qed

lemma max_scale_loop_0: "n \<le> 2 ^ max_scale_loop n 0 \<and> (\<forall>t < max_scale_loop n 0. 2 ^ t < n)"
  by (rule max_scale_loop_least) simp

lemma max_scale_4096: "max_scale_loop 4096 0 = 12"
proof -
  have "\<not> 12 < max_scale_loop 4096 0"
  proof
    assume "12 < max_scale_loop 4096 0"
    with max_scale_loop_0 [of 4096] have "(2::nat) ^ 12 < 4096" by blast
    then show False by simp
  qed
  moreover have "\<not> max_scale_loop 4096 0 < 12"
  proof
    assume "max_scale_loop 4096 0 < 12"
    then have "(2::nat) ^ max_scale_loop 4096 0 < 2 ^ 12" by (intro power_strict_increasing) auto
    with max_scale_loop_0 [of 4096] show False by simp
  qed
  ultimately show ?thesis by simp
qed

text \<open>Bit reversal inside a domain of \<open>2 ^ (k + 1)\<close> positions.\<close>

lemma bit_reverse_bits_limited:
  assumes "k < 64"
  shows "bit (reverse_bits_limited (2 ^ k) v) j \<longleftrightarrow> j \<le> k \<and> bit v (k - j)"
proof -
  have "leading_zeros (2 ^ k :: u64) = 63 - k"
    using leading_zeros_exp [of k, where 'a = 64] assms by simp
  then have "bit (reverse_bits_limited (2 ^ k) v) j \<longleftrightarrow> bit (reverse_bits v) (j + (63 - k))"
    using assms by (simp add: reverse_bits_limited_def bit_drop_bit_eq add.commute)
  also have "\<dots> \<longleftrightarrow> j \<le> k \<and> bit v (k - j)"
    using assms by (auto simp: bit_reverse_bits)
  finally show ?thesis .
qed

lemma unat_less_exp_bits:
  fixes w :: "'a::len word"
  assumes "\<And>j. bit w j \<Longrightarrow> j < n"
  shows "unat w < 2 ^ n"
proof -
  have "take_bit n w = w" by (rule bit_word_eqI) (use assms in \<open>auto simp: bit_take_bit_iff\<close>)
  then have "unat w = take_bit n (unat w)" by (metis unsigned_take_bit_eq)
  then show ?thesis by (metis take_bit_nat_less_exp)
qed

text \<open>The position inside the domain, as a natural number.\<close>

definition domain_pos :: "nat \<Rightarrow> nat \<Rightarrow> nat" where
  "domain_pos k i = unat (reverse_bits_limited (of_nat (2 ^ k)) (of_nat i))"

lemma bit_domain_pos: "k < 64 \<Longrightarrow> bit (domain_pos k i) j \<longleftrightarrow> j \<le> k \<and> bit i (k - j)"
  by (auto simp: domain_pos_def bit_simps bit_reverse_bits_limited)

lemma domain_pos_less:
  assumes "k < 64"
  shows "domain_pos k i < 2 ^ Suc k"
proof -
  have "bit (reverse_bits_limited (2 ^ k) (of_nat i)) j \<Longrightarrow> j < Suc k" for j
    using assms by (simp add: bit_reverse_bits_limited)
  then show ?thesis by (simp add: domain_pos_def unat_less_exp_bits del: power_Suc)
qed

lemma domain_pos_involution:
  assumes "k < 64" and "i < 2 ^ Suc k"
  shows "domain_pos k (domain_pos k i) = i"
proof -
  let ?v = "of_nat i :: u64" and ?r = "reverse_bits_limited (2 ^ k)"
  have "(2::nat) ^ Suc k \<le> 2 ^ 64" using assms(1) by (intro power_increasing) auto
  then have v: "unat ?v = i" using assms(2) by (simp add: unat_of_nat take_bit_nat_eq_self)
  have small: "j \<le> k" if "bit ?v j" for j
  proof (rule ccontr)
    assume "\<not> j \<le> k"
    then have "(2::nat) ^ Suc k \<le> 2 ^ j" by (intro power_increasing) auto
    moreover have "2 ^ j \<le> i"
      using that by (intro bit_nat_imp_exp_le) (simp add: bit_simps)
    ultimately show False using assms(2) by simp
  qed
  have "?r (?r ?v) = ?v"
    by (rule bit_word_eqI) (use assms(1) small in \<open>auto simp: bit_reverse_bits_limited\<close>)
  then show ?thesis by (simp add: domain_pos_def v)
qed

section \<open>A concrete instance of the libraries\<close>

text \<open>Used to instantiate the parameters at concrete inputs: a scalar is its 32 bytes, a commitment
  is the polynomial itself, and the transforms are those of polynomials of one coefficient.\<close>

definition sample_zero :: bytes where
  "sample_zero = replicate 32 0"

definition sample_lib :: "(bytes, bytes list, unit, nat, nat) kzg_lib" where
  "sample_lib = \<lparr>
     fr_zero = sample_zero,
     fr_to_bytes = resize 32 0,
     fr_from_bytes = (\<lambda>bs. if length bs = 32 \<and> bs ! 31 < 64 then Inr bs else Inl (Err ''Invalid scalar'')),
     BYTES_PER_G1 = 48,
     BYTES_PER_G2 = 96,
     g1_identity = [],
     g1_is_valid = (\<lambda>_. True),
     g1_to_bytes = (\<lambda>c. resize 48 0 (concat c)),
     g1_from_bytes = (\<lambda>bs. if length bs = 48 then Inr [bs] else Inl (Err ''Invalid point'')),
     g2_from_bytes = (\<lambda>_. Inr ()),
     fft_settings_new = (\<lambda>s. Inr (2 ^ s)),
     fs_max_width = (\<lambda>w. w),
     fft_fr = (\<lambda>_ xs inverse. if length xs = 2
       then Inr (if inverse then [xs ! 0, sample_zero] else [xs ! 0, xs ! 0]) else Inr xs),
     fft_g1 = (\<lambda>_ xs inverse. if length xs = 2 then Inr (if inverse then [xs ! 0, []] else [xs ! 0, xs ! 0]) else Inr xs),
     das_fft_extension = (\<lambda>_ xs. Inr xs),
     poly_new = (\<lambda>n. Inr (replicate n sample_zero)),
     poly_eval = (\<lambda>p _. case p of [] \<Rightarrow> sample_zero | c # _ \<Rightarrow> c),
     recover_poly_from_samples = (\<lambda>samples _. case List.map_filter id samples of
       [] \<Rightarrow> Inl (Err ''not enough samples'') | v # _ \<Rightarrow> Inr [v, v]),
     recover_poly_coeffs_from_samples = (\<lambda>samples _. case List.map_filter id samples of
       [] \<Rightarrow> Inl (Err ''not enough samples'') | v # _ \<Rightarrow> Inr [v, sample_zero]),
     bit_order_index = (\<lambda>_ i. i),
     expanded_roots_of_unity = (\<lambda>ks i. if i \<le> ks_fs ks then Inr sample_zero else Inl (Panic ''index out of bounds'')),
     commit_to_poly = (\<lambda>_ p. Inr p),
     ks_compute_proof_single = (\<lambda>_ _ _. Inr []),
     ks_check_proof_single = (\<lambda>_ c _ _ v. Inr (v = (case c of [] \<Rightarrow> sample_zero | a # _ \<Rightarrow> a))),
     ks_compute_proof_multi = (\<lambda>_ _ _ _. Inr []),
     ks_check_proof_multi = (\<lambda>_ c _ _ ys _. Inr (\<forall>v \<in> set ys. v = (case c of [] \<Rightarrow> sample_zero | a # _ \<Rightarrow> a))),
     fk20_new = (\<lambda>ks n chunk_size. Inr (n div chunk_size)),
     fk20_data_availability = (\<lambda>count _. Inr (replicate count [])),
     fk20_fs = (\<lambda>_. 4096),
     verify_kzg_proof_batch = (\<lambda>cs _ ys _ _. list_all2 (\<lambda>c v. v = (case c of [] \<Rightarrow> sample_zero | a # _ \<Rightarrow> a)) cs ys),
     CHALLENGE_INPUT_SIZE = 131152,
     FIAT_SHAMIR_PROTOCOL_DOMAIN = replicate 16 1,
     bytes_of_uint64 = (\<lambda>n. replicate 7 0 @ [ucast n]),
     lib_hash = (\<lambda>bs. take 32 bs),
     hash_to_bls_field = (\<lambda>h. resize 32 0 (take 31 h)) \<rparr>"

definition sample_kzg :: "nat \<Rightarrow> (bytes list, unit, nat) KZG" where
  "sample_kzg width = \<lparr> ks = \<lparr> secret_g1 = [], secret_g2 = [], ks_fs = width \<rparr> \<rparr>"

lemma sample_scalar_documented: "scalar_documented sample_lib"
  by (auto simp: scalar_documented_def sample_lib_def resize_def nth_append)

lemma sample_bit_order_documented: "bit_order_documented sample_lib n"
  by (simp add: bit_order_documented_def sample_lib_def)

lemma traverse_chunks_exact_ok:
  assumes "0 < n" and "\<And>c. length c = n \<Longrightarrow> \<exists>v. f c = Inr v"
  shows "\<exists>vs. traverse f (chunks_exact n bs) = Inr vs"
proof -
  have "length (take (length bs div n * n) bs) = length bs div n * n" by simp
  then have "\<And>c. c \<in> set (chunks_exact n bs) \<Longrightarrow> length c = n"
    unfolding chunks_exact_def by (rule chunks_exact [OF assms(1)])
  then obtain g where "\<And>c. c \<in> set (chunks_exact n bs) \<Longrightarrow> f c = Inr (g c)" using assms(2) by metis
  then show ?thesis using traverse_all_Inr by blast
qed

definition sample_settings :: bytes where
  "sample_settings = replicate (48 * 4096 + 96 * 65) 0"

lemma sample_default_embedded:
  "\<exists>kzg. default_embedded sample_lib sample_settings = Inr kzg \<and> KZG_max_width sample_lib kzg = 4096"
proof -
  have g1: "\<exists>vs. traverse (g1_from_bytes sample_lib) (chunks_exact 48 bs) = Inr vs" for bs
    by (rule traverse_chunks_exact_ok) (simp_all add: sample_lib_def)
  have g2: "\<exists>vs. traverse (g2_from_bytes sample_lib) (chunks_exact 96 bs) = Inr vs" for bs
    by (rule traverse_chunks_exact_ok) (simp_all add: sample_lib_def)
  obtain g1s where g1s: "traverse (g1_from_bytes sample_lib) (chunks_exact 48 (take (48 * 4096) sample_settings)) = Inr g1s"
    using g1 by blast
  obtain g2s where g2s: "traverse (g2_from_bytes sample_lib) (chunks_exact 96 (drop (48 * 4096) sample_settings)) = Inr g2s"
    using g2 by blast
  have sizes: "BYTES_PER_G1 sample_lib = 48" "BYTES_PER_G2 sample_lib = 96"
      "fft_settings_new sample_lib 12 = Inr 4096" "\<And>w. fs_max_width sample_lib w = w"
    by (simp_all add: sample_lib_def)
  have "bytes_to_kzg_settings sample_lib (take (48 * 4096) sample_settings) (drop (48 * 4096) sample_settings) 4096 65 =
      Inr \<lparr> secret_g1 = g1s, secret_g2 = g2s, ks_fs = 4096 \<rparr>"
    using g1s g2s by (simp add: bytes_to_kzg_settings_def sizes max_scale_4096) (simp add: sample_settings_def)
  then show ?thesis
    by (simp add: default_embedded_def embedded_kzg_settings_def NUM_G1_POWERS_def NUM_G2_POWERS_def KZG_new_def
        KZG_max_width_def sizes) (simp add: sample_settings_def)
qed

section \<open>Properties\<close>

lemma domain_pos_bij: "k < 64 \<Longrightarrow> bij_betw (domain_pos k) {..<2 ^ Suc k} {..<2 ^ Suc k}"
  by (rule bij_betw_byWitness [where f' = "domain_pos k"])
    (auto simp: domain_pos_involution domain_pos_less simp del: power_Suc)

lemma get_kzg_index_domain_pos:
  assumes "k < 64" and "0 < chunk_size" and "0 < t"
    and "KZG_max_width L kzg = 2 * chunk_size * 2 ^ k * t" and "KZG_max_width L kzg < 2 ^ 64"
  shows "get_kzg_index L kzg (2 ^ k) i chunk_size = Inr (domain_pos k i * t)"
proof -
  have width: "2 * chunk_size * 2 ^ k * t < 2 ^ 64" using assms(4,5) by simp
  have "2 * chunk_size * 2 ^ k \<le> 2 * chunk_size * 2 ^ k * t" using assms(3) by simp
  also note width
  finally have d: "wrap64 (2 * chunk_size * 2 ^ k) = 2 * chunk_size * 2 ^ k"
    unfolding wrap64_def by (rule mod_less)
  have "domain_pos k i * t < 2 ^ Suc k * t" using domain_pos_less [OF assms(1)] assms(3) by simp
  also have "\<dots> \<le> 2 * chunk_size * 2 ^ k * t" using assms(2) by simp
  also note width
  finally have p: "wrap64 (domain_pos k i * t) = domain_pos k i * t"
    unfolding wrap64_def by (rule mod_less)
  have "(2 * chunk_size * 2 ^ k * t) div (2 * chunk_size * 2 ^ k) = t"
    using assms(2) by (intro nonzero_mult_div_cancel_left) simp
  then show ?thesis using p assms(2)
    by (simp add: get_kzg_index_def d assms(4) domain_pos_def Let_def)
qed

text \<open>C21: With \<open>2 ^ k\<close> chunks whose extension fills the evaluation domain \<open>t\<close> times over,
  \<open>get_kzg_index\<close> is total and maps the \<open>2 ^ (k + 1)\<close> chunk indices of the extended row
  one-to-one onto the first \<open>2 ^ (k + 1)\<close> multiples of \<open>t\<close>, that is, those below the width of the domain divided by the
  chunk size: two chunks never share a proof position, and no position falls outside the roots of unity.\<close>

theorem get_kzg_index_bijective:
  assumes "k < 64" and "0 < chunk_size" and "0 < t"
    and "KZG_max_width L kzg = 2 * chunk_size * 2 ^ k * t" and "KZG_max_width L kzg < 2 ^ 64"
  shows "bij_betw (\<lambda>i. get_kzg_index L kzg (2 ^ k) i chunk_size) {..<2 ^ Suc k}
           ((\<lambda>q. Inr (q * t)) ` {..<2 ^ Suc k}) \<and>
         (\<forall>q < 2 ^ Suc k. q * t < KZG_max_width L kzg)"
proof
  have inj: "inj_on (\<lambda>q. Inr (q * t) :: nat res) {..<2 ^ Suc k}" using assms(3) by (auto intro!: inj_onI)
  have "bij_betw ((\<lambda>q. Inr (q * t) :: nat res) \<circ> domain_pos k) {..<2 ^ Suc k} ((\<lambda>q. Inr (q * t)) ` {..<2 ^ Suc k})"
    using domain_pos_bij [OF assms(1)] inj_on_imp_bij_betw [OF inj] by (rule bij_betw_trans)
  then show "bij_betw (\<lambda>i. get_kzg_index L kzg (2 ^ k) i chunk_size) {..<2 ^ Suc k}
      ((\<lambda>q. Inr (q * t)) ` {..<2 ^ Suc k})"
    by (simp only: get_kzg_index_domain_pos [OF assms] comp_def)
next
  show "\<forall>q < 2 ^ Suc k. q * t < KZG_max_width L kzg"
  proof (intro allI impI)
    fix q :: nat
    assume "q < 2 ^ Suc k"
    then have "q * t < 2 ^ Suc k * t" using assms(3) by simp
    also have "\<dots> \<le> 2 * chunk_size * 2 ^ k * t" using assms(2) by simp
    finally show "q * t < KZG_max_width L kzg" using assms(4) by simp
  qed
qed

theorem get_kzg_index_bijective_witness:
  "bij_betw (\<lambda>i. get_kzg_index sample_lib (sample_kzg 4096) 128 i 16) {..<256} ((\<lambda>q. Inr (q * 1)) ` {..<256})"
  using get_kzg_index_bijective [of 7 16 1 sample_lib "sample_kzg 4096"]
  by (simp add: KZG_max_width_def sample_lib_def sample_kzg_def)

text \<open>The number of bits the setup computes is the least one whose power of two covers the
  number of G1 points, so the FFT domain built from it is the smallest that fits; for the embedded
  setup of 4096 points it is 12.\<close>

theorem max_scale_least:
  "n \<le> 2 ^ max_scale_loop n 0 \<and> (\<forall>t < max_scale_loop n 0. 2 ^ t < n) \<and> max_scale_loop NUM_G1_POWERS 0 = 12"
  using max_scale_loop_0 [of n] max_scale_4096 by (simp add: NUM_G1_POWERS_def)

theorem max_scale_least_witness:
  "(2::nat) ^ 2 < 5 \<and> 5 \<le> (2::nat) ^ max_scale_loop 5 0 \<and> \<not> 3 < max_scale_loop 5 0"
proof -
  have "\<not> 3 < max_scale_loop 5 0"
  proof
    assume "3 < max_scale_loop 5 0"
    with max_scale_least [of 5] have "(2::nat) ^ 3 < 5" by blast
    then show False by simp
  qed
  then show ?thesis using max_scale_least [of 5] by simp
qed

end
