(* ===== verification/Blob.thy ===== *)
theory Blob
  imports Crypto
begin

text \<open>
  Blobs and segments of \<open>crates/das-primitives\<close> (\<open>blob.rs\<close>, \<open>segment.rs\<close>): bytes to
  field elements and back, the Fiat-Shamir challenge, commitments, proofs and their verification.
\<close>

section \<open>Blobs (blob.rs)\<close>

datatype 'fr Blob = Blob (scalars: "'fr list")

definition Blob_from_bytes :: "('fr, 'g1, 'g2, 'fs, 'fk) kzg_lib \<Rightarrow> bytes \<Rightarrow> 'fr list res" where
  "Blob_from_bytes L bs =
     traverse (\<lambda>chunk. if length chunk \<noteq> SCALAR_SAFE_BYTES then Inl (Err ''Chunked into incorrect number of bytes'')
                       else try_from_bytes_safe L chunk)
       (chunks SCALAR_SAFE_BYTES bs)"

definition Blob_try_from_bytes :: "('fr, 'g1, 'g2, 'fs, 'fk) kzg_lib \<Rightarrow> bytes \<Rightarrow> nat \<Rightarrow> 'fr Blob res" where
  "Blob_try_from_bytes L bs bytes_per_blob =
     (if length bs \<noteq> bytes_per_blob
      then Inl (ErrN ''Invalid byte length. Expected {} got {}'' [bytes_per_blob, length bs])
      else res_map Blob (Blob_from_bytes L bs))"

definition Blob_try_from_bytes_pad :: "('fr, 'g1, 'g2, 'fs, 'fk) kzg_lib \<Rightarrow> bytes \<Rightarrow> nat \<Rightarrow> 'fr Blob res" where
  "Blob_try_from_bytes_pad L bs bytes_per_blob =
     (if length bs > bytes_per_blob
      then Inl (ErrN ''Invalid byte length. Expected maximum {} got {}'' [bytes_per_blob, length bs])
      else let bytes_vec = resize bytes_per_blob 0 bs in res_map Blob (Blob_from_bytes L bytes_vec))"

definition Blob_to_bytes :: "('fr, 'g1, 'g2, 'fs, 'fk) kzg_lib \<Rightarrow> 'fr Blob \<Rightarrow> bytes" where
  "Blob_to_bytes L b = concat (map (to_bytes_safe L) (scalars b))"

definition Blob_to_bytes_by_len :: "('fr, 'g1, 'g2, 'fs, 'fk) kzg_lib \<Rightarrow> 'fr Blob \<Rightarrow> nat \<Rightarrow> bytes" where
  "Blob_to_bytes_by_len L b len =
     (let bs = Blob_to_bytes L b in if len < length bs then resize len 0 bs else bs)"

definition Blob_to_fs_fr_vec :: "'fr Blob \<Rightarrow> 'fr list" where
  "Blob_to_fs_fr_vec b = scalars b"

definition Blob_to_poly :: "'fr Blob \<Rightarrow> 'fr Polynomial" where
  "Blob_to_poly b = Polynomial (Blob_to_fs_fr_vec b)"

definition Polynomial_to_blob :: "'fr Polynomial \<Rightarrow> 'fr Blob" where
  "Polynomial_to_blob p = Blob (Polynomial_to_bls_scalars p)"

definition blob_count :: "nat \<Rightarrow> nat \<Rightarrow> nat res" where
  "blob_count bytes_len bytes_per_blob =
     (if bytes_per_blob = 0 then Inl (Panic ''attempt to divide by zero'')
      else Inr ((bytes_len + bytes_per_blob - 1) div bytes_per_blob))"

definition check_field_elements_per_blob :: "nat \<Rightarrow> unit res" where
  "check_field_elements_per_blob field_elements_per_blob =
     (if \<not> is_power_of_two field_elements_per_blob
      then Inl (Err ''field_elements_per_blob must be powers of two'') else Inr ())"

definition compute_challenge ::
  "('fr, 'g1, 'g2, 'fs, 'fk) kzg_lib \<Rightarrow> 'fr list \<Rightarrow> 'g1 \<Rightarrow> nat \<Rightarrow> nat \<Rightarrow> 'fr res" where
  "compute_challenge L blob commitment bytes_per_blob field_elements_per_blob =
     res_bind (copy_from_slice 0 16 (FIAT_SHAMIR_PROTOCOL_DOMAIN L) (replicate (CHALLENGE_INPUT_SIZE L) 0)) (\<lambda>bs.
     res_bind (copy_from_slice 16 24 (bytes_of_uint64 L (of_nat field_elements_per_blob)) bs) (\<lambda>bs.
     res_bind (copy_from_slice 24 32 (bytes_of_uint64 L 0) bs) (\<lambda>bs.
     res_bind (fold_res (\<lambda>i bs. copy_from_slice (32 + i * BYTES_PER_FIELD_ELEMENT) (32 + (i + 1) * BYTES_PER_FIELD_ELEMENT)
                                  (map (fr_to_bytes L) blob ! i) bs) [0..<length blob] bs) (\<lambda>bs.
     let v = g1_to_bytes L commitment in
     res_bind (fold_res (\<lambda>i bs. set_res bs (32 + bytes_per_blob + i) (v ! i)) [0..<length v] bs) (\<lambda>bs.
     Inr (hash_to_bls_field L (lib_hash L bs)))))))"

definition Blob_commit ::
  "('fr, 'g1, 'g2, 'fs, 'fk) kzg_lib \<Rightarrow> 'fr Blob \<Rightarrow> ('g1, 'g2, 'fs) KZG \<Rightarrow> 'g1 res" where
  "Blob_commit L b kzg = KZG_commit L kzg (Blob_to_poly b)"

definition Blob_kzg_proof ::
  "('fr, 'g1, 'g2, 'fs, 'fk) kzg_lib \<Rightarrow> 'fr Blob \<Rightarrow> 'g1 \<Rightarrow> ('g1, 'g2, 'fs) KZG \<Rightarrow> nat \<Rightarrow> 'g1 res" where
  "Blob_kzg_proof L b commitment kzg field_elements_per_blob =
     res_bind (check_field_elements_per_blob field_elements_per_blob) (\<lambda>_.
     let bytes_per_blob = BYTES_PER_FIELD_ELEMENT * field_elements_per_blob in
     res_bind (compute_challenge L (Blob_to_fs_fr_vec b) commitment bytes_per_blob field_elements_per_blob) (\<lambda>x.
     KZG_compute_proof L kzg (Blob_to_poly b) x))"

definition Blob_commit_and_proof ::
  "('fr, 'g1, 'g2, 'fs, 'fk) kzg_lib \<Rightarrow> 'fr Blob \<Rightarrow> ('g1, 'g2, 'fs) KZG \<Rightarrow> nat \<Rightarrow> ('g1 \<times> 'g1) res" where
  "Blob_commit_and_proof L b kzg field_elements_per_blob =
     res_bind (check_field_elements_per_blob field_elements_per_blob) (\<lambda>_.
     let bytes_per_blob = BYTES_PER_FIELD_ELEMENT * field_elements_per_blob;
         p = Blob_to_poly b in
     res_bind (KZG_commit L kzg p) (\<lambda>commitment.
     res_bind (compute_challenge L (Blob_to_fs_fr_vec b) commitment bytes_per_blob field_elements_per_blob) (\<lambda>x.
     res_bind (KZG_compute_proof L kzg p x) (\<lambda>proof.
     Inr (commitment, proof)))))"

definition Blob_verify ::
  "('fr, 'g1, 'g2, 'fs, 'fk) kzg_lib \<Rightarrow> 'fr Blob \<Rightarrow> ('g1, 'g2, 'fs) KZG \<Rightarrow> 'g1 \<Rightarrow> 'g1 \<Rightarrow> nat \<Rightarrow> bool res" where
  "Blob_verify L b kzg commitment proof field_elements_per_blob =
     res_bind (check_field_elements_per_blob field_elements_per_blob) (\<lambda>_.
     let bytes_per_blob = BYTES_PER_FIELD_ELEMENT * field_elements_per_blob in
     res_bind (compute_challenge L (Blob_to_fs_fr_vec b) commitment bytes_per_blob field_elements_per_blob) (\<lambda>x.
     let p = Blob_to_poly b; y = Polynomial_eval L p x in
     KZG_check_proof_single L kzg commitment proof x y))"

definition compute_challenges_and_evaluate_polynomial ::
  "('fr, 'g1, 'g2, 'fs, 'fk) kzg_lib \<Rightarrow> 'fr Blob list \<Rightarrow> 'g1 list \<Rightarrow> nat \<Rightarrow> nat \<Rightarrow> ('fr list \<times> 'fr list) res" where
  "compute_challenges_and_evaluate_polynomial L blobs commitments bytes_per_blob field_elements_per_blob =
     fold_res (\<lambda>(blob, commitment) (zs, ys).
        let p = Blob_to_poly blob; fs_fr_vec = Blob_to_fs_fr_vec blob in
        res_bind (compute_challenge L fs_fr_vec commitment bytes_per_blob field_elements_per_blob) (\<lambda>z.
        let y = Polynomial_eval L p z in Inr (zs @ [z], ys @ [y])))
       (zip blobs commitments) ([], [])"

definition Blob_verify_batch ::
  "('fr, 'g1, 'g2, 'fs, 'fk) kzg_lib \<Rightarrow> 'fr Blob list \<Rightarrow> 'g1 list \<Rightarrow> 'g1 list \<Rightarrow> ('g1, 'g2, 'fs) KZG \<Rightarrow> nat \<Rightarrow> bool res" where
  "Blob_verify_batch L blobs commitments proofs kzg field_elements_per_blob =
     (if list_ex (\<lambda>c. \<not> g1_is_valid L c) commitments then Inl (Err ''Invalid commitment'')
      else if list_ex (\<lambda>p. \<not> g1_is_valid L p) proofs then Inl (Err ''Invalid proof'')
      else if length blobs \<noteq> length commitments \<or> length blobs \<noteq> length proofs
      then Inl (ErrN ''Invalid input length. Expected {} got commitments: {} and proofs: {}''
                  [length blobs, length commitments, length proofs])
      else res_bind (check_field_elements_per_blob field_elements_per_blob) (\<lambda>_.
        let bytes_per_blob = BYTES_PER_FIELD_ELEMENT * field_elements_per_blob in
        res_bind (compute_challenges_and_evaluate_polynomial L blobs commitments bytes_per_blob field_elements_per_blob)
          (\<lambda>(zs, ys). Inr (verify_kzg_proof_batch L commitments zs ys proofs (ks kzg)))))"

section \<open>Segments (segment.rs)\<close>

record ('fr, 'g1) SegmentData =
  sd_data :: "'fr list"
  sd_proof :: 'g1

record ('fr, 'g1) Segment =
  position :: Position
  content :: "('fr, 'g1) SegmentData"

definition SegmentData_new :: "('fr, 'g1, 'g2, 'fs, 'fk) kzg_lib \<Rightarrow> 'g1 \<Rightarrow> nat \<Rightarrow> ('fr, 'g1) SegmentData" where
  "SegmentData_new L proof sz = \<lparr> sd_data = replicate sz (fr_zero L), sd_proof = proof \<rparr>"

definition SegmentData_size :: "('fr, 'g1) SegmentData \<Rightarrow> nat" where
  "SegmentData_size sd = length (sd_data sd)"

definition SegmentData_from_data ::
  "('fr, 'g1, 'g2, 'fs, 'fk) kzg_lib \<Rightarrow> Position \<Rightarrow> 'fr list \<Rightarrow> ('g1, 'g2, 'fs) KZG \<Rightarrow> 'fr Polynomial \<Rightarrow> nat
    \<Rightarrow> ('fr, 'g1) SegmentData res" where
  "SegmentData_from_data L positon cont kzg p chunk_count =
     res_map (\<lambda>pr. \<lparr> sd_data = cont, sd_proof = pr \<rparr>)
       (KZG_compute_proof_multi L kzg p (unat (pos_x positon)) chunk_count (length cont))"

definition Segment_new :: "Position \<Rightarrow> 'fr list \<Rightarrow> 'g1 \<Rightarrow> ('fr, 'g1) Segment" where
  "Segment_new pos dat proof = \<lparr> position = pos, content = \<lparr> sd_data = dat, sd_proof = proof \<rparr> \<rparr>"

definition Segment_size :: "('fr, 'g1) Segment \<Rightarrow> nat" where
  "Segment_size s = length (sd_data (content s))"

definition Segment_checked :: "('fr, 'g1) Segment \<Rightarrow> ('fr, 'g1) Segment res" where
  "Segment_checked s =
     (if sd_data (content s) = [] then Inl (Err ''segment data is empty'')
      else if \<not> is_power_of_two (length (sd_data (content s)))
      then Inl (Err ''segment data length is not a power of two'')
      else Inr s)"

definition Segment_verify ::
  "('fr, 'g1, 'g2, 'fs, 'fk) kzg_lib \<Rightarrow> ('fr, 'g1) Segment \<Rightarrow> ('g1, 'g2, 'fs) KZG \<Rightarrow> 'g1 \<Rightarrow> nat \<Rightarrow> bool res" where
  "Segment_verify L s kzg commitment count =
     KZG_check_proof_multi L kzg commitment (unat (pos_x (position s))) count
       (sd_data (content s)) (sd_proof (content s)) (Segment_size s)"

section \<open>Bytes and field elements\<close>

lemma Blob_from_bytes_exact:
  assumes "scalar_documented L" and "length bs = n * SCALAR_SAFE_BYTES"
  shows "\<exists>ss. Blob_from_bytes L bs = Inr ss \<and> length ss = n \<and> concat (map (to_bytes_safe L) ss) = bs"
proof -
  let ?cs = "chunks SCALAR_SAFE_BYTES bs"
  have pos: "0 < SCALAR_SAFE_BYTES" by (simp add: SCALAR_SAFE_BYTES_def)
  have len: "length c = SCALAR_SAFE_BYTES" if "c \<in> set ?cs" for c
    using chunks_exact [OF pos assms(2) that] .
  have "\<exists>ss. Blob_from_bytes L bs = Inr ss \<and> map (to_bytes_safe L) ss = ?cs"
    unfolding Blob_from_bytes_def
    by (rule traverse_section) (use len safe_scalar_roundtrip [OF assms(1)] in simp)
  then obtain ss where ss: "Blob_from_bytes L bs = Inr ss" "map (to_bytes_safe L) ss = ?cs" by blast
  have "length ss = n"
    using arg_cong [OF ss(2), of length] length_chunks_mult [OF pos assms(2)] by simp
  moreover have "concat (map (to_bytes_safe L) ss) = bs" using ss(2) pos by simp
  ultimately show ?thesis using ss(1) by blast
qed

lemma Blob_from_bytes_ragged:
  assumes "\<not> SCALAR_SAFE_BYTES dvd length bs"
  shows "\<nexists>ss. Blob_from_bytes L bs = Inr ss"
proof
  assume "\<exists>ss. Blob_from_bytes L bs = Inr ss"
  then have "\<forall>c \<in> set (chunks SCALAR_SAFE_BYTES bs). length c = SCALAR_SAFE_BYTES"
    by (auto simp: Blob_from_bytes_def traverse_Inr_iff in_set_conv_nth split: if_splits)
  then have "length (concat (chunks SCALAR_SAFE_BYTES bs)) = length (chunks SCALAR_SAFE_BYTES bs) * SCALAR_SAFE_BYTES"
    by (intro length_concat_const) auto
  then show False using assms by (simp add: SCALAR_SAFE_BYTES_def)
qed

text \<open>The input of the challenge hash, written as one byte string.\<close>

definition challenge_input ::
  "('fr, 'g1, 'g2, 'fs, 'fk) kzg_lib \<Rightarrow> 'fr list \<Rightarrow> 'g1 \<Rightarrow> nat \<Rightarrow> nat \<Rightarrow> bytes" where
  "challenge_input L blob commitment bytes_per_blob field_elements_per_blob =
     resize (CHALLENGE_INPUT_SIZE L) 0
       (FIAT_SHAMIR_PROTOCOL_DOMAIN L @ bytes_of_uint64 L (of_nat field_elements_per_blob) @ bytes_of_uint64 L 0 @
        resize bytes_per_blob 0 (concat (map (fr_to_bytes L) blob)) @ g1_to_bytes L commitment)"

text \<open>The sizes the encodings of the library have.\<close>

definition encoding_documented :: "('fr, 'g1, 'g2, 'fs, 'fk) kzg_lib \<Rightarrow> bool" where
  "encoding_documented L \<longleftrightarrow>
     length (FIAT_SHAMIR_PROTOCOL_DOMAIN L) = 16 \<and> (\<forall>n. length (bytes_of_uint64 L n) = 8) \<and>
     (\<forall>s. length (fr_to_bytes L s) = 32) \<and> (\<forall>c. length (g1_to_bytes L c) = BYTES_PER_G1 L)"

lemma compute_challenge_layout:
  assumes "encoding_documented L"
    and "length blob * 32 \<le> bytes_per_blob" and "32 + bytes_per_blob + BYTES_PER_G1 L \<le> CHALLENGE_INPUT_SIZE L"
  shows "compute_challenge L blob commitment bytes_per_blob fe =
     Inr (hash_to_bls_field L (lib_hash L (challenge_input L blob commitment bytes_per_blob fe)))"
proof -
  let ?S = "CHALLENGE_INPUT_SIZE L"
  let ?dom = "FIAT_SHAMIR_PROTOCOL_DOMAIN L" and ?n = "bytes_of_uint64 L (of_nat fe)" and ?z = "bytes_of_uint64 L 0"
  let ?fr = "map (fr_to_bytes L) blob" and ?v = "g1_to_bytes L commitment"
  have len: "length ?dom = 16" "length ?n = 8" "length ?z = 8" "length ?v = BYTES_PER_G1 L"
    using assms(1) by (auto simp: encoding_documented_def)
  have fr: "\<And>b. b \<in> set ?fr \<Longrightarrow> length b = 32" using assms(1) by (auto simp: encoding_documented_def)
  have frlen: "length (concat ?fr) = length blob * 32" using length_concat_const [of ?fr 32] fr by simp
  have S: "32 \<le> ?S" using assms(3) by simp
  have s1: "copy_from_slice 0 16 ?dom (replicate ?S 0) = Inr (?dom @ replicate (?S - 16) 0)"
    using S len by (simp add: copy_from_slice_def)
  have s2: "copy_from_slice 16 24 ?n (?dom @ replicate (?S - 16) 0) = Inr (?dom @ ?n @ replicate (?S - 24) 0)"
    using S len by (simp add: copy_from_slice_def)
  have s3: "copy_from_slice 24 32 ?z (?dom @ ?n @ replicate (?S - 24) 0)
      = Inr (?dom @ ?n @ ?z @ replicate (?S - 32) 0)"
    using S len by (simp add: copy_from_slice_def)
  let ?h = "?dom @ ?n @ ?z"
  have h: "length ?h = 32" using len by simp
  have s4: "fold_res (\<lambda>i bs. copy_from_slice (32 + i * BYTES_PER_FIELD_ELEMENT) (32 + (i + 1) * BYTES_PER_FIELD_ELEMENT)
        (?fr ! i) bs) [0..<length blob] (?h @ replicate (?S - 32) 0)
      = Inr (?h @ concat ?fr @ replicate (?S - 32 - length blob * 32) 0)"
    using fold_copy_blocks [of ?fr 32 32 "?h @ replicate (?S - 32) 0"] fr assms(2,3) h
    by (simp add: BYTES_PER_FIELD_ELEMENT_def)
  have s5: "fold_res (\<lambda>i bs. set_res bs (32 + bytes_per_blob + i) (?v ! i)) [0..<length ?v]
        (?h @ concat ?fr @ replicate (?S - 32 - length blob * 32) 0)
      = Inr (?h @ concat ?fr @ replicate (bytes_per_blob - length blob * 32) 0 @ ?v @
          replicate (?S - 32 - bytes_per_blob - BYTES_PER_G1 L) 0)"
    using fold_set_res [of "32 + bytes_per_blob" ?v "?h @ concat ?fr @ replicate (?S - 32 - length blob * 32) 0"]
      assms(2,3) h len frlen by (simp add: min_def) arith
  have inp: "challenge_input L blob commitment bytes_per_blob fe =
      ?h @ concat ?fr @ replicate (bytes_per_blob - length blob * 32) 0 @ ?v @
      replicate (?S - 32 - bytes_per_blob - BYTES_PER_G1 L) 0"
    using assms(2,3) len frlen by (simp add: challenge_input_def resize_pad)
  show ?thesis
    unfolding compute_challenge_def inp using s1 s2 s3 s4 s5 by simp
qed

section \<open>Properties of blobs\<close>

lemma Blob_pad_correct:
  assumes "scalar_documented L" and "length bs \<le> n * SCALAR_SAFE_BYTES"
  shows "\<exists>b. Blob_try_from_bytes_pad L bs (n * SCALAR_SAFE_BYTES) = Inr b \<and> length (scalars b) = n \<and>
     Blob_to_bytes L b = bs @ replicate (n * SCALAR_SAFE_BYTES - length bs) 0 \<and>
     Blob_to_bytes_by_len L b (length bs) = bs"
proof -
  let ?v = "resize (n * SCALAR_SAFE_BYTES) 0 bs"
  have v: "?v = bs @ replicate (n * SCALAR_SAFE_BYTES - length bs) 0" using assms(2) by (rule resize_pad)
  from Blob_from_bytes_exact [OF assms(1), of ?v n] obtain ss where
    ss: "Blob_from_bytes L ?v = Inr ss" "length ss = n" "concat (map (to_bytes_safe L) ss) = ?v" by auto
  have bytes: "Blob_to_bytes L (Blob ss) = ?v" by (simp add: Blob_to_bytes_def ss(3))
  have "Blob_to_bytes_by_len L (Blob ss) (length bs) = bs"
    using assms(2) by (auto simp: Blob_to_bytes_by_len_def Let_def bytes v resize_def)
  then show ?thesis using assms(2) ss bytes v
    by (auto simp: Blob_try_from_bytes_pad_def Let_def intro!: exI [of _ "Blob ss"])
qed

text \<open>Padding bytes into a blob of \<open>n\<close> field elements loses nothing: any at most \<open>31 * n\<close>
  bytes are accepted, the blob has exactly \<open>n\<close> scalars, its bytes are the input followed by
  zeros, and cutting them to the length of the input gives the input back; longer inputs are
  refused with both lengths in the message.\<close>

theorem blob_pad_roundtrip:
  assumes "scalar_documented L"
  shows "if length bs \<le> n * SCALAR_SAFE_BYTES
         then \<exists>b. Blob_try_from_bytes_pad L bs (n * SCALAR_SAFE_BYTES) = Inr b \<and> length (scalars b) = n \<and>
                Blob_to_bytes L b = bs @ replicate (n * SCALAR_SAFE_BYTES - length bs) 0 \<and>
                Blob_to_bytes_by_len L b (length bs) = bs
         else Blob_try_from_bytes_pad L bs (n * SCALAR_SAFE_BYTES) =
                Inl (ErrN ''Invalid byte length. Expected maximum {} got {}'' [n * SCALAR_SAFE_BYTES, length bs])"
  using Blob_pad_correct [OF assms, of bs n] by (auto simp: Blob_try_from_bytes_pad_def)

theorem blob_pad_roundtrip_witness:
  "\<exists>b. Blob_try_from_bytes_pad sample_lib [1, 2, 3] 62 = Inr b \<and> length (scalars b) = 2 \<and>
     Blob_to_bytes_by_len sample_lib b 3 = [1, 2, 3]"
  using blob_pad_roundtrip [OF sample_scalar_documented, of "[1, 2, 3]" 2]
  by (auto simp: SCALAR_SAFE_BYTES_def numeral_3_eq_3)

text \<open>The challenge of a blob is the hash of the domain tag, the number of field elements as two
  integers, the field elements padded with zeros to the blob size, and the commitment, padded with
  zeros to the input size of the hash; the buffer is never indexed out of range when the blob fits
  its size and the size fits the buffer.\<close>

theorem compute_challenge_input:
  assumes "encoding_documented L"
    and "length blob \<le> fe" and "32 + 32 * fe + BYTES_PER_G1 L \<le> CHALLENGE_INPUT_SIZE L"
  shows "compute_challenge L blob commitment (BYTES_PER_FIELD_ELEMENT * fe) fe =
     Inr (hash_to_bls_field L (lib_hash L (resize (CHALLENGE_INPUT_SIZE L) 0
       (FIAT_SHAMIR_PROTOCOL_DOMAIN L @ bytes_of_uint64 L (of_nat fe) @ bytes_of_uint64 L 0 @
        resize (32 * fe) 0 (concat (map (fr_to_bytes L) blob)) @ g1_to_bytes L commitment))))"
  using compute_challenge_layout [OF assms(1), of blob "32 * fe" commitment fe] assms(2,3)
  by (simp add: challenge_input_def BYTES_PER_FIELD_ELEMENT_def)

lemma sample_encoding_documented: "encoding_documented sample_lib"
  by (simp add: encoding_documented_def sample_lib_def)

theorem compute_challenge_input_witness:
  "compute_challenge sample_lib [] [] (BYTES_PER_FIELD_ELEMENT * 1) 1 =
     Inr (hash_to_bls_field sample_lib (lib_hash sample_lib (resize 131152 0
       (replicate 16 1 @ bytes_of_uint64 sample_lib 1 @ bytes_of_uint64 sample_lib 0 @ replicate 32 0 @ replicate 48 0))))"
  using compute_challenge_input [OF sample_encoding_documented, of "[]" 1 "[]"]
  by (simp add: sample_lib_def resize_def)

text \<open>What the documentation of the proof scheme promises: a proof computed for the value of the
  committed polynomial at a point is accepted, and a batch of proofs that are accepted one by one is
  accepted.\<close>

definition kzg_complete :: "('fr, 'g1, 'g2, 'fs, 'fk) kzg_lib \<Rightarrow> ('g1, 'g2, 'fs) FsKZGSettings \<Rightarrow> bool" where
  "kzg_complete L s \<longleftrightarrow>
     (\<forall>p x c pr. commit_to_poly L s p = Inr c \<longrightarrow> ks_compute_proof_single L s p x = Inr pr \<longrightarrow>
        ks_check_proof_single L s c pr x (poly_eval L p x) = Inr True)"

definition kzg_batch_complete :: "('fr, 'g1, 'g2, 'fs, 'fk) kzg_lib \<Rightarrow> ('g1, 'g2, 'fs) FsKZGSettings \<Rightarrow> bool" where
  "kzg_batch_complete L s \<longleftrightarrow>
     (\<forall>cs zs ys prs. length zs = length cs \<longrightarrow> length ys = length cs \<longrightarrow> length prs = length cs \<longrightarrow>
        (\<forall>i < length cs. ks_check_proof_single L s (cs ! i) (prs ! i) (zs ! i) (ys ! i) = Inr True) \<longrightarrow>
        verify_kzg_proof_batch L cs zs ys prs s)"

lemmas blob_proof_defs = Blob_commit_and_proof_def Blob_verify_def Blob_kzg_proof_def Blob_commit_def
  KZG_commit_def KZG_compute_proof_def KZG_check_proof_single_def Polynomial_eval_def Blob_to_poly_def
  Blob_to_fs_fr_vec_def Let_def

lemma commit_and_proof_parts:
  assumes "Blob_commit_and_proof L b kzg fe = Inr (c, pr)"
  shows "is_power_of_two fe"
    and "\<exists>x. commit_to_poly L (ks kzg) (scalars b) = Inr c \<and>
          compute_challenge L (scalars b) c (BYTES_PER_FIELD_ELEMENT * fe) fe = Inr x \<and>
          ks_compute_proof_single L (ks kzg) (scalars b) x = Inr pr"
  using assms by (auto simp: blob_proof_defs res_simps check_field_elements_per_blob_def split: if_splits)

text \<open>A commitment and proof produced for a blob are accepted by \<open>verify\<close> for the same blob,
  and \<open>kzg_proof\<close> for that commitment is the same proof: prover and verifier derive the same
  challenge.\<close>

theorem commit_and_proof_verifies:
  assumes "kzg_complete L (ks kzg)" and "Blob_commit_and_proof L b kzg fe = Inr (c, pr)"
  shows "Blob_verify L b kzg c pr fe = Inr True \<and> Blob_commit L b kzg = Inr c \<and>
         Blob_kzg_proof L b c kzg fe = Inr pr"
  using assms(1) commit_and_proof_parts [OF assms(2)]
  by (auto simp: blob_proof_defs check_field_elements_per_blob_def kzg_complete_def)

lemma sample_kzg_complete: "kzg_complete sample_lib (ks (sample_kzg w))"
  by (simp add: kzg_complete_def sample_lib_def)

lemma sample_commit_and_proof:
  "Blob_commit_and_proof sample_lib (Blob [replicate 32 3]) (sample_kzg w) 1 = Inr ([replicate 32 3], [])"
proof -
  obtain x where "compute_challenge sample_lib [replicate 32 3] [replicate 32 3] 32 1 = Inr x"
    using compute_challenge_layout [OF sample_encoding_documented, of "[replicate 32 3]" 32 "[replicate 32 3]" 1]
    by (simp add: sample_lib_def)
  then show ?thesis
    by (simp add: blob_proof_defs check_field_elements_per_blob_def BYTES_PER_FIELD_ELEMENT_def
        sample_lib_def is_power_of_two.simps)
qed

theorem commit_and_proof_verifies_witness:
  "Blob_verify sample_lib (Blob [replicate 32 3]) (sample_kzg 4096) [replicate 32 3] [] 1 = Inr True"
  using commit_and_proof_verifies [OF sample_kzg_complete sample_commit_and_proof] by simp

lemma compute_challenges_fold:
  assumes "length blobs = length commitments"
    and "\<And>i. i < length blobs \<Longrightarrow>
          compute_challenge L (scalars (blobs ! i)) (commitments ! i) bpb fe = Inr (z i)"
  shows "fold_res (\<lambda>(blob, commitment) (zs, ys).
        let p = Blob_to_poly blob; fs_fr_vec = Blob_to_fs_fr_vec blob in
        res_bind (compute_challenge L fs_fr_vec commitment bpb fe) (\<lambda>z.
        let y = Polynomial_eval L p z in Inr (zs @ [z], ys @ [y]))) (zip blobs commitments) (zs0, ys0)
     = Inr (zs0 @ map z [0..<length blobs],
            ys0 @ map (\<lambda>i. poly_eval L (scalars (blobs ! i)) (z i)) [0..<length blobs])"
  using assms
proof (induction blobs commitments arbitrary: zs0 ys0 z rule: list_induct2)
  case Nil
  then show ?case by simp
next
  case (Cons b blobs c commitments)
  have "compute_challenge L (scalars b) c bpb fe = Inr (z 0)" using Cons.prems [of 0] by simp
  moreover have "\<And>i. i < length blobs \<Longrightarrow>
      compute_challenge L (scalars (blobs ! i)) (commitments ! i) bpb fe = Inr (z (Suc i))"
    using Cons.prems [of "Suc _"] by simp
  note IH = Cons.IH [where z = "\<lambda>i. z (Suc i)", OF this]
  ultimately show ?case
    by (simp add: Blob_to_fs_fr_vec_def Blob_to_poly_def Polynomial_eval_def Let_def map_upt_Suc del: upt_Suc)
qed

lemma Blob_verify_batch_ok:
  assumes "kzg_complete L (ks kzg)" and "kzg_batch_complete L (ks kzg)"
    and "is_power_of_two fe" and "\<forall>cp \<in> set cps. g1_is_valid L (fst cp) \<and> g1_is_valid L (snd cp)"
    and "list_all2 (\<lambda>b (c, pr). Blob_commit_and_proof L b kzg fe = Inr (c, pr)) blobs cps"
  shows "Blob_verify_batch L blobs (map fst cps) (map snd cps) kzg fe = Inr True"
proof -
  let ?cs = "map fst cps" and ?prs = "map snd cps" and ?bpb = "BYTES_PER_FIELD_ELEMENT * fe"
  have len: "length blobs = length cps" using assms(5) by (simp add: list_all2_lengthD)
  have "\<exists>x. commit_to_poly L (ks kzg) (scalars (blobs ! i)) = Inr (?cs ! i) \<and>
          compute_challenge L (scalars (blobs ! i)) (?cs ! i) ?bpb fe = Inr x \<and>
          ks_compute_proof_single L (ks kzg) (scalars (blobs ! i)) x = Inr (?prs ! i)" if "i < length blobs" for i
  proof -
    have "Blob_commit_and_proof L (blobs ! i) kzg fe = Inr (?cs ! i, ?prs ! i)"
      using list_all2_nthD [OF assms(5) that] that len by (simp add: case_prod_unfold)
    from commit_and_proof_parts(2) [OF this] show ?thesis .
  qed
  then obtain z where z:
    "\<And>i. i < length blobs \<Longrightarrow> commit_to_poly L (ks kzg) (scalars (blobs ! i)) = Inr (?cs ! i)"
    "\<And>i. i < length blobs \<Longrightarrow> compute_challenge L (scalars (blobs ! i)) (?cs ! i) ?bpb fe = Inr (z i)"
    "\<And>i. i < length blobs \<Longrightarrow> ks_compute_proof_single L (ks kzg) (scalars (blobs ! i)) (z i) = Inr (?prs ! i)"
    by metis
  let ?zs = "map z [0..<length blobs]" and ?ys = "map (\<lambda>i. poly_eval L (scalars (blobs ! i)) (z i)) [0..<length blobs]"
  have chal: "compute_challenges_and_evaluate_polynomial L blobs ?cs ?bpb fe = Inr (?zs, ?ys)"
    using compute_challenges_fold [of blobs ?cs L ?bpb fe z "[]" "[]"] len z(2)
    by (simp add: compute_challenges_and_evaluate_polynomial_def)
  have "ks_check_proof_single L (ks kzg) (?cs ! i) (?prs ! i) (?zs ! i) (?ys ! i) = Inr True"
    if "i < length ?cs" for i
    using assms(1) z(1,3) [of i] that len by (simp add: kzg_complete_def)
  then have "verify_kzg_proof_batch L ?cs ?zs ?ys ?prs (ks kzg)"
    using assms(2) len unfolding kzg_batch_complete_def by simp
  then show ?thesis
    using assms(3,4) len chal
    by (simp add: Blob_verify_batch_def check_field_elements_per_blob_def list_ex_iff)
qed

text \<open>Blobs submitted with the commitments and proofs that \<open>commit_and_proof\<close> gave for them pass
  the batch verification, whatever their number, when the points are valid group elements.\<close>

theorem verify_batch_complete:
  assumes "kzg_complete L (ks kzg)" and "kzg_batch_complete L (ks kzg)"
    and "is_power_of_two fe" and "\<forall>cp \<in> set cps. g1_is_valid L (fst cp) \<and> g1_is_valid L (snd cp)"
    and "list_all2 (\<lambda>b (c, pr). Blob_commit_and_proof L b kzg fe = Inr (c, pr)) blobs cps"
  shows "Blob_verify_batch L blobs (map fst cps) (map snd cps) kzg fe = Inr True"
  using assms by (rule Blob_verify_batch_ok)

theorem verify_batch_complete_witness:
  "Blob_verify_batch sample_lib [Blob [replicate 32 3], Blob [replicate 32 3]]
     [[replicate 32 3], [replicate 32 3]] [[], []] (sample_kzg 4096) 1 = Inr True"
proof -
  have "kzg_batch_complete sample_lib (ks (sample_kzg 4096))"
    by (auto simp: kzg_batch_complete_def sample_lib_def list_all2_conv_all_nth)
  moreover have "g1_is_valid sample_lib c" for c by (simp add: sample_lib_def)
  ultimately show ?thesis
    using verify_batch_complete [OF sample_kzg_complete, where fe = 1
        and blobs = "[Blob [replicate 32 3], Blob [replicate 32 3]]"
        and cps = "[([replicate 32 3], []), ([replicate 32 3], [])]"]
    by (simp add: sample_commit_and_proof [unfolded One_nat_def] is_power_of_two.simps)
qed

end
