(* ===== verification/Erasure.thy ===== *)
theory Erasure
  imports Blob
begin

text \<open>
  The erasure coding of \<open>crates/melo-erasure-coding\<close>: bytes to blobs and segments
  (\<open>lib.rs\<close>), extension of scalars, polynomials and group elements (\<open>erasure_coding.rs\<close>),
  ordering of segments (\<open>segment.rs\<close>) and recovery of a row (\<open>recovery.rs\<close>).
\<close>

section \<open>Extension and recovery of scalars (erasure\_coding.rs)\<close>

definition extend :: "('fr, 'g1, 'g2, 'fs, 'fk) kzg_lib \<Rightarrow> 'fs \<Rightarrow> 'fr list \<Rightarrow> 'fr list res" where
  "extend L fs source = das_fft_extension L fs source"

definition extend_poly :: "('fr, 'g1, 'g2, 'fs, 'fk) kzg_lib \<Rightarrow> 'fs \<Rightarrow> 'fr Polynomial \<Rightarrow> 'fr list res" where
  "extend_poly L fs p =
     (let cs = resize (length (coeffs p) * 2) (fr_zero L) (coeffs p) in
      res_map (reverse_bit_order L) (fft_fr L fs cs False))"

definition extend_fs_g1 :: "('fr, 'g1, 'g2, 'fs, 'fk) kzg_lib \<Rightarrow> 'fs \<Rightarrow> 'g1 list \<Rightarrow> 'g1 list res" where
  "extend_fs_g1 L fs source =
     res_bind (fft_g1 L fs source True) (\<lambda>cs.
     fft_g1 L fs (resize (length cs * 2) (g1_identity L) cs) False)"

definition extend_and_reorder_elements ::
  "('fr, 'g1, 'g2, 'fs, 'fk) kzg_lib \<Rightarrow> 'fs \<Rightarrow> 'g1 list \<Rightarrow> 'g1 list res" where
  "extend_and_reorder_elements L fs elements =
     res_map (\<lambda>extended.
        let (originals, extensions) = partition (\<lambda>(i, _). i mod 2 = 0) (enumerate0 extended)
        in map snd originals @ map snd extensions)
       (extend_fs_g1 L fs elements)"

definition recover :: "('fr, 'g1, 'g2, 'fs, 'fk) kzg_lib \<Rightarrow> 'fs \<Rightarrow> 'fr option list \<Rightarrow> 'fr list res" where
  "recover L fs shards =
     (if list_ex Option.is_none shards
      then let shards_mut = reverse_bit_order L shards in
           res_map (reverse_bit_order L) (recover_poly_from_samples L shards_mut fs)
      else Inr (map the shards))"

definition recover_poly :: "('fr, 'g1, 'g2, 'fs, 'fk) kzg_lib \<Rightarrow> 'fs \<Rightarrow> 'fr option list \<Rightarrow> 'fr Polynomial res" where
  "recover_poly L fs shards =
     (let shards_mut = reverse_bit_order L shards in
      res_map Polynomial_left
        (if list_ex Option.is_none shards
         then res_map Polynomial (recover_poly_coeffs_from_samples L shards_mut fs)
         else let dat = map the shards_mut in
              res_map Polynomial_from_coeffs (res_expect '''' (fft_fr L fs dat True))))"

section \<open>Ordering of segments (segment.rs)\<close>

definition order_segments_row ::
  "('fr, 'g1) Segment list \<Rightarrow> nat \<Rightarrow> ('fr, 'g1) SegmentData option list res" where
  "order_segments_row segments chunk_count =
     (if length segments > chunk_count * 2 \<or> segments = [] then Inl (Err ''segments x not equal'')
      else let y = pos_y (position (segments ! 0)) in
           fold_res (\<lambda>segment ordered_segments.
               if pos_y (position segment) \<noteq> y then Inl (Err ''segments y not equal'')
               else set_res ordered_segments (unat (pos_x (position segment))) (Some (content segment)))
             segments (replicate (chunk_count * 2) None))"

definition order_segments_col ::
  "('fr, 'g1) Segment list \<Rightarrow> nat \<Rightarrow> ('fr, 'g1) SegmentData option list res" where
  "order_segments_col segments k =
     (if length segments > k * 2 \<or> segments = [] then Inl (Err ''segments x not equal'')
      else let x = pos_x (position (segments ! 0)) in
           fold_res (\<lambda>segment ordered_segments.
               if pos_x (position segment) \<noteq> x then Inl (Err ''segments x not equal'')
               else set_res ordered_segments (unat (pos_y (position segment))) (Some (content segment)))
             segments (replicate (k * 2) None))"

definition segment_datas_to_row :: "('fr, 'g1) SegmentData option list \<Rightarrow> nat \<Rightarrow> 'fr option list" where
  "segment_datas_to_row segments chunk_size =
     concat (map (\<lambda>segment_data_option. case segment_data_option of
         Some segment_data \<Rightarrow> map Some (sd_data segment_data)
       | None \<Rightarrow> replicate chunk_size None) segments)"

definition poly_to_segment_vec ::
  "('fr, 'g1, 'g2, 'fs, 'fk) kzg_lib \<Rightarrow> 'fr Polynomial \<Rightarrow> ('g1, 'g2, 'fs) KZG \<Rightarrow> nat \<Rightarrow> nat \<Rightarrow> ('fr, 'g1) Segment list res" where
  "poly_to_segment_vec L p kzg y chunk_size =
     res_bind (Polynomial_checked p) (\<lambda>p'.
     let poly_len = length (coeffs p') in
     if \<not> is_power_of_two chunk_size then Inl (Err ''chunk_size must be a power of two'')
     else res_bind (fk20_new L (ks kzg) (2 * poly_len) chunk_size) (\<lambda>fk.
          res_bind (fk20_data_availability L fk (coeffs p)) (\<lambda>all_proofs.
          res_bind (extend_poly L (fk20_fs L fk) p) (\<lambda>extended_poly.
          traverse (\<lambda>(i, chunk).
              let pos = \<lparr> pos_x = of_nat i, pos_y = of_nat y \<rparr> in
              res_map (Segment_new pos chunk) (index_res all_proofs i))
            (enumerate0 (chunks chunk_size extended_poly))))))"

section \<open>Recovery of a row (recovery.rs)\<close>

definition recover_segment_datas ::
  "('fr, 'g1, 'g2, 'fs, 'fk) kzg_lib \<Rightarrow> ('fr, 'g1) SegmentData option list \<Rightarrow> ('g1, 'g2, 'fs) KZG \<Rightarrow> nat \<Rightarrow> u32 \<Rightarrow> nat
    \<Rightarrow> ('fr, 'g1) Segment list res" where
  "recover_segment_datas L segment_datas kzg chunk_count y segments_size =
     (let row = segment_datas_to_row segment_datas segments_size in
      res_bind (recover_poly L (KZG_get_fs kzg) row) (\<lambda>p.
      res_bind (extend_poly L (KZG_get_fs kzg) p) (\<lambda>recovery_row.
      traverse (\<lambda>(i, segment_data).
          let pos = \<lparr> pos_x = of_nat i, pos_y = y \<rparr> in
          case segment_data of
            Some sd \<Rightarrow> Inr \<lparr> position = pos, content = sd \<rparr>
          | None \<Rightarrow>
              let index = i * segments_size in
              res_bind (slice_res recovery_row index (index + segments_size)) (\<lambda>dat.
              res_map (\<lambda>sd. \<lparr> position = pos, content = sd \<rparr>)
                (SegmentData_from_data L pos dat kzg p chunk_count)))
        (enumerate0 segment_datas))))"

definition recovery_row_from_segments ::
  "('fr, 'g1, 'g2, 'fs, 'fk) kzg_lib \<Rightarrow> ('fr, 'g1) Segment list \<Rightarrow> ('g1, 'g2, 'fs) KZG \<Rightarrow> nat \<Rightarrow> ('fr, 'g1) Segment list res" where
  "recovery_row_from_segments L segments kzg chunk_count =
     res_bind (index_res segments 0) (\<lambda>first.
     let y = pos_y (position first); segments_size = Segment_size first in
     if list_ex (\<lambda>s. pos_y (position s) \<noteq> y) segments
     then Inl (Err ''segments are not from the same row'')
     else if \<not> is_power_of_two segments_size \<or> \<not> is_power_of_two chunk_count
     then Inl (Err ''segment size and chunk_count must be a power of two'')
     else if list_ex (\<lambda>s. Segment_size s \<noteq> segments_size) segments
     then Inl (Err ''segments are not of the same size'')
     else res_bind (order_segments_row segments chunk_count) (\<lambda>order_segments.
          recover_segment_datas L order_segments kzg chunk_count y segments_size))"

definition recovery_order_row_from_segments ::
  "('fr, 'g1, 'g2, 'fs, 'fk) kzg_lib \<Rightarrow> ('fr, 'g1) Segment option list \<Rightarrow> ('g1, 'g2, 'fs) KZG \<Rightarrow> ('fr, 'g1) Segment list res" where
  "recovery_order_row_from_segments L order_segments kzg =
     (let chunk_count = length order_segments in
      if \<not> is_power_of_two chunk_count
      then Inl (Err ''segment size and chunk_count must be a power of two'')
      else case List.map_filter id order_segments of
             [] \<Rightarrow> Inl (Err ''no segments provided'')
           | first_segment # rest \<Rightarrow>
               let y = pos_y (position first_segment); sz = Segment_size first_segment in
               if list_all (\<lambda>s. pos_y (position s) = y \<and> Segment_size s = sz) rest
               then recover_segment_datas L (map (map_option content) order_segments) kzg chunk_count y sz
               else Inl (Err ''segments are not from the same row or not of the same size''))"

section \<open>Bytes to blobs and segments (lib.rs)\<close>

definition get_bytes_per_blob :: "nat \<Rightarrow> nat res" where
  "get_bytes_per_blob field_elements_per_blob =
     (let bytes_per_blob = SCALAR_SAFE_BYTES * field_elements_per_blob in
      if \<not> is_power_of_two field_elements_per_blob
      then Inl (Err ''field_elements_per_blob should be a power of 2; qed'')
      else if field_elements_per_blob = 0
      then Inl (Err ''field_elements_per_blob should be greater than 0; qed'')
      else Inr bytes_per_blob)"

definition bytes_to_blobs ::
  "('fr, 'g1, 'g2, 'fs, 'fk) kzg_lib \<Rightarrow> bytes \<Rightarrow> nat \<Rightarrow> 'fr Blob list res" where
  "bytes_to_blobs L bs field_elements_per_blob =
     (if bs = [] then Inl (Err ''bytes should not contain empty bytes; qed'')
      else res_bind (get_bytes_per_blob field_elements_per_blob) (\<lambda>bytes_per_blob.
        traverse (\<lambda>chunk. res_expect ''Failed to convert bytes to Blob; qed''
                            (Blob_try_from_bytes_pad L chunk bytes_per_blob))
          (chunks bytes_per_blob bs)))"

definition bytes_vec_to_blobs ::
  "('fr, 'g1, 'g2, 'fs, 'fk) kzg_lib \<Rightarrow> bytes list \<Rightarrow> nat \<Rightarrow> 'fr Blob list res" where
  "bytes_vec_to_blobs L bytes_vec field_elements_per_blob =
     (if list_ex (\<lambda>bs. bs = []) bytes_vec then Inl (Err ''bytes_vec should not contain empty bytes; qed'')
      else res_bind (get_bytes_per_blob field_elements_per_blob) (\<lambda>bytes_per_blob.
        res_map concat
          (traverse (\<lambda>bs. traverse (\<lambda>chunk. res_expect ''Failed to convert bytes to Blob; qed''
                                     (Blob_try_from_bytes_pad L chunk bytes_per_blob))
             (chunks bytes_per_blob bs)) bytes_vec)))"

definition bytes_to_segments ::
  "('fr, 'g1, 'g2, 'fs, 'fk) kzg_lib \<Rightarrow> bytes \<Rightarrow> nat \<Rightarrow> nat \<Rightarrow> ('g1, 'g2, 'fs) KZG \<Rightarrow> ('fr, 'g1) Segment list res" where
  "bytes_to_segments L bs field_elements_per_blob field_elements_per_segment kzg =
     (if bs = [] then Inl (Err ''bytes should not contain empty bytes; qed'')
      else res_bind (get_bytes_per_blob field_elements_per_blob) (\<lambda>bytes_per_blob.
        res_map concat
          (traverse (\<lambda>(y, chunk).
              res_bind (res_expect ''Failed to convert bytes to Blob; qed''
                          (Blob_try_from_bytes_pad L chunk bytes_per_blob)) (\<lambda>blob.
              res_expect ''Failed to convert bytes to Blob; qed''
                (poly_to_segment_vec L (Blob_to_poly blob) kzg y field_elements_per_segment)))
            (enumerate0 (chunks bytes_per_blob bs)))))"

section \<open>What the transforms promise\<close>

text \<open>The forward transform of a polynomial padded to twice its length can be inverted, and the
  recovery routine rebuilds the coefficients from any half of the evaluations.\<close>

definition padded :: "('fr, 'g1, 'g2, 'fs, 'fk) kzg_lib \<Rightarrow> 'fr list \<Rightarrow> 'fr list" where
  "padded L cs = cs @ replicate (length cs) (fr_zero L)"

definition fft_documented :: "('fr, 'g1, 'g2, 'fs, 'fk) kzg_lib \<Rightarrow> 'fs \<Rightarrow> nat \<Rightarrow> bool" where
  "fft_documented L fs n \<longleftrightarrow>
     (\<forall>cs. length cs = n \<longrightarrow>
        (\<exists>ys. fft_fr L fs (padded L cs) False = Inr ys \<and> length ys = 2 * n \<and> fft_fr L fs ys True = Inr (padded L cs)))"

definition samples_of :: "'fr option list \<Rightarrow> 'fr list \<Rightarrow> bool" where
  "samples_of samples ys \<longleftrightarrow>
     length samples = length ys \<and> (\<forall>i < length ys. samples ! i = None \<or> samples ! i = Some (ys ! i))"

definition known :: "'a option list \<Rightarrow> nat set" where
  "known xs = {i. i < length xs \<and> xs ! i \<noteq> None}"

definition recover_documented :: "('fr, 'g1, 'g2, 'fs, 'fk) kzg_lib \<Rightarrow> 'fs \<Rightarrow> nat \<Rightarrow> bool" where
  "recover_documented L fs n \<longleftrightarrow>
     (\<forall>cs ys samples. length cs = n \<longrightarrow> fft_fr L fs (padded L cs) False = Inr ys \<longrightarrow>
        samples_of samples ys \<longrightarrow> n \<le> card (known samples) \<longrightarrow> None \<in> set samples \<longrightarrow>
        recover_poly_coeffs_from_samples L samples fs = Inr (padded L cs))"

section \<open>Recovery of the polynomial\<close>

lemma length_padded [simp]: "length (padded L cs) = 2 * length cs"
  by (simp add: padded_def)

lemma left_padded: "Polynomial_left (Polynomial (padded L cs)) = Polynomial cs"
  by (simp add: Polynomial_left_def padded_def)

lemma extend_poly_padded: "extend_poly L fs (Polynomial cs) = res_map (reverse_bit_order L) (fft_fr L fs (padded L cs) False)"
  by (simp add: extend_poly_def padded_def resize_def mult_2_right)

lemma samples_reverse_bit_order:
  assumes "bit_order_documented L (length ys)" and "samples_of shards (reverse_bit_order L ys)"
  shows "samples_of (reverse_bit_order L shards) ys"
proof -
  have len: "length shards = length ys" using assms(2) by (simp add: samples_of_def)
  have "reverse_bit_order L shards ! i = None \<or> reverse_bit_order L shards ! i = Some (ys ! i)"
    if "i < length ys" for i
  proof -
    let ?j = "bit_order_index L (length ys) i"
    have j: "?j < length ys" "bit_order_index L (length ys) ?j = i"
      using assms(1) that by (auto simp: bit_order_documented_def)
    then have "shards ! ?j = None \<or> shards ! ?j = Some (ys ! i)"
      using assms(2) j by (auto simp: samples_of_def nth_reverse_bit_order)
    then show ?thesis using that len by (simp add: nth_reverse_bit_order)
  qed
  then show ?thesis using len by (simp add: samples_of_def)
qed

lemma known_reverse_bit_order:
  assumes "bit_order_documented L (length xs)"
  shows "card (known (reverse_bit_order L xs)) = card (known xs)"
proof -
  let ?f = "bit_order_index L (length xs)"
  have "bij_betw ?f (known (reverse_bit_order L xs)) (known xs)"
    using assms
    by (intro bij_betw_byWitness [where f' = ?f])
      (auto simp: known_def nth_reverse_bit_order bit_order_documented_def)
  then show ?thesis by (rule bij_betw_same_card)
qed

lemma reverse_bit_order_contains_None:
  "bit_order_documented L (length xs) \<Longrightarrow> None \<in> set (reverse_bit_order L xs) \<longleftrightarrow> None \<in> set xs"
  by (simp add: set_reverse_bit_order)

lemma samples_complete:
  assumes "samples_of samples ys" and "None \<notin> set samples"
  shows "map the samples = ys"
proof (rule nth_equalityI)
  show "length (map the samples) = length ys" using assms(1) by (simp add: samples_of_def)
  fix i
  assume "i < length (map the samples)"
  then have "samples ! i \<noteq> None" and "i < length ys" using assms by (auto simp: samples_of_def in_set_conv_nth)
  then show "map the samples ! i = ys ! i" using assms(1) by (auto simp: samples_of_def)
qed

text \<open>Any half of the extended row determines the polynomial.\<close>

lemma recover_poly_correct:
  assumes "fft_documented L fs n" and "recover_documented L fs n" and "bit_order_documented L (2 * n)"
    and "length cs = n" and "extend_poly L fs (Polynomial cs) = Inr row"
    and "samples_of shards row" and "n \<le> card (known shards)"
  shows "recover_poly L fs shards = Inr (Polynomial cs)"
proof -
  from assms(1,4) obtain ys where ys: "fft_fr L fs (padded L cs) False = Inr ys" "length ys = 2 * n"
      "fft_fr L fs ys True = Inr (padded L cs)" unfolding fft_documented_def by blast
  have row: "row = reverse_bit_order L ys" using assms(5) ys(1) by (simp add: extend_poly_padded)
  have lens: "length shards = 2 * n" using assms(6) row ys(2) by (simp add: samples_of_def)
  have samples: "samples_of (reverse_bit_order L shards) ys"
    using assms(3,6) row ys(2) by (intro samples_reverse_bit_order) simp_all
  have none: "list_ex Option.is_none shards \<longleftrightarrow> None \<in> set (reverse_bit_order L shards)"
    using assms(3) lens by (auto simp: reverse_bit_order_contains_None list_ex_iff Option.is_none_def)
  show ?thesis
  proof (cases "list_ex Option.is_none shards")
    case True
    have "n \<le> card (known (reverse_bit_order L shards))"
      using assms(3,7) lens by (simp add: known_reverse_bit_order)
    then have "recover_poly_coeffs_from_samples L (reverse_bit_order L shards) fs = Inr (padded L cs)"
      using assms(2,4) ys(1) samples True none unfolding recover_documented_def by blast
    then show ?thesis using True by (simp add: recover_poly_def left_padded)
  next
    case False
    then have "map the (reverse_bit_order L shards) = ys" using samples none by (intro samples_complete) auto
    then show ?thesis using False ys(3) by (simp add: recover_poly_def Polynomial_from_coeffs_def left_padded)
  qed
qed

section \<open>Rows of segments\<close>

text \<open>The FK20 settings of a setup carry its FFT settings and give one proof per chunk of the
  extended row; the roots of unity are indexed up to the width of the domain, and a multi-proof can
  be computed for every polynomial of the size of a row.\<close>

definition fk20_documented :: "('fr, 'g1, 'g2, 'fs, 'fk) kzg_lib \<Rightarrow> ('g1, 'g2, 'fs) FsKZGSettings \<Rightarrow> nat \<Rightarrow> nat \<Rightarrow> bool" where
  "fk20_documented L s n chunk_size \<longleftrightarrow>
     (\<exists>fk. fk20_new L s (2 * n) chunk_size = Inr fk \<and> fk20_fs L fk = ks_fs s \<and>
        (\<forall>p. length p = n \<longrightarrow>
           (\<exists>prs. fk20_data_availability L fk p = Inr prs \<and> length prs = 2 * n div chunk_size)))"

definition multi_documented :: "('fr, 'g1, 'g2, 'fs, 'fk) kzg_lib \<Rightarrow> ('g1, 'g2, 'fs) FsKZGSettings \<Rightarrow> nat \<Rightarrow> nat \<Rightarrow> bool" where
  "multi_documented L s n chunk_size \<longleftrightarrow>
     (\<forall>i \<le> fs_max_width L (ks_fs s). \<exists>x. expanded_roots_of_unity L s i = Inr x) \<and>
     (\<forall>p x. length p = n \<longrightarrow> (\<exists>pr. ks_compute_proof_multi L s p x chunk_size = Inr pr))"

lemma poly_to_segment_vec_row:
  assumes "fft_documented L (KZG_get_fs kzg) n" and "fk20_documented L (ks kzg) n c"
    and "is_power_of_two n" and "is_power_of_two c" and "n = count * c" and "length cs = n"
  shows "\<exists>row prs. extend_poly L (KZG_get_fs kzg) (Polynomial cs) = Inr row \<and> length row = 2 * n \<and>
     poly_to_segment_vec L (Polynomial cs) kzg y c =
       Inr (map (\<lambda>i. Segment_new \<lparr> pos_x = of_nat i, pos_y = of_nat y \<rparr> (take c (drop (i * c) row)) (prs ! i))
              [0..<2 * count])"
proof -
  have c: "0 < c" using assms(4) by (rule is_power_of_two_pos)
  from assms(2,6) obtain fk prs where fk: "fk20_new L (ks kzg) (2 * n) c = Inr fk" "fk20_fs L fk = ks_fs (ks kzg)"
      "fk20_data_availability L fk cs = Inr prs" "length prs = 2 * n div c"
    unfolding fk20_documented_def by blast
  from assms(1,6) obtain ys where ys: "fft_fr L (KZG_get_fs kzg) (padded L cs) False = Inr ys" "length ys = 2 * n"
    unfolding fft_documented_def by blast
  let ?row = "reverse_bit_order L ys"
  have row: "extend_poly L (KZG_get_fs kzg) (Polynomial cs) = Inr ?row" "length ?row = 2 * n"
    using ys by (simp_all add: extend_poly_padded)
  have n2: "2 * n = (2 * count) * c" using assms(5) by simp
  have lc: "length (chunks c ?row) = 2 * count" using length_chunks_mult [OF c, of ?row "2 * count"] row(2) n2 by simp
  have lp: "length prs = 2 * count" using fk(4) n2 c by simp
  have "traverse (\<lambda>(i, chunk). let pos = \<lparr> pos_x = of_nat i, pos_y = of_nat y \<rparr> in
              res_map (Segment_new pos chunk) (index_res prs i)) (enumerate0 (chunks c ?row)) =
        Inr (map (\<lambda>i. Segment_new \<lparr> pos_x = of_nat i, pos_y = of_nat y \<rparr> (take c (drop (i * c) ?row)) (prs ! i))
              [0..<2 * count])"
    by (simp add: traverse_Inr_iff lc lp nth_chunks [OF c] index_res_def)
  then show ?thesis
    using fk(1-3) row assms(3,4,6)
    by (auto simp: poly_to_segment_vec_def Polynomial_checked_def Polynomial_is_valid_def KZG_get_fs_def
        intro!: exI [of _ ?row] exI [of _ prs])
qed

text \<open>Ordering puts the last segment seen at a position there.\<close>

lemma order_row_fold:
  assumes "\<And>s. s \<in> set ss \<Longrightarrow> pos_y (position s) = y \<and> unat (pos_x (position s)) < m" and "length ord0 = m"
  shows "fold_res (\<lambda>segment ordered_segments.
       if pos_y (position segment) \<noteq> y then Inl (Err ''segments y not equal'')
       else set_res ordered_segments (unat (pos_x (position segment))) (Some (content segment))) ss ord0
     = Inr (map (\<lambda>i. case find (\<lambda>s. unat (pos_x (position s)) = i) (rev ss) of
                       Some s \<Rightarrow> Some (content s) | None \<Rightarrow> ord0 ! i) [0..<m])"
  using assms
proof (induction ss rule: rev_induct)
  case Nil
  then show ?case by (simp add: map_nth [symmetric] del: map_nth) (metis map_nth)
next
  case (snoc s ss)
  then show ?case
    by (auto simp: fold_res_append set_res_def intro!: nth_equalityI simp: nth_list_update)
qed

lemma order_segments_row_correct:
  assumes "ss \<noteq> []" and "length ss \<le> chunk_count * 2"
    and "\<And>s. s \<in> set ss \<Longrightarrow> pos_y (position s) = y \<and> unat (pos_x (position s)) < chunk_count * 2"
  shows "order_segments_row ss chunk_count =
     Inr (map (\<lambda>i. map_option content (find (\<lambda>s. unat (pos_x (position s)) = i) (rev ss))) [0..<chunk_count * 2])"
proof -
  have "pos_y (position (ss ! 0)) = y" using assms(1,3) by simp
  then show ?thesis
    using assms order_row_fold [of ss y "chunk_count * 2" "replicate (chunk_count * 2) None"]
    by (auto simp: order_segments_row_def Let_def intro!: map_cong split: option.splits)
qed

text \<open>A row in which some segments are missing, as a list of samples of the full row.\<close>

lemma segment_datas_to_row_samples:
  assumes "0 < c" and "length row = m * c" and "length ord = m"
    and "\<And>i sd. i < m \<Longrightarrow> ord ! i = Some sd \<Longrightarrow> sd_data sd = take c (drop (i * c) row)"
  shows "samples_of (segment_datas_to_row ord c) row \<and>
     card {i. i < m \<and> ord ! i \<noteq> None} * c \<le> card (known (segment_datas_to_row ord c))"
proof -
  let ?g = "\<lambda>sdo. case sdo of Some sd \<Rightarrow> map Some (sd_data sd) | None \<Rightarrow> replicate c None"
  let ?R = "segment_datas_to_row ord c" and ?A = "{i. i < m \<and> ord ! i \<noteq> None}"
  have le: "i * c + c \<le> m * c" if "i < m" for i
    using that by (metis Suc_leI add.commute mult_Suc mult_le_mono1)
  have blk: "length (?g (ord ! i)) = c" if "i < m" for i
    using le [OF that] assms(2,4) that by (cases "ord ! i") auto
  have blks: "\<And>b. b \<in> set (map ?g ord) \<Longrightarrow> length b = c"
    using blk assms(3) by (auto simp: in_set_conv_nth)
  have len: "length ?R = m * c"
    using length_concat_const [of "map ?g ord" c] blks assms(3) by (simp add: segment_datas_to_row_def)
  have val: "?R ! (i * c + j) = (if ord ! i = None then None else Some (row ! (i * c + j)))"
    if "i < m" "j < c" for i j
  proof -
    have "?R ! (i * c + j) = ?g (ord ! i) ! j"
      unfolding segment_datas_to_row_def using nth_concat_const [of "map ?g ord" c i j] blks that assms(3) by simp
    then show ?thesis using assms(2,4) that le [OF that(1)] by (cases "ord ! i") auto
  qed
  have "?R ! k = None \<or> ?R ! k = Some (row ! k)" if "k < m * c" for k
    using val [of "k div c" "k mod c"] that assms(1) by (auto simp: less_mult_imp_div_less)
  then have samples: "samples_of ?R row" using len assms(2) by (simp add: samples_of_def)
  let ?f = "\<lambda>(i, j). i * c + j"
  have "inj_on ?f (?A \<times> {..<c})"
  proof (rule inj_onI, clarsimp)
    fix i j i' j'
    assume "i * c + j = i' * c + j'" and "j < c" and "j' < c"
    then have "(i * c + j) div c = (i' * c + j') div c" "(i * c + j) mod c = (i' * c + j') mod c" by auto
    then show "i = i' \<and> j = j'" using \<open>j < c\<close> \<open>j' < c\<close> by simp
  qed
  moreover have "?f ` (?A \<times> {..<c}) \<subseteq> known ?R"
  proof clarsimp
    fix i j sd
    assume i: "i < m" and j: "j < c" and "ord ! i = Some sd"
    then show "i * c + j \<in> known ?R" using val [OF i j] le [OF i] len by (auto simp: known_def)
  qed
  ultimately have "card (?A \<times> {..<c}) \<le> card (known ?R)"
    by (intro card_inj_on_le [where f = ?f]) (auto simp: known_def)
  then show ?thesis using samples by (simp add: card_cartesian_product)
qed

lemma compute_proof_multi_total:
  assumes "multi_documented L (ks kzg) (length cs) c" and "0 < c" and "0 < t" and "is_power_of_two count"
    and "KZG_max_width L kzg = 2 * c * count * t" and "KZG_max_width L kzg < 2 ^ 64"
  shows "\<exists>pr. KZG_compute_proof_multi L kzg (Polynomial cs) i count c = Inr pr"
proof -
  from assms(4) obtain k where k: "count = 2 ^ k" by (auto simp: is_power_of_two_iff)
  have "2 ^ k \<le> KZG_max_width L kzg" using assms(2,3,5) k by simp
  also note assms(6)
  finally have "(2::nat) ^ k < 2 ^ 64" .
  then have k64: "k < 64" by (rule power_less_imp_less_exp [rotated]) simp
  have pos: "get_kzg_index L kzg count i c = Inr (domain_pos k i * t)"
    unfolding k by (rule get_kzg_index_domain_pos [OF k64 assms(2,3) assms(5) [unfolded k] assms(6)])
  have "domain_pos k i * t \<le> 2 ^ Suc k * t" using domain_pos_less [OF k64, of i] by (intro mult_le_mono1) simp
  also have "\<dots> \<le> KZG_max_width L kzg" using assms(2,5) k by simp
  finally obtain x where "expanded_roots_of_unity L (ks kzg) (domain_pos k i * t) = Inr x"
    using assms(1) by (auto simp: multi_documented_def KZG_max_width_def)
  moreover obtain pr where "ks_compute_proof_multi L (ks kzg) cs x c = Inr pr"
    using assms(1) unfolding multi_documented_def by blast
  ultimately show ?thesis
    using pos by (simp add: KZG_compute_proof_multi_def get_expanded_roots_of_unity_at_def)
qed

lemma recover_segment_datas_correct:
  assumes lib: "fft_documented L (KZG_get_fs kzg) n" "recover_documented L (KZG_get_fs kzg) n"
      "bit_order_documented L (2 * n)"
    and proofs: "\<And>i. \<exists>pr. KZG_compute_proof_multi L kzg (Polynomial cs) i count c = Inr pr"
    and sizes: "0 < c" "n = count * c" "length cs = n" "length ord = 2 * count" "2 * count \<le> 2 ^ 32"
    and row: "extend_poly L (KZG_get_fs kzg) (Polynomial cs) = Inr row" "length row = 2 * n"
    and ord: "\<And>i sd. i < 2 * count \<Longrightarrow> ord ! i = Some sd \<Longrightarrow> sd_data sd = take c (drop (i * c) row)"
    and half: "count \<le> card {i. i < 2 * count \<and> ord ! i \<noteq> None}"
  shows "\<exists>out. recover_segment_datas L ord kzg count y c = Inr out \<and> length out = 2 * count \<and>
     (\<forall>i < 2 * count. position (out ! i) = \<lparr> pos_x = of_nat i, pos_y = y \<rparr> \<and>
        sd_data (content (out ! i)) = take c (drop (i * c) row) \<and>
        (\<forall>sd. ord ! i = Some sd \<longrightarrow> content (out ! i) = sd))"
proof -
  let ?R = "segment_datas_to_row ord c"
  have row2: "length row = 2 * count * c" using row(2) sizes(2) by simp
  have R: "samples_of ?R row" and card: "card {i. i < 2 * count \<and> ord ! i \<noteq> None} * c \<le> card (known ?R)"
    using segment_datas_to_row_samples [OF sizes(1) row2 sizes(4) ord] by auto
  have "n \<le> card (known ?R)" using half card sizes(2) by (meson le_trans mult_le_mono1)
  then have p: "recover_poly L (KZG_get_fs kzg) ?R = Inr (Polynomial cs)"
    using recover_poly_correct [OF lib sizes(3) row(1) R] by simp
  define f where "f = (\<lambda>(i, segment_data). let pos = \<lparr> pos_x = of_nat i, pos_y = y \<rparr> in
          case segment_data of Some sd \<Rightarrow> Inr \<lparr> position = pos, content = sd \<rparr>
          | None \<Rightarrow> let index = i * c in
              res_bind (slice_res row index (index + c)) (\<lambda>dat.
              res_map (\<lambda>sd. \<lparr> position = pos, content = sd \<rparr>)
                (SegmentData_from_data L pos dat kzg (Polynomial cs) count)))"
  define ok :: "nat \<Rightarrow> ('a, 'b) Segment \<Rightarrow> bool" where "ok = (\<lambda>i s. position s = \<lparr> pos_x = of_nat i, pos_y = y \<rparr> \<and>
        sd_data (content s) = take c (drop (i * c) row) \<and> (\<forall>sd. ord ! i = Some sd \<longrightarrow> content s = sd))"
  have "\<exists>s. f (i, ord ! i) = Inr s \<and> ok i s" if i: "i < 2 * count" for i
  proof (cases "ord ! i")
    case (Some sd)
    then show ?thesis using ord [OF i] by (simp add: f_def ok_def)
  next
    case None
    have "i * c + c \<le> length row" using i row2 by (metis Suc_leI add.commute mult_Suc mult_le_mono1)
    then have sl: "slice_res row (i * c) (i * c + c) = Inr (take c (drop (i * c) row))"
      and ln: "length (take c (drop (i * c) row)) = c" by (auto simp: slice_res_def)
    obtain pr where "KZG_compute_proof_multi L kzg (Polynomial cs) (unat (of_nat i :: u32)) count c = Inr pr"
      using proofs by blast
    then show ?thesis using None sl ln by (simp add: f_def ok_def SegmentData_from_data_def)
  qed
  then obtain g where g: "\<And>i. i < 2 * count \<Longrightarrow> f (i, ord ! i) = Inr (g i) \<and> ok i (g i)" by metis
  have "traverse f (enumerate0 ord) = Inr (map g [0..<2 * count])"
    unfolding traverse_Inr_iff using g sizes(4) by simp
  then have "recover_segment_datas L ord kzg count y c = Inr (map g [0..<2 * count])"
    using p row(1) unfolding recover_segment_datas_def f_def by simp
  moreover have "\<forall>i < 2 * count. ok i (map g [0..<2 * count] ! i)" using g by simp
  ultimately show ?thesis unfolding ok_def by (intro exI [of _ "map g [0..<2 * count]"]) simp
qed

section \<open>Properties of recovery\<close>

definition erasure_documented :: "('fr, 'g1, 'g2, 'fs, 'fk) kzg_lib \<Rightarrow> ('g1, 'g2, 'fs) KZG \<Rightarrow> nat \<Rightarrow> nat \<Rightarrow> bool" where
  "erasure_documented L kzg n chunk_size \<longleftrightarrow>
     fft_documented L (KZG_get_fs kzg) n \<and> recover_documented L (KZG_get_fs kzg) n \<and>
     bit_order_documented L (2 * n) \<and> fk20_documented L (ks kzg) n chunk_size \<and>
     multi_documented L (ks kzg) n chunk_size"

text \<open>The segments of a row, and what ordering a part of them gives.\<close>

lemma order_part_of_row:
  assumes "2 * count \<le> 2 ^ 32" and "\<And>i. i < 2 * count \<Longrightarrow> position (S i) = \<lparr> pos_x = of_nat i, pos_y = y \<rparr>"
    and "segments \<noteq> []" and "length segments \<le> 2 * count" and "set segments \<subseteq> S ` {..<2 * count}"
  shows "order_segments_row segments count =
     Inr (map (\<lambda>i. if S i \<in> set segments then Some (content (S i)) else None) [0..<2 * count])"
    and "card (set segments) \<le> card {i. i < 2 * count \<and> S i \<in> set segments}"
proof -
  have at: "s = S (unat (pos_x (position s))) \<and> unat (pos_x (position s)) < 2 * count \<and> pos_y (position s) = y"
    if "s \<in> set segments" for s
    using assms(1,2,5) that by fastforce
  have "find (\<lambda>s. unat (pos_x (position s)) = i) (rev segments) = (if S i \<in> set segments then Some (S i) else None)"
    if "i < 2 * count" for i
    using find_unique [of "rev segments" "\<lambda>s. unat (pos_x (position s)) = i" "S i"] at assms(1,2) that by fastforce
  then have "map (\<lambda>i. map_option content (find (\<lambda>s. unat (pos_x (position s)) = i) (rev segments))) [0..<count * 2]
      = map (\<lambda>i. if S i \<in> set segments then Some (content (S i)) else None) [0..<2 * count]"
    by (auto simp: mult.commute)
  then show "order_segments_row segments count =
     Inr (map (\<lambda>i. if S i \<in> set segments then Some (content (S i)) else None) [0..<2 * count])"
    using order_segments_row_correct [OF assms(3), of count y] assms(4) at by (simp add: mult.commute)
  let ?A = "{i. i < 2 * count \<and> S i \<in> set segments}"
  have "set segments = S ` ?A" using assms(5) by auto
  moreover have "card (S ` ?A) \<le> card ?A" by (rule card_image_le) simp
  ultimately show "card (set segments) \<le> card ?A" by simp
qed

lemma row_part:
  assumes lib: "erasure_documented L kzg n c"
    and sizes: "n = count * c" "is_power_of_two count" "is_power_of_two c" "2 * count \<le> 2 ^ 32" "length cs = n"
    and row: "poly_to_segment_vec L (Polynomial cs) kzg y c = Inr all"
    and part: "set segments \<subseteq> set all" "length segments \<le> 2 * count" "count \<le> card (set segments)"
  obtains r S ord where "extend_poly L (KZG_get_fs kzg) (Polynomial cs) = Inr r" "length r = 2 * n"
    "all = map S [0..<2 * count]" "segments \<noteq> []"
    "\<forall>i. position (S i) = \<lparr> pos_x = of_nat i, pos_y = of_nat y \<rparr>"
    "\<forall>i. sd_data (content (S i)) = take c (drop (i * c) r)"
    "\<forall>s \<in> set segments. pos_y (position s) = of_nat y \<and> Segment_size s = c"
    "order_segments_row segments count = Inr ord" "length ord = 2 * count"
    "\<forall>i < 2 * count. ord ! i = (if S i \<in> set segments then Some (content (S i)) else None)"
    "count \<le> card {i. i < 2 * count \<and> ord ! i \<noteq> None}"
proof -
  have count: "0 < count" using sizes(2) by (rule is_power_of_two_pos)
  have n2: "is_power_of_two n" using sizes(1-3) by (simp add: is_power_of_two_mult)
  from poly_to_segment_vec_row [of L kzg n c count cs y] lib n2 sizes row
  obtain r prs where r: "extend_poly L (KZG_get_fs kzg) (Polynomial cs) = Inr r" "length r = 2 * n"
    and all: "all = map (\<lambda>i. Segment_new \<lparr> pos_x = of_nat i, pos_y = of_nat y \<rparr> (take c (drop (i * c) r)) (prs ! i))
              [0..<2 * count]"
    by (auto simp: erasure_documented_def)
  define S where "S i = Segment_new \<lparr> pos_x = of_nat i, pos_y = of_nat y \<rparr> (take c (drop (i * c) r)) (prs ! i)" for i
  have S: "position (S i) = \<lparr> pos_x = of_nat i, pos_y = of_nat y \<rparr>" "sd_data (content (S i)) = take c (drop (i * c) r)" for i
    by (simp_all add: S_def Segment_new_def)
  have allS: "all = map S [0..<2 * count]" by (simp add: all S_def)
  have sub: "set segments \<subseteq> S ` {..<2 * count}" using part(1) allS by (auto simp: atLeast0LessThan)
  have ne: "segments \<noteq> []" using part(3) count by auto
  have each: "pos_y (position s) = of_nat y \<and> Segment_size s = c" if "s \<in> set segments" for s
  proof -
    from sub that obtain i where i: "i < 2 * count" "s = S i" by auto
    have "i * c + c \<le> 2 * n" using i(1) sizes(1) by (metis Suc_leI add.commute mult_Suc mult_le_mono1 mult.assoc)
    then show ?thesis using i(2) S r(2) by (simp add: Segment_size_def)
  qed
  let ?ord = "map (\<lambda>i. if S i \<in> set segments then Some (content (S i)) else None) [0..<2 * count]"
  note order = order_part_of_row [OF sizes(4) S(1) ne part(2) sub]
  have "{i. i < 2 * count \<and> ?ord ! i \<noteq> None} = {i. i < 2 * count \<and> S i \<in> set segments}"
    by (auto split: if_splits)
  then have "count \<le> card {i. i < 2 * count \<and> ?ord ! i \<noteq> None}" using order(2) part(3) by simp
  then show thesis using that [OF r allS ne _ _ _ order(1)] S each by simp
qed

lemma sample_erasure_documented: "erasure_documented sample_lib (sample_kzg 4096) 1 1"
proof -
  have "fft_documented sample_lib (KZG_get_fs (sample_kzg 4096)) 1"
    by (auto simp: fft_documented_def sample_lib_def padded_def length_Suc_conv)
  moreover have "recover_documented sample_lib (KZG_get_fs (sample_kzg 4096)) 1"
    unfolding recover_documented_def
  proof (intro allI impI)
    fix cs ys :: "bytes list" and samples :: "bytes option list"
    assume "length cs = 1" and "fft_fr sample_lib (KZG_get_fs (sample_kzg 4096)) (padded sample_lib cs) False = Inr ys"
      and s: "samples_of samples ys" and k: "1 \<le> card (known samples)"
    then obtain a where a: "cs = [a]" and ys: "ys = [a, a]" by (auto simp: sample_lib_def padded_def length_Suc_conv)
    have "length samples = 2" using s ys by (simp add: samples_of_def)
    then obtain p q where pq: "samples = [p, q]"
      by (metis (no_types) One_nat_def Suc_length_conv length_0_conv numeral_2_eq_2)
    have "p = None \<or> p = Some a" and "q = None \<or> q = Some a"
      using s ys pq by (auto simp: samples_of_def less_Suc_eq numeral_2_eq_2)
    moreover have "\<not> (p = None \<and> q = None)"
    proof
      assume "p = None \<and> q = None"
      then have "known samples = {}" using pq by (auto simp: known_def nth_Cons split: nat.splits)
      with k show False by simp
    qed
    ultimately show "recover_poly_coeffs_from_samples sample_lib samples (KZG_get_fs (sample_kzg 4096)) = Inr (padded sample_lib cs)"
      using a pq by (auto simp: sample_lib_def padded_def List.map_filter_simps)
  qed
  moreover have "bit_order_documented sample_lib (2 * 1)" by (rule sample_bit_order_documented)
  moreover have "fk20_documented sample_lib (ks (sample_kzg 4096)) 1 1"
    by (simp add: fk20_documented_def sample_lib_def sample_kzg_def)
  moreover have "multi_documented sample_lib (ks (sample_kzg 4096)) 1 1"
    by (simp add: multi_documented_def sample_lib_def sample_kzg_def)
  ultimately show ?thesis by (simp add: erasure_documented_def)
qed

lemma sample_max_width: "KZG_max_width sample_lib (sample_kzg w) = w"
  by (simp add: KZG_max_width_def sample_lib_def sample_kzg_def)

definition sample_row :: "bytes \<Rightarrow> (bytes, bytes list) Segment list" where
  "sample_row v = map (\<lambda>i. Segment_new \<lparr> pos_x = i, pos_y = 0 \<rparr> [v] []) [0, 1]"

lemma sample_row: "poly_to_segment_vec sample_lib (Polynomial [v]) (sample_kzg 4096) 0 1 = Inr (sample_row v)"
  by (simp add: poly_to_segment_vec_def Polynomial_checked_def Polynomial_is_valid_def is_power_of_two.simps
      extend_poly_def reverse_bit_order_def sample_lib_def sample_row_def resize_def chunks_step enumerate0_def
      numeral_2_eq_2)

text \<open>C1: From any half of the segments of a row the whole row is recovered. Let a polynomial of
  \<open>count * c\<close> coefficients be cut into its row of \<open>2 * count\<close> extended segments; any list of
  these segments (in any order, repetitions included) that is no longer than the row and has at least \<open>count\<close>
  different ones is turned by \<open>recovery_row_from_segments\<close> into a row with the same positions and the same data
  everywhere, and the segments that were given come back unchanged, proof included; a list longer than the row, which
  must repeat a segment, is refused with an error.\<close>

theorem recovery_row_roundtrip:
  assumes lib: "erasure_documented L kzg n c"
    and sizes: "n = count * c" "is_power_of_two count" "is_power_of_two c" "2 * count \<le> 2 ^ 32" "length cs = n"
    and width: "0 < t" "KZG_max_width L kzg = 2 * c * count * t" "KZG_max_width L kzg < 2 ^ 64"
    and row: "poly_to_segment_vec L (Polynomial cs) kzg y c = Inr all"
    and part: "set segments \<subseteq> set all" "count \<le> card (set segments)"
  shows "if length segments \<le> 2 * count
     then \<exists>out. recovery_row_from_segments L segments kzg count = Inr out \<and> length out = length all \<and>
       (\<forall>i < length all. position (out ! i) = position (all ! i) \<and>
          sd_data (content (out ! i)) = sd_data (content (all ! i)) \<and>
          (all ! i \<in> set segments \<longrightarrow> out ! i = all ! i))
     else \<exists>m. recovery_row_from_segments L segments kzg count = Inl (Err m)"
proof (cases "length segments \<le> 2 * count")
  case False
  then have "order_segments_row segments count = Inl (Err ''segments x not equal'')" "segments \<noteq> []"
    by (auto simp: order_segments_row_def)
  with False show ?thesis by (simp add: recovery_row_from_segments_def Let_def)
next
  case short: True
  obtain r S ord where
    r: "extend_poly L (KZG_get_fs kzg) (Polynomial cs) = Inr r" "length r = 2 * n"
    and allS: "all = map S [0..<2 * count]" and ne: "segments \<noteq> []"
    and S: "\<forall>i. position (S i) = \<lparr> pos_x = of_nat i, pos_y = of_nat y \<rparr>"
      "\<forall>i. sd_data (content (S i)) = take c (drop (i * c) r)"
    and each: "\<forall>s \<in> set segments. pos_y (position s) = of_nat y \<and> Segment_size s = c"
    and order: "order_segments_row segments count = Inr ord" "length ord = 2 * count"
      "\<forall>i < 2 * count. ord ! i = (if S i \<in> set segments then Some (content (S i)) else None)"
      "count \<le> card {i. i < 2 * count \<and> ord ! i \<noteq> None}"
    by (rule row_part [OF lib sizes row part(1) short part(2)])
  have c: "0 < c" using sizes(3) by (rule is_power_of_two_pos)
  have "\<And>i. \<exists>pr. KZG_compute_proof_multi L kzg (Polynomial cs) i count c = Inr pr"
    using compute_proof_multi_total [OF _ c width(1) sizes(2) width(2,3)] lib sizes(5) by (simp add: erasure_documented_def)
  then have "\<exists>out. recover_segment_datas L ord kzg count (of_nat y) c = Inr out \<and> length out = 2 * count \<and>
     (\<forall>i < 2 * count. position (out ! i) = \<lparr> pos_x = of_nat i, pos_y = of_nat y \<rparr> \<and>
        sd_data (content (out ! i)) = take c (drop (i * c) r) \<and> (\<forall>sd. ord ! i = Some sd \<longrightarrow> content (out ! i) = sd))"
    using lib c sizes(1,4,5) r S(2) order
    by (intro recover_segment_datas_correct) (auto simp: erasure_documented_def split: if_splits)
  then obtain out where out: "recover_segment_datas L ord kzg count (of_nat y) c = Inr out" "length out = 2 * count"
     "\<And>i. i < 2 * count \<Longrightarrow> position (out ! i) = position (S i) \<and> sd_data (content (out ! i)) = sd_data (content (S i)) \<and>
        (S i \<in> set segments \<longrightarrow> content (out ! i) = content (S i))"
    using order(3) by (auto simp: S)
  have "recovery_row_from_segments L segments kzg count = Inr out"
    using each ne sizes(2,3) order(1) out(1) by (simp add: recovery_row_from_segments_def list_ex_iff)
  then show ?thesis using out(2,3) allS short by (auto intro: Segment.equality)
qed

theorem recovery_row_roundtrip_witness:
  "\<exists>out. recovery_row_from_segments sample_lib [sample_row [7] ! 1] (sample_kzg 4096) 1 = Inr out \<and> length out = 2 \<and>
     sd_data (content (out ! 0)) = [[7]] \<and> out ! 1 = sample_row [7] ! 1"
proof -
  have "if length [sample_row [7] ! 1] \<le> 2 * 1 then \<exists>out. recovery_row_from_segments sample_lib [sample_row [7] ! 1] (sample_kzg 4096) 1 = Inr out \<and>
     length out = length (sample_row [7]) \<and>
     (\<forall>i < length (sample_row [7]). position (out ! i) = position (sample_row [7] ! i) \<and>
        sd_data (content (out ! i)) = sd_data (content (sample_row [7] ! i)) \<and>
        (sample_row [7] ! i \<in> set [sample_row [7] ! 1] \<longrightarrow> out ! i = sample_row [7] ! i))
     else \<exists>m. recovery_row_from_segments sample_lib [sample_row [7] ! 1] (sample_kzg 4096) 1 = Inl (Err m)"
    by (rule recovery_row_roundtrip [OF sample_erasure_documented, of 1 "[[7]]" 2048 0])
      (simp_all add: sample_row [unfolded One_nat_def] is_power_of_two.simps sample_max_width sample_row_def)
  then show ?thesis by (auto simp: sample_row_def Segment_new_def less_Suc_eq)
qed

text \<open>C2: Bytes survive the loss of any half of their row. Bytes padded into a blob and cut into
  segments are given back exactly by ordering at least half of the segments, in a list no longer than the row, recovering the polynomial
  from the ordered row and reading the bytes of its blob at the original length.\<close>

theorem bytes_survive_erasure:
  assumes lib: "erasure_documented L kzg n c" "scalar_documented L"
    and sizes: "n = count * c" "is_power_of_two count" "is_power_of_two c" "2 * count \<le> 2 ^ 32"
    and bytes: "Blob_try_from_bytes_pad L bs (n * SCALAR_SAFE_BYTES) = Inr b" "length bs \<le> n * SCALAR_SAFE_BYTES"
    and row: "poly_to_segment_vec L (Blob_to_poly b) kzg y c = Inr all"
    and part: "set segments \<subseteq> set all" "length segments \<le> 2 * count" "count \<le> card (set segments)"
  shows "\<exists>ord p. order_segments_row segments count = Inr ord \<and>
     recover_poly L (KZG_get_fs kzg) (segment_datas_to_row ord c) = Inr p \<and>
     Blob_to_bytes_by_len L (Polynomial_to_blob p) (length bs) = bs"
proof -
  obtain b' where b': "Blob_try_from_bytes_pad L bs (n * SCALAR_SAFE_BYTES) = Inr b'" "length (scalars b') = n"
      "Blob_to_bytes_by_len L b' (length bs) = bs"
    using Blob_pad_correct [OF lib(2) bytes(2)] by auto
  have len: "length (scalars b) = n" and orig: "Blob_to_bytes_by_len L b (length bs) = bs"
    using b' bytes(1) by simp_all
  obtain r S ord where
    r: "extend_poly L (KZG_get_fs kzg) (Polynomial (scalars b)) = Inr r" "length r = 2 * n"
    and allS: "all = map S [0..<2 * count]" and ne: "segments \<noteq> []"
    and S: "\<forall>i. position (S i) = \<lparr> pos_x = of_nat i, pos_y = of_nat y \<rparr>"
      "\<forall>i. sd_data (content (S i)) = take c (drop (i * c) r)"
    and each: "\<forall>s \<in> set segments. pos_y (position s) = of_nat y \<and> Segment_size s = c"
    and order: "order_segments_row segments count = Inr ord" "length ord = 2 * count"
      "\<forall>i < 2 * count. ord ! i = (if S i \<in> set segments then Some (content (S i)) else None)"
      "count \<le> card {i. i < 2 * count \<and> ord ! i \<noteq> None}"
    by (rule row_part [OF lib(1) sizes len row [unfolded Blob_to_poly_def Blob_to_fs_fr_vec_def] part])
  have c: "0 < c" using sizes(3) by (rule is_power_of_two_pos)
  have "samples_of (segment_datas_to_row ord c) r \<and>
     card {i. i < 2 * count \<and> ord ! i \<noteq> None} * c \<le> card (known (segment_datas_to_row ord c))"
    using r(2) sizes(1) order(2,3) S(2) by (intro segment_datas_to_row_samples [OF c]) (auto split: if_splits)
  moreover have "n \<le> card {i. i < 2 * count \<and> ord ! i \<noteq> None} * c"
    using order(4) sizes(1) by (simp add: mult_le_mono1)
  ultimately have "recover_poly L (KZG_get_fs kzg) (segment_datas_to_row ord c) = Inr (Polynomial (scalars b))"
    using lib(1) len r(1) by (intro recover_poly_correct [of L _ n]) (auto simp: erasure_documented_def)
  then show ?thesis
    using order(1) orig by (auto simp: Polynomial_to_blob_def Polynomial_to_bls_scalars_def)
qed

theorem bytes_survive_erasure_witness:
  "\<exists>ord p. order_segments_row [sample_row (replicate 32 0) ! 1] 1 = Inr ord \<and>
     recover_poly sample_lib (KZG_get_fs (sample_kzg 4096)) (segment_datas_to_row ord 1) = Inr p \<and>
     Blob_to_bytes_by_len sample_lib (Polynomial_to_blob p) (length [0, 0, 0 :: u8]) = [0, 0, 0]"
proof (rule bytes_survive_erasure [OF sample_erasure_documented sample_scalar_documented, of 1 "[0, 0, 0]"
      "Blob [replicate 32 0]" 0 "sample_row (replicate 32 0)"])
  have pad: "resize 31 0 [0, 0, 0 :: u8] = replicate 31 0" by (simp add: resize_def numeral_eq_Suc)
  have last: "replicate 31 (0 :: u8) @ [0] = replicate 32 0" by (simp add: numeral_eq_Suc)
  show "Blob_try_from_bytes_pad sample_lib [0, 0, 0] (1 * SCALAR_SAFE_BYTES) = Inr (Blob [replicate 32 0])"
    by (simp add: Blob_try_from_bytes_pad_def Blob_from_bytes_def chunks_step SCALAR_SAFE_BYTES_def pad last
        try_from_bytes_safe_def BlsScalar_try_from_bytes_def BYTES_PER_FIELD_ELEMENT_def sample_lib_def)
qed (simp_all add: sample_row [unfolded One_nat_def] Blob_to_poly_def Blob_to_fs_fr_vec_def is_power_of_two.simps
    sample_row_def SCALAR_SAFE_BYTES_def)

section \<open>Properties of the extension\<close>

text \<open>What the group transform promises: it keeps the length, and doubling the coefficients of a list
  leaves its elements at the even positions of the result.\<close>

definition g1_extension_documented :: "('fr, 'g1, 'g2, 'fs, 'fk) kzg_lib \<Rightarrow> 'fs \<Rightarrow> nat \<Rightarrow> bool" where
  "g1_extension_documented L fs k \<longleftrightarrow>
     (\<forall>els. length els = k \<longrightarrow>
        (\<exists>cs ext. fft_g1 L fs els True = Inr cs \<and> length cs = k \<and>
           fft_g1 L fs (cs @ replicate k (g1_identity L)) False = Inr ext \<and> length ext = 2 * k \<and>
           (\<forall>i < k. ext ! (2 * i) = els ! i)))"

lemma extend_fs_g1_interleaved:
  assumes "g1_extension_documented L fs (length els)"
  shows "\<exists>ext. extend_fs_g1 L fs els = Inr ext \<and> length ext = 2 * length els \<and>
     (\<forall>i < length els. ext ! (2 * i) = els ! i)"
proof -
  from assms obtain cs ext where "fft_g1 L fs els True = Inr cs" "length cs = length els"
      "fft_g1 L fs (cs @ replicate (length els) (g1_identity L)) False = Inr ext" "length ext = 2 * length els"
      "\<forall>i < length els. ext ! (2 * i) = els ! i"
    unfolding g1_extension_documented_def by blast
  then show ?thesis by (simp add: extend_fs_g1_def resize_def mult_2_right)
qed

text \<open>Extending commitments and reordering them gives twice as many, the original ones first and
  in their order, followed by the new ones in the order of the extension.\<close>

theorem extend_and_reorder_originals_first:
  assumes "g1_extension_documented L fs (length els)"
  shows "\<exists>ext out. extend_fs_g1 L fs els = Inr ext \<and> extend_and_reorder_elements L fs els = Inr out \<and>
     length out = 2 * length els \<and> take (length els) out = els \<and>
     (\<forall>i < length els. out ! (length els + i) = ext ! (2 * i + 1))"
proof -
  obtain ext where ext: "extend_fs_g1 L fs els = Inr ext" "length ext = 2 * length els"
      "\<forall>i < length els. ext ! (2 * i) = els ! i"
    using extend_fs_g1_interleaved [OF assms] by blast
  let ?k = "length els"
  have "map (\<lambda>i. ext ! (2 * i)) [0..<?k] = els" using ext(3) by (intro nth_equalityI) auto
  then have ev: "map snd (filter (\<lambda>(i, _). i mod 2 = 0) (enumerate0 ext)) = els"
    using ext(2) by (simp add: enumerate0_evens)
  have od: "map snd (filter (\<lambda>x. \<not> (case x of (i, _) \<Rightarrow> i mod 2 = 0)) (enumerate0 ext)) =
      map (\<lambda>i. ext ! (2 * i + 1)) [0..<?k]"
    using enumerate0_odds [of ext] ext(2) by (simp add: case_prod_unfold)
  have "extend_and_reorder_elements L fs els = Inr (els @ map (\<lambda>i. ext ! (2 * i + 1)) [0..<?k])"
    using ext(1) ev od by (simp add: extend_and_reorder_elements_def comp_def)
  then show ?thesis using ext(1) by (simp add: nth_append)
qed

theorem extend_and_reorder_originals_first_witness:
  "\<exists>out. extend_and_reorder_elements sample_lib 4096 [[[9]]] = Inr out \<and> length out = 2 \<and> take 1 out = [[[9]]]"
proof -
  have "g1_extension_documented sample_lib 4096 (length [[[9 :: u8]]])"
    by (auto simp: g1_extension_documented_def sample_lib_def length_Suc_conv)
  from extend_and_reorder_originals_first [OF this] show ?thesis by auto
qed

text \<open>An instance for any number of elements: the forward transform repeats every element of the lower half, the inverse one
  changes nothing.\<close>

definition doubling_lib :: "('fr, 'g1, 'g2, 'fs, 'fk) kzg_lib \<Rightarrow> ('fr, 'g1, 'g2, 'fs, 'fk) kzg_lib" where
  "doubling_lib L = L\<lparr> fft_g1 := \<lambda>_ xs is_inverse.
     Inr (if is_inverse then xs else concat (map (\<lambda>x. [x, x]) (take (length xs div 2) xs))) \<rparr>"

lemma doubling_lib_documented: "g1_extension_documented (doubling_lib L) fs k"
proof -
  have "length (concat (map (\<lambda>x. [x, x]) xs)) = 2 * length xs" for xs :: "'b list"
    by (induction xs) simp_all
  moreover have "concat (map (\<lambda>x. [x, x]) xs) ! (2 * i) = xs ! i" if "i < length xs" for xs :: "'b list" and i
    using that
  proof (induction xs arbitrary: i)
    case (Cons x xs)
    then show ?case by (cases i) simp_all
  qed simp
  ultimately show ?thesis by (auto simp: g1_extension_documented_def doubling_lib_def)
qed

section \<open>Properties of the byte layer\<close>

lemma bytes_to_blobs_ok:
  assumes "scalar_documented L" and fe: "is_power_of_two fe" and ne: "bs \<noteq> []"
  shows "\<exists>blobs. bytes_to_blobs L bs fe = Inr blobs \<and>
     length blobs = (length bs + fe * SCALAR_SAFE_BYTES - 1) div (fe * SCALAR_SAFE_BYTES) \<and>
     list_all (\<lambda>b. length (scalars b) = fe) blobs \<and>
     concat (map (Blob_to_bytes L) blobs) = bs @ replicate (length blobs * (fe * SCALAR_SAFE_BYTES) - length bs) 0"
proof -
  let ?n = "fe * SCALAR_SAFE_BYTES"
  have n: "0 < ?n" using is_power_of_two_pos [OF fe] by (simp add: SCALAR_SAFE_BYTES_def)
  let ?f = "\<lambda>chunk. res_expect ''Failed to convert bytes to Blob; qed'' (Blob_try_from_bytes_pad L chunk ?n)"
  let ?ok = "\<lambda>c b. length (scalars b) = fe \<and> Blob_to_bytes L b = c @ replicate (?n - length c) 0"
  have "\<exists>b. ?f c = Inr b \<and> ?ok c b" if "c \<in> set (chunks ?n bs)" for c
  proof -
    have "length c \<le> fe * SCALAR_SAFE_BYTES" using chunks_lengths [OF n that] by simp
    from Blob_pad_correct [OF assms(1) this] show ?thesis by auto
  qed
  then obtain g where g: "\<And>c. c \<in> set (chunks ?n bs) \<Longrightarrow> ?f c = Inr (g c) \<and> ?ok c (g c)" by metis
  have "traverse ?f (chunks ?n bs) = Inr (map g (chunks ?n bs))" using g by (intro traverse_all_Inr) blast
  then have blobs: "bytes_to_blobs L bs fe = Inr (map g (chunks ?n bs))"
    using fe ne is_power_of_two_pos [OF fe] by (simp add: bytes_to_blobs_def get_bytes_per_blob_def mult.commute)
  have "map (Blob_to_bytes L) (map g (chunks ?n bs)) = map (\<lambda>c. c @ replicate (?n - length c) 0) (chunks ?n bs)"
    using g by simp
  then have "concat (map (Blob_to_bytes L) (map g (chunks ?n bs))) = bs @ replicate (length (chunks ?n bs) * ?n - length bs) 0"
    by (simp only: concat_padded_chunks [OF n])
  then show ?thesis using blobs fe g length_chunks [OF n, of bs] by (auto simp: list_all_iff)
qed

text \<open>\<open>bytes_to_blobs\<close> never panics: it refuses empty input and sizes that are no powers of two,
  and otherwise cuts the bytes into the least number of blobs that hold them, each with exactly the
  requested number of field elements, whose bytes in sequence are the input followed by zeros only.\<close>

theorem bytes_to_blobs_roundtrip:
  assumes "scalar_documented L"
  shows "bytes_to_blobs L bs fe =
           (if bs = [] then Inl (Err ''bytes should not contain empty bytes; qed'')
            else Inl (Err ''field_elements_per_blob should be a power of 2; qed'')) \<and> (bs = [] \<or> \<not> is_power_of_two fe) \<or>
         (\<exists>blobs. bytes_to_blobs L bs fe = Inr blobs \<and> is_power_of_two fe \<and>
            length blobs = (length bs + fe * SCALAR_SAFE_BYTES - 1) div (fe * SCALAR_SAFE_BYTES) \<and>
            list_all (\<lambda>b. length (scalars b) = fe) blobs \<and>
            concat (map (Blob_to_bytes L) blobs) =
              bs @ replicate (length blobs * (fe * SCALAR_SAFE_BYTES) - length bs) 0)"
  using bytes_to_blobs_ok [OF assms, of fe bs] by (cases "bs = [] \<or> \<not> is_power_of_two fe")
    (auto simp: bytes_to_blobs_def get_bytes_per_blob_def)

theorem bytes_to_blobs_roundtrip_witness:
  "(\<exists>blobs. bytes_to_blobs sample_lib [1, 2] 2 = Inr blobs \<and> length blobs = 1 \<and>
     concat (map (Blob_to_bytes sample_lib) blobs) = [1, 2] @ replicate 60 0) \<and>
   bytes_to_blobs sample_lib [1, 2] 3 = Inl (Err ''field_elements_per_blob should be a power of 2; qed'')"
  using bytes_to_blobs_roundtrip [OF sample_scalar_documented, of "[1, 2]" 2]
    bytes_to_blobs_roundtrip [OF sample_scalar_documented, of "[1, 2]" 3]
  by (auto simp: SCALAR_SAFE_BYTES_def is_power_of_two.simps)

end
