(* ===== verification/Das_Db.thy ===== *)
theory Das_Db
  imports Prelude
begin

text \<open>
  The key-value stores of \<open>crates/das-db\<close>. The trait \<open>DasKv\<close> is the record of its five
  methods over a store state \<open>'s\<close>; code that is generic in \<open>DB: DasKv\<close> takes such a record,
  and its lemmas are proved in the locale \<open>das_kv\<close>, whose laws are what the trait's
  documentation promises. \<open>MockDb\<close> interprets the locale; \<open>OffchainKv\<close> and
  \<open>OffchainKvOutside\<close> run over the off-chain local storage of Substrate, \<open>SqliteDasDb\<close>
  over a database connection. The last two libraries are parameters (\<open>OffchainStorage\<close>,
  \<open>Connection\<close>) with their documented behaviour as the predicates \<open>offchain_documented\<close>
  and \<open>sql_documented\<close>.
\<close>

section \<open>The trait DasKv (traits.rs)\<close>

record 's DasKv =
  kv_get :: "'s \<Rightarrow> bytes \<Rightarrow> bytes option"
  kv_set :: "'s \<Rightarrow> bytes \<Rightarrow> bytes \<Rightarrow> 's"
  kv_remove :: "'s \<Rightarrow> bytes \<Rightarrow> 's"
  kv_contains :: "'s \<Rightarrow> bytes \<Rightarrow> bool"
  kv_compare_and_set :: "'s \<Rightarrow> bytes \<Rightarrow> bytes option \<Rightarrow> bytes \<Rightarrow> bool \<times> 's"

section \<open>The in-memory store (mock\_db.rs)\<close>

record MockDb =
  storage :: "bytes \<rightharpoonup> bytes"

definition MockDb_new :: MockDb where
  "MockDb_new = \<lparr> storage = Map.empty \<rparr>"

definition MockDb_get :: "MockDb \<Rightarrow> bytes \<Rightarrow> bytes option" where
  "MockDb_get db key = storage db key"

definition MockDb_set :: "MockDb \<Rightarrow> bytes \<Rightarrow> bytes \<Rightarrow> MockDb" where
  "MockDb_set db key v = db\<lparr> storage := (storage db)(key \<mapsto> v) \<rparr>"

definition MockDb_remove :: "MockDb \<Rightarrow> bytes \<Rightarrow> MockDb" where
  "MockDb_remove db key = db\<lparr> storage := (storage db)(key := None) \<rparr>"

definition MockDb_contains :: "MockDb \<Rightarrow> bytes \<Rightarrow> bool" where
  "MockDb_contains db key = (storage db key \<noteq> None)"

definition MockDb_compare_and_set :: "MockDb \<Rightarrow> bytes \<Rightarrow> bytes option \<Rightarrow> bytes \<Rightarrow> bool \<times> MockDb" where
  "MockDb_compare_and_set db key old_value new_value =
     (case (MockDb_get db key, old_value) of
        (Some current_value, Some old) \<Rightarrow>
          if current_value = old then (True, MockDb_set db key new_value) else (False, db)
      | (None, None) \<Rightarrow> (True, MockDb_set db key new_value)
      | _ \<Rightarrow> (False, db))"

definition MockDb_kv :: "MockDb DasKv" where
  "MockDb_kv = \<lparr> kv_get = MockDb_get, kv_set = MockDb_set, kv_remove = MockDb_remove,
                 kv_contains = MockDb_contains, kv_compare_and_set = MockDb_compare_and_set \<rparr>"

section \<open>The off-chain local storage (offchain.rs, offchain\_outside.rs)\<close>

text \<open>\<open>sp_io::offchain\<close> and \<open>sc_offchain::OffchainDb\<close>, at the kind
  \<open>StorageKind::PERSISTENT\<close>.\<close>

record 's OffchainStorage =
  local_storage_get :: "'s \<Rightarrow> bytes \<Rightarrow> bytes option"
  local_storage_set :: "'s \<Rightarrow> bytes \<Rightarrow> bytes \<Rightarrow> 's"
  local_storage_clear :: "'s \<Rightarrow> bytes \<Rightarrow> 's"
  local_storage_compare_and_set :: "'s \<Rightarrow> bytes \<Rightarrow> bytes option \<Rightarrow> bytes \<Rightarrow> bool \<times> 's"

definition offchain_documented :: "'s OffchainStorage \<Rightarrow> bool" where
  "offchain_documented os \<longleftrightarrow>
     (\<forall>s k v. local_storage_get os (local_storage_set os s k v) = (local_storage_get os s)(k \<mapsto> v)) \<and>
     (\<forall>s k. local_storage_get os (local_storage_clear os s k) = (local_storage_get os s)(k := None)) \<and>
     (\<forall>s k old new. local_storage_compare_and_set os s k old new =
        (if local_storage_get os s k = old then (True, local_storage_set os s k new) else (False, s)))"

record OffchainKv =
  prefix :: bytes

definition DEFAULT_PREFIX :: bytes where
  "DEFAULT_PREFIX = str_bytes ''das_default_prefix''"

definition OffchainKv_new :: "bytes option \<Rightarrow> OffchainKv" where
  "OffchainKv_new p = \<lparr> prefix = (case p of None \<Rightarrow> DEFAULT_PREFIX | Some q \<Rightarrow> q) \<rparr>"

definition get_prefixed_key :: "OffchainKv \<Rightarrow> bytes \<Rightarrow> bytes" where
  "get_prefixed_key kv key = prefix kv @ key"

definition OffchainKv_get :: "'s OffchainStorage \<Rightarrow> OffchainKv \<Rightarrow> 's \<Rightarrow> bytes \<Rightarrow> bytes option" where
  "OffchainKv_get os kv s key = local_storage_get os s (get_prefixed_key kv key)"

definition OffchainKv_set :: "'s OffchainStorage \<Rightarrow> OffchainKv \<Rightarrow> 's \<Rightarrow> bytes \<Rightarrow> bytes \<Rightarrow> 's" where
  "OffchainKv_set os kv s key v = local_storage_set os s (get_prefixed_key kv key) v"

definition OffchainKv_remove :: "'s OffchainStorage \<Rightarrow> OffchainKv \<Rightarrow> 's \<Rightarrow> bytes \<Rightarrow> 's" where
  "OffchainKv_remove os kv s key = local_storage_clear os s (get_prefixed_key kv key)"

definition OffchainKv_contains :: "'s OffchainStorage \<Rightarrow> OffchainKv \<Rightarrow> 's \<Rightarrow> bytes \<Rightarrow> bool" where
  "OffchainKv_contains os kv s key = (OffchainKv_get os kv s key \<noteq> None)"

definition OffchainKv_compare_and_set ::
  "'s OffchainStorage \<Rightarrow> OffchainKv \<Rightarrow> 's \<Rightarrow> bytes \<Rightarrow> bytes option \<Rightarrow> bytes \<Rightarrow> bool \<times> 's" where
  "OffchainKv_compare_and_set os kv s key old_value new_value =
     local_storage_compare_and_set os s (get_prefixed_key kv key) old_value new_value"

definition OffchainKv_kv :: "'s OffchainStorage \<Rightarrow> OffchainKv \<Rightarrow> 's DasKv" where
  "OffchainKv_kv os kv = \<lparr> kv_get = OffchainKv_get os kv, kv_set = OffchainKv_set os kv,
     kv_remove = OffchainKv_remove os kv, kv_contains = OffchainKv_contains os kv,
     kv_compare_and_set = OffchainKv_compare_and_set os kv \<rparr>"

text \<open>\<open>OffchainKvOutside\<close> owns the handle of the storage beside the prefix; its state is the
  pair of both, and its methods act on the handle's storage.\<close>

record 's OffchainKvOutside =
  out_db :: 's
  out_prefix :: bytes

definition OffchainKvOutside_new :: "'s \<Rightarrow> bytes option \<Rightarrow> 's OffchainKvOutside" where
  "OffchainKvOutside_new db p = \<lparr> out_db = db, out_prefix = (case p of None \<Rightarrow> DEFAULT_PREFIX | Some q \<Rightarrow> q) \<rparr>"

definition out_prefixed_key :: "'s OffchainKvOutside \<Rightarrow> bytes \<Rightarrow> bytes" where
  "out_prefixed_key self key = out_prefix self @ key"

definition OffchainKvOutside_get :: "'s OffchainStorage \<Rightarrow> 's OffchainKvOutside \<Rightarrow> bytes \<Rightarrow> bytes option" where
  "OffchainKvOutside_get os self key = local_storage_get os (out_db self) (out_prefixed_key self key)"

definition OffchainKvOutside_set ::
  "'s OffchainStorage \<Rightarrow> 's OffchainKvOutside \<Rightarrow> bytes \<Rightarrow> bytes \<Rightarrow> 's OffchainKvOutside" where
  "OffchainKvOutside_set os self key v =
     self\<lparr> out_db := local_storage_set os (out_db self) (out_prefixed_key self key) v \<rparr>"

definition OffchainKvOutside_remove ::
  "'s OffchainStorage \<Rightarrow> 's OffchainKvOutside \<Rightarrow> bytes \<Rightarrow> 's OffchainKvOutside" where
  "OffchainKvOutside_remove os self key =
     self\<lparr> out_db := local_storage_clear os (out_db self) (out_prefixed_key self key) \<rparr>"

definition OffchainKvOutside_contains :: "'s OffchainStorage \<Rightarrow> 's OffchainKvOutside \<Rightarrow> bytes \<Rightarrow> bool" where
  "OffchainKvOutside_contains os self key = (OffchainKvOutside_get os self key \<noteq> None)"

definition OffchainKvOutside_compare_and_set ::
  "'s OffchainStorage \<Rightarrow> 's OffchainKvOutside \<Rightarrow> bytes \<Rightarrow> bytes option \<Rightarrow> bytes
    \<Rightarrow> bool \<times> 's OffchainKvOutside" where
  "OffchainKvOutside_compare_and_set os self key old_value new_value =
     (let (ok, s) = local_storage_compare_and_set os (out_db self) (out_prefixed_key self key) old_value new_value
      in (ok, self\<lparr> out_db := s \<rparr>))"

definition OffchainKvOutside_kv :: "'s OffchainStorage \<Rightarrow> 's OffchainKvOutside DasKv" where
  "OffchainKvOutside_kv os = \<lparr> kv_get = OffchainKvOutside_get os, kv_set = OffchainKvOutside_set os,
     kv_remove = OffchainKvOutside_remove os, kv_contains = OffchainKvOutside_contains os,
     kv_compare_and_set = OffchainKvOutside_compare_and_set os \<rparr>"

section \<open>The SQLite store (sqlite.rs)\<close>

text \<open>The statements the code prepares, as the operations of a connection. A failed statement
  panics through \<open>expect\<close>.\<close>

datatype sql_error = QueryReturnedNoRows | SqlFailure

record 'c Connection =
  select_value :: "'c \<Rightarrow> bytes \<Rightarrow> sql_error + bytes"
  select_count :: "'c \<Rightarrow> bytes \<Rightarrow> sql_error + int"
  insert_or_replace :: "'c \<Rightarrow> bytes \<Rightarrow> bytes \<Rightarrow> sql_error + 'c"
  insert_row :: "'c \<Rightarrow> bytes \<Rightarrow> bytes \<Rightarrow> sql_error + 'c"
  delete_row :: "'c \<Rightarrow> bytes \<Rightarrow> sql_error + 'c"

definition sql_documented :: "'c Connection \<Rightarrow> ('c \<Rightarrow> bytes \<rightharpoonup> bytes) \<Rightarrow> bool" where
  "sql_documented C table \<longleftrightarrow>
     (\<forall>c k. select_value C c k = (case table c k of None \<Rightarrow> Inl QueryReturnedNoRows | Some v \<Rightarrow> Inr v)) \<and>
     (\<forall>c k. select_count C c k = Inr (case table c k of None \<Rightarrow> 0 | Some _ \<Rightarrow> 1)) \<and>
     (\<forall>c k v. \<exists>c'. insert_or_replace C c k v = Inr c' \<and> table c' = (table c)(k \<mapsto> v)) \<and>
     (\<forall>c k v. table c k = None \<longrightarrow> (\<exists>c'. insert_row C c k v = Inr c' \<and> table c' = (table c)(k \<mapsto> v))) \<and>
     (\<forall>c k. \<exists>c'. delete_row C c k = Inr c' \<and> table c' = (table c)(k := None))"

definition sql_expect :: "string \<Rightarrow> sql_error + 'a \<Rightarrow> 'a res" where
  "sql_expect msg r = (case r of Inl _ \<Rightarrow> Inl (Panic msg) | Inr a \<Rightarrow> Inr a)"

definition sql_optional :: "sql_error + 'a \<Rightarrow> sql_error + 'a option" where
  "sql_optional r = (case r of Inl QueryReturnedNoRows \<Rightarrow> Inr None | Inl e \<Rightarrow> Inl e | Inr a \<Rightarrow> Inr (Some a))"

definition SqliteDasDb_get :: "'c Connection \<Rightarrow> 'c \<Rightarrow> bytes \<Rightarrow> bytes option res" where
  "SqliteDasDb_get C conn key =
     sql_expect ''Should be able to query the database'' (sql_optional (select_value C conn key))"

definition SqliteDasDb_set :: "'c Connection \<Rightarrow> 'c \<Rightarrow> bytes \<Rightarrow> bytes \<Rightarrow> 'c res" where
  "SqliteDasDb_set C conn key v =
     sql_expect ''Should be able to insert or replace a value in the database'' (insert_or_replace C conn key v)"

definition SqliteDasDb_remove :: "'c Connection \<Rightarrow> 'c \<Rightarrow> bytes \<Rightarrow> 'c res" where
  "SqliteDasDb_remove C conn key =
     sql_expect ''Should be able to delete from the database'' (delete_row C conn key)"

definition SqliteDasDb_contains :: "'c Connection \<Rightarrow> 'c \<Rightarrow> bytes \<Rightarrow> bool res" where
  "SqliteDasDb_contains C conn key =
     res_map (\<lambda>count. count > 0) (sql_expect ''Should be able to count in the database'' (select_count C conn key))"

definition SqliteDasDb_compare_and_set ::
  "'c Connection \<Rightarrow> 'c \<Rightarrow> bytes \<Rightarrow> bytes option \<Rightarrow> bytes \<Rightarrow> (bool \<times> 'c) res" where
  "SqliteDasDb_compare_and_set C conn key old_value new_value =
     (case old_value of
        Some old_val \<Rightarrow>
          res_bind (sql_expect ''Should be able to query the database'' (sql_optional (select_value C conn key)))
            (\<lambda>current. if current = Some old_val
               then res_map (\<lambda>c. (True, c))
                 (sql_expect ''Should be able to insert or replace a value in the database''
                   (insert_or_replace C conn key new_value))
               else Inr (False, conn))
      | None \<Rightarrow>
          res_bind (sql_expect ''Should be able to count in the database'' (select_count C conn key))
            (\<lambda>count. if count = 0
               then res_map (\<lambda>c. (True, c))
                 (sql_expect ''Should be able to insert a value in the database'' (insert_row C conn key new_value))
               else Inr (False, conn)))"

section \<open>The contract of the trait\<close>

text \<open>What \<open>get\<close> answers after each operation, with an invariant of the store that the
  operations keep. The client lemmas below are what the rest of the program uses.\<close>

locale das_kv =
  fixes kv :: "'s DasKv" and inv :: "'s \<Rightarrow> bool"
  assumes get_set: "inv s \<Longrightarrow> kv_get kv (kv_set kv s k v) = (kv_get kv s)(k \<mapsto> v)"
    and get_remove: "inv s \<Longrightarrow> kv_get kv (kv_remove kv s k) = (kv_get kv s)(k := None)"
    and contains_get: "inv s \<Longrightarrow> kv_contains kv s k = (kv_get kv s k \<noteq> None)"
    and compare_and_set: "inv s \<Longrightarrow> kv_compare_and_set kv s k old new =
          (if kv_get kv s k = old then (True, kv_set kv s k new) else (False, s))"
    and inv_set: "inv s \<Longrightarrow> inv (kv_set kv s k v)"
    and inv_remove: "inv s \<Longrightarrow> inv (kv_remove kv s k)"
begin

lemma inv_compare_and_set: "inv s \<Longrightarrow> inv (snd (kv_compare_and_set kv s k old new))"
  by (simp add: compare_and_set inv_set)

text \<open>Two rival updates from the same observed value: the second one fails unless it writes
  over the value it expects.\<close>

lemma compare_and_set_once:
  assumes "inv s" and "kv_compare_and_set kv s k old a = (True, s')" and "old \<noteq> Some a"
  shows "kv_compare_and_set kv s' k old b = (False, s')"
  using assms by (auto simp: compare_and_set get_set inv_set split: if_splits)

lemma get_foldl_set:
  assumes "inv s" and "k \<notin> fst ` set kvs"
  shows "kv_get kv (foldl (\<lambda>s (k, v). kv_set kv s k v) s kvs) k = kv_get kv s k"
  using assms by (induction kvs arbitrary: s) (auto simp: get_set inv_set)

lemma inv_foldl_set: "inv s \<Longrightarrow> inv (foldl (\<lambda>s (k, v). kv_set kv s k v) s kvs)"
  by (induction kvs arbitrary: s) (auto simp: inv_set)

lemma get_foldl_set_distinct:
  assumes "inv s" and "distinct (map fst kvs)" and "(k, v) \<in> set kvs"
  shows "kv_get kv (foldl (\<lambda>s (k, v). kv_set kv s k v) s kvs) k = Some v"
  using assms
proof (induction kvs arbitrary: s)
  case Nil
  then show ?case by simp
next
  case (Cons p kvs)
  obtain k' v' where p: "p = (k', v')" by (cases p)
  show ?case
  proof (cases "(k, v) = (k', v')")
    case True
    with Cons.prems p have "k \<notin> fst ` set kvs" by auto
    then show ?thesis using Cons.prems p True by (simp add: get_foldl_set get_set inv_set)
  next
    case False
    then have "(k, v) \<in> set kvs" using Cons.prems p by auto
    then show ?thesis using Cons p by (simp add: inv_set)
  qed
qed

end

interpretation mock_kv: das_kv MockDb_kv "\<lambda>_. True"
  by unfold_locales
    (auto simp: MockDb_kv_def MockDb_get_def MockDb_set_def MockDb_remove_def MockDb_contains_def
      MockDb_compare_and_set_def split: option.splits)

lemma MockDb_kv_simps [simp]:
  "kv_get MockDb_kv = MockDb_get"
  "kv_set MockDb_kv = MockDb_set"
  "kv_remove MockDb_kv = MockDb_remove"
  "kv_contains MockDb_kv = MockDb_contains"
  "kv_compare_and_set MockDb_kv = MockDb_compare_and_set"
  by (simp_all add: MockDb_kv_def)

text \<open>The off-chain stores keep the contract whenever the storage below them does what its
  documentation says.\<close>

lemmas OffchainKv_defs = OffchainKv_kv_def OffchainKv_get_def OffchainKv_set_def OffchainKv_remove_def
  OffchainKv_contains_def OffchainKv_compare_and_set_def get_prefixed_key_def

lemmas OffchainKvOutside_defs = OffchainKvOutside_kv_def OffchainKvOutside_get_def OffchainKvOutside_set_def
  OffchainKvOutside_remove_def OffchainKvOutside_contains_def OffchainKvOutside_compare_and_set_def
  out_prefixed_key_def

lemma offchain_documentedD:
  assumes "offchain_documented os"
  shows "local_storage_get os (local_storage_set os s k v) = (local_storage_get os s)(k \<mapsto> v)"
    and "local_storage_get os (local_storage_clear os s k) = (local_storage_get os s)(k := None)"
    and "local_storage_compare_and_set os s k old new =
        (if local_storage_get os s k = old then (True, local_storage_set os s k new) else (False, s))"
  using assms unfolding offchain_documented_def by blast+

lemma OffchainKv_das_kv: "offchain_documented os \<Longrightarrow> das_kv (OffchainKv_kv os kv) (\<lambda>_. True)"
  by unfold_locales (auto simp: OffchainKv_defs offchain_documentedD fun_eq_iff)

lemma OffchainKvOutside_das_kv: "offchain_documented os \<Longrightarrow> das_kv (OffchainKvOutside_kv os) (\<lambda>_. True)"
  by unfold_locales (auto simp: OffchainKvOutside_defs offchain_documentedD fun_eq_iff split: if_splits)

section \<open>Properties\<close>

lemma append_eq_prefix: "p @ k = q @ l \<Longrightarrow> Sublist.prefix p q \<or> Sublist.prefix q p"
  by (auto simp: append_eq_append_conv2 Sublist.prefix_def)

text \<open>Stores opened on one off-chain storage under prefixes neither of which begins with the
  other do not see each other: a \<open>set\<close>, a \<open>remove\<close> or a \<open>compare_and_set\<close> through
  one leaves every \<open>get\<close> through the other unchanged.\<close>

theorem offchain_prefix_isolation:
  assumes "offchain_documented os"
    and "\<not> Sublist.prefix (prefix a) (prefix b)" and "\<not> Sublist.prefix (prefix b) (prefix a)"
  shows "OffchainKv_get os b (OffchainKv_set os a s k v) l = OffchainKv_get os b s l \<and>
         OffchainKv_get os b (OffchainKv_remove os a s k) l = OffchainKv_get os b s l \<and>
         OffchainKv_get os b (snd (OffchainKv_compare_and_set os a s k old v)) l = OffchainKv_get os b s l"
proof -
  have "prefix a @ k \<noteq> prefix b @ l" using assms(2,3) append_eq_prefix by blast
  then show ?thesis by (auto simp: OffchainKv_defs offchain_documentedD [OF assms(1)])
qed

definition map_offchain :: "(bytes \<rightharpoonup> bytes) OffchainStorage" where
  "map_offchain = \<lparr> local_storage_get = (\<lambda>s. s), local_storage_set = (\<lambda>s k v. s(k \<mapsto> v)),
     local_storage_clear = (\<lambda>s k. s(k := None)),
     local_storage_compare_and_set =
       (\<lambda>s k old new. if s k = old then (True, s(k \<mapsto> new)) else (False, s)) \<rparr>"

lemma map_offchain_documented: "offchain_documented map_offchain"
  by (simp add: offchain_documented_def map_offchain_def)

theorem offchain_prefix_isolation_witness:
  "OffchainKv_get map_offchain \<lparr> prefix = [2] \<rparr>
     (OffchainKv_set map_offchain \<lparr> prefix = [1] \<rparr> (Map.empty([2, 5] \<mapsto> [7])) [5] [9]) [5] = Some [7]"
  using offchain_prefix_isolation [OF map_offchain_documented, of "\<lparr> prefix = [1] \<rparr>" "\<lparr> prefix = [2] \<rparr>"
      "Map.empty([2, 5] \<mapsto> [7])" "[5]" "[9]" "[5]" None]
  by (simp add: OffchainKv_get_def get_prefixed_key_def map_offchain_def)

text \<open>C23: The SQLite store never panics and behaves as a finite map from keys to values, whenever
  the SQL engine executes its five statements on a table whose key is primary: \<open>get\<close> reads the
  map, \<open>set\<close> and \<open>remove\<close> update it, \<open>contains\<close> tests it, and
  \<open>compare_and_set\<close> writes exactly when the current binding is the expected one, an absent
  key included.\<close>

theorem sqlite_refines_map:
  assumes "sql_documented C table"
  shows "SqliteDasDb_get C c k = Inr (table c k) \<and>
     (\<exists>c'. SqliteDasDb_set C c k v = Inr c' \<and> table c' = (table c)(k \<mapsto> v)) \<and>
     (\<exists>c'. SqliteDasDb_remove C c k = Inr c' \<and> table c' = (table c)(k := None)) \<and>
     SqliteDasDb_contains C c k = Inr (table c k \<noteq> None) \<and>
     (\<exists>c'. SqliteDasDb_compare_and_set C c k old v = Inr (table c k = old, c') \<and>
        table c' = (if table c k = old then (table c)(k \<mapsto> v) else table c))"
proof -
  have sel: "sql_optional (select_value C c k) = Inr (table c k)"
    using assms by (auto simp: sql_documented_def sql_optional_def split: option.splits)
  have cnt: "select_count C c k = Inr (case table c k of None \<Rightarrow> 0 | Some _ \<Rightarrow> 1)"
    using assms by (simp add: sql_documented_def)
  obtain c1 where ins: "insert_or_replace C c k v = Inr c1" "table c1 = (table c)(k \<mapsto> v)"
    using assms unfolding sql_documented_def by blast
  obtain c2 where del: "delete_row C c k = Inr c2" "table c2 = (table c)(k := None)"
    using assms unfolding sql_documented_def by blast
  have new: "\<exists>c3. insert_row C c k v = Inr c3 \<and> table c3 = (table c)(k \<mapsto> v)" if "table c k = None"
    using assms that unfolding sql_documented_def by blast
  note defs = SqliteDasDb_get_def SqliteDasDb_set_def SqliteDasDb_remove_def SqliteDasDb_contains_def
    SqliteDasDb_compare_and_set_def sql_expect_def
  show ?thesis
    using ins del new by (auto simp: defs sel cnt split: option.splits)
qed

definition map_connection :: "(bytes \<rightharpoonup> bytes) Connection" where
  "map_connection = \<lparr>
     select_value = (\<lambda>c k. case c k of None \<Rightarrow> Inl QueryReturnedNoRows | Some v \<Rightarrow> Inr v),
     select_count = (\<lambda>c k. Inr (case c k of None \<Rightarrow> 0 | Some _ \<Rightarrow> 1)),
     insert_or_replace = (\<lambda>c k v. Inr (c(k \<mapsto> v))),
     insert_row = (\<lambda>c k v. if c k = None then Inr (c(k \<mapsto> v)) else Inl SqlFailure),
     delete_row = (\<lambda>c k. Inr (c(k := None))) \<rparr>"

theorem sqlite_refines_map_witness:
  "SqliteDasDb_get map_connection (Map.empty([1] \<mapsto> [2])) [1] = Inr (Some [2]) \<and>
   (\<exists>c'. SqliteDasDb_compare_and_set map_connection (Map.empty([1] \<mapsto> [2])) [1] (Some [2]) [3] = Inr (True, c') \<and>
      c' [1] = Some [3])"
proof -
  have "sql_documented map_connection (\<lambda>c. c)"
    by (simp add: sql_documented_def map_connection_def)
  from sqlite_refines_map [OF this, of "Map.empty([1] \<mapsto> [2])" "[1]" "[3]" "Some [2]"]
  show ?thesis by auto
qed

end
