(* ===== verification/Header_Ext.thy ===== *)
theory Header_Ext
  imports Crypto
begin

text \<open>
  The extended block header: the constants of \<open>core-primitives/src/config.rs\<close>, the lookup table of
  \<open>header/extension.rs\<close>, the header of \<open>header/mod.rs\<close> and the finalisation of
  \<open>frame-system-ext\<close>, which puts the list of commitments into the header.
\<close>

section \<open>Constants (config.rs)\<close>

definition BLOCK_SAMPLE_LIMIT :: u32 where "BLOCK_SAMPLE_LIMIT = 3"
definition MAX_UNAVAILABLE_BLOCK_INTERVAL :: u32 where "MAX_UNAVAILABLE_BLOCK_INTERVAL = 3"
definition FIELD_ELEMENTS_PER_SEGMENT :: nat where "FIELD_ELEMENTS_PER_SEGMENT = 2 ^ 4"
definition SEGMENTS_PER_BLOB :: nat where "SEGMENTS_PER_BLOB = FIELD_ELEMENTS_PER_BLOB div FIELD_ELEMENTS_PER_SEGMENT"
definition EXTENDED_SEGMENTS_PER_BLOB :: nat where "EXTENDED_SEGMENTS_PER_BLOB = SEGMENTS_PER_BLOB * 2"
definition BLOCK_AVAILABILITY_THRESHOLD :: u32 where "BLOCK_AVAILABILITY_THRESHOLD = 5"
definition SAMPLES_PER_BLOCK :: nat where "SAMPLES_PER_BLOCK = 8"
definition PRE_CELL_LEADING_ZEROS :: u8 where "PRE_CELL_LEADING_ZEROS = 0"

lemmas config_defs = BLOCK_SAMPLE_LIMIT_def MAX_UNAVAILABLE_BLOCK_INTERVAL_def FIELD_ELEMENTS_PER_SEGMENT_def
  SEGMENTS_PER_BLOB_def EXTENDED_SEGMENTS_PER_BLOB_def BLOCK_AVAILABILITY_THRESHOLD_def SAMPLES_PER_BLOCK_def
  PRE_CELL_LEADING_ZEROS_def FIELD_ELEMENTS_PER_BLOB_def BYTES_PER_BLOB_def BYTES_PER_FIELD_ELEMENT_def

section \<open>The lookup table (header/extension.rs)\<close>

record AppLookup =
  al_app_id :: u32
  al_nonce :: u32
  al_count :: u16

fun get_lookup_loop :: "AppLookup list \<Rightarrow> u32 \<Rightarrow> u32 \<Rightarrow> (AppLookup \<times> u32) option" where
  "get_lookup_loop [] at prev_sum = None"
| "get_lookup_loop (lookup # lookups) at prev_sum =
     (let next_sum = prev_sum + ucast (al_count lookup) in
      if at < next_sum then Some (lookup, at - prev_sum) else get_lookup_loop lookups at next_sum)"

definition AppLookup_get_lookup :: "AppLookup list \<Rightarrow> u32 \<Rightarrow> (AppLookup \<times> u32) option" where
  "AppLookup_get_lookup lookups at = get_lookup_loop lookups at 0"

record HeaderExtension =
  ext_commitments_bytes :: bytes
  ext_app_lookup :: "AppLookup list"

definition HeaderExtension_new :: "bytes \<Rightarrow> AppLookup list \<Rightarrow> HeaderExtension" where
  "HeaderExtension_new bs lookups = \<lparr> ext_commitments_bytes = bs, ext_app_lookup = lookups \<rparr>"

definition HeaderExtension_default :: HeaderExtension where
  "HeaderExtension_default = \<lparr> ext_commitments_bytes = [], ext_app_lookup = [] \<rparr>"

fun start_at_loop :: "AppLookup list \<Rightarrow> u32 \<Rightarrow> u32 \<Rightarrow> u32 \<Rightarrow> u32 option" where
  "start_at_loop [] app nonce acc = None"
| "start_at_loop (lookup # lookups) app nonce acc =
     (if al_app_id lookup = app \<and> al_nonce lookup = nonce then Some acc
      else start_at_loop lookups app nonce (acc + ucast (al_count lookup)))"

definition HeaderExtension_start_at :: "HeaderExtension \<Rightarrow> u32 \<Rightarrow> u32 \<Rightarrow> u32 option" where
  "HeaderExtension_start_at ext app nonce = start_at_loop (ext_app_lookup ext) app nonce 0"

definition HeaderExtension_get_lookup :: "HeaderExtension \<Rightarrow> u32 \<Rightarrow> (AppLookup \<times> u32) option" where
  "HeaderExtension_get_lookup ext at = AppLookup_get_lookup (ext_app_lookup ext) at"

section \<open>The header (header/mod.rs)\<close>

record ('hash, 'digest) Header =
  hdr_parent_hash :: 'hash
  hdr_number :: u32
  hdr_state_root :: 'hash
  hdr_extrinsics_root :: 'hash
  hdr_digest :: 'digest
  hdr_extension :: HeaderExtension

definition Header_new :: "u32 \<Rightarrow> 'hash \<Rightarrow> 'hash \<Rightarrow> 'hash \<Rightarrow> 'digest \<Rightarrow> ('hash, 'digest) Header" where
  "Header_new num extrinsics_root state_root parent_hash digest =
     \<lparr> hdr_parent_hash = parent_hash, hdr_number = num, hdr_state_root = state_root,
       hdr_extrinsics_root = extrinsics_root, hdr_digest = digest, hdr_extension = HeaderExtension_default \<rparr>"

definition Header_new_ext ::
  "u32 \<Rightarrow> 'hash \<Rightarrow> 'hash \<Rightarrow> 'hash \<Rightarrow> 'digest \<Rightarrow> HeaderExtension \<Rightarrow> ('hash, 'digest) Header" where
  "Header_new_ext num extrinsics state parent digest ext =
     \<lparr> hdr_parent_hash = parent, hdr_number = num, hdr_state_root = state,
       hdr_extrinsics_root = extrinsics, hdr_digest = digest, hdr_extension = ext \<rparr>"

definition Header_set_extension ::
  "('fr, 'g1, 'g2, 'fs, 'fk) kzg_lib \<Rightarrow> ('hash, 'digest) Header \<Rightarrow> 'g1 list \<times> AppLookup list \<Rightarrow> ('hash, 'digest) Header" where
  "Header_set_extension L h extension_data =
     (let (commitments, app_lookups) = extension_data;
          ext = hdr_extension h\<lparr> ext_commitments_bytes := concat (map (KZGCommitment_to_bytes L) commitments) \<rparr>
      in h\<lparr> hdr_extension := ext\<lparr> ext_app_lookup := app_lookups \<rparr> \<rparr>)"

definition Header_commitments ::
  "('fr, 'g1, 'g2, 'fs, 'fk) kzg_lib \<Rightarrow> ('hash, 'digest) Header \<Rightarrow> 'g1 list option" where
  "Header_commitments L h =
     (case traverse (\<lambda>c. res_map fst (KZGCommitment_decode L c))
             (chunks (KZGCommitment_size L) (ext_commitments_bytes (hdr_extension h))) of
        Inl _ \<Rightarrow> None | Inr cs \<Rightarrow> Some cs)"

definition Header_commitments_bytes :: "('hash, 'digest) Header \<Rightarrow> bytes" where
  "Header_commitments_bytes h = ext_commitments_bytes (hdr_extension h)"

definition Header_col_num :: "('fr, 'g1, 'g2, 'fs, 'fk) kzg_lib \<Rightarrow> ('hash, 'digest) Header \<Rightarrow> u32 option" where
  "Header_col_num L h =
     (let n = length (ext_commitments_bytes (hdr_extension h)) div KZGCommitment_size L in
      if n < 2 ^ 32 then Some (of_nat n) else None)"

section \<open>Finalisation (frame-system-ext)\<close>

text \<open>\<open>frame_system::Pallet::finalize\<close> gives the base header; \<open>commit_list_last\<close> is what
  the commit list of the runtime returns.\<close>

definition SystemExt_finalize ::
  "('fr, 'g1, 'g2, 'fs, 'fk) kzg_lib \<Rightarrow> ('hash, 'digest) Header \<Rightarrow> 'g1 list \<times> AppLookup list \<Rightarrow> ('hash, 'digest) Header" where
  "SystemExt_finalize L header commit_list_last =
     (let extension_data = commit_list_last;
          ext_header = Header_new_ext (hdr_number header) (hdr_extrinsics_root header) (hdr_state_root header)
                         (hdr_parent_hash header) (hdr_digest header) HeaderExtension_default
      in Header_set_extension L ext_header extension_data)"

section \<open>Positions of applications in the block matrix\<close>

abbreviation lookups_len :: "AppLookup list \<Rightarrow> nat" where
  "lookups_len ls \<equiv> sum_list (map (\<lambda>l. unat (al_count l)) ls)"

lemma unat_add_count:
  assumes "unat (s :: u32) + unat (c :: u16) < 2 ^ 32"
  shows "unat (s + ucast c) = unat s + unat c"
proof -
  have "take_bit 32 (unat c) = unat c" using assms by (intro take_bit_nat_eq_self) simp
  then show ?thesis using assms by (simp add: unat_word_ariths unsigned_ucast_eq)
qed

lemma get_lookup_loop_iff:
  assumes "unat prev + lookups_len ls < 2 ^ 32" and "prev \<le> at"
  shows "get_lookup_loop ls at prev = Some (l, off) \<longleftrightarrow>
     (\<exists>i < length ls. l = ls ! i \<and> unat at = unat prev + lookups_len (take i ls) + unat off \<and>
        unat off < unat (al_count l))"
  using assms
proof (induction ls arbitrary: prev)
  case Nil
  then show ?case by simp
next
  case (Cons a ls)
  let ?next = "prev + ucast (al_count a)"
  have nx: "unat ?next = unat prev + unat (al_count a)" using Cons.prems(1) by (intro unat_add_count) simp
  have ex: "(\<exists>i < length (a # ls). P i) \<longleftrightarrow> P 0 \<or> (\<exists>i < length ls. P (Suc i))" for P
    by (auto simp: less_Suc_eq_0_disj)
  show ?case
  proof (cases "at < ?next")
    case True
    have "unat (at - prev) = unat at - unat prev" using Cons.prems(2) by (rule unat_sub)
    then show ?thesis using True Cons.prems(2) nx unfolding ex
      by (auto simp: word_less_nat_alt word_le_nat_alt word_unat_eq_iff)
  next
    case False
    then show ?thesis using Cons.IH [of ?next] Cons.prems nx unfolding ex
      by (auto simp: word_less_nat_alt word_le_nat_alt add.assoc)
  qed
qed

lemma start_at_loop_iff:
  assumes "unat acc + lookups_len ls < 2 ^ 32"
  shows "start_at_loop ls app nonce acc = Some s \<longleftrightarrow>
     (\<exists>i < length ls. al_app_id (ls ! i) = app \<and> al_nonce (ls ! i) = nonce \<and>
        (\<forall>j < i. \<not> (al_app_id (ls ! j) = app \<and> al_nonce (ls ! j) = nonce)) \<and>
        unat s = unat acc + lookups_len (take i ls))"
  using assms
proof (induction ls arbitrary: acc)
  case Nil
  then show ?case by simp
next
  case (Cons a ls)
  let ?next = "acc + ucast (al_count a)"
  have nx: "unat ?next = unat acc + unat (al_count a)" using Cons.prems(1) by (intro unat_add_count) simp
  have ex: "(\<exists>i < length (a # ls). P i) \<longleftrightarrow> P 0 \<or> (\<exists>i < length ls. P (Suc i))" for P
    by (auto simp: less_Suc_eq_0_disj)
  have all: "(\<forall>j < Suc i. P j) \<longleftrightarrow> P 0 \<and> (\<forall>j < i. P (Suc j))" for P i
    by (auto simp: less_Suc_eq_0_disj)
  show ?case
  proof (cases "al_app_id a = app \<and> al_nonce a = nonce")
    case True
    then show ?thesis unfolding ex all by (auto simp: word_unat_eq_iff)
  next
    case False
    then show ?thesis using Cons.IH [of ?next] Cons.prems nx unfolding ex all
      by (auto simp: add.assoc)
  qed
qed

lemma lookups_len_take_Suc:
  "i < length ls \<Longrightarrow> lookups_len (take (Suc i) ls) = lookups_len (take i ls) + unat (al_count (ls ! i))"
  by (simp add: take_Suc_conv_app_nth)

lemma lookups_len_take_le: "lookups_len (take i ls) \<le> lookups_len ls"
proof -
  have "lookups_len ls = lookups_len (take i ls) + lookups_len (drop i ls)"
    by (metis append_take_drop_id map_append sum_list_append)
  then show ?thesis by simp
qed

lemma row_in_some_entry:
  "n < lookups_len ls \<Longrightarrow> \<exists>i < length ls. lookups_len (take i ls) \<le> n \<and> n < lookups_len (take (Suc i) ls)"
proof (induction ls rule: rev_induct)
  case (snoc a ls)
  then show ?case
  proof (cases "n < lookups_len ls")
    case True
    with snoc.IH obtain i where "i < length ls" "lookups_len (take i ls) \<le> n" "n < lookups_len (take (Suc i) ls)" by blast
    then show ?thesis by (intro exI [of _ i]) auto
  next
    case False
    then show ?thesis using snoc.prems by (intro exI [of _ "length ls"]) auto
  qed
qed simp

lemma get_lookup_Some_iff:
  assumes "lookups_len ls < 2 ^ 32"
  shows "AppLookup_get_lookup ls at = Some (l, off) \<longleftrightarrow>
     (\<exists>i < length ls. l = ls ! i \<and> unat at = lookups_len (take i ls) + unat off \<and> unat off < unat (al_count l))"
  using get_lookup_loop_iff [of 0 ls at l off] assms by (simp add: AppLookup_get_lookup_def)

lemma get_lookup_None_iff:
  assumes "lookups_len ls < 2 ^ 32"
  shows "AppLookup_get_lookup ls at = None \<longleftrightarrow> lookups_len ls \<le> unat at"
proof
  assume none: "AppLookup_get_lookup ls at = None"
  show "lookups_len ls \<le> unat at"
  proof (rule ccontr)
    assume "\<not> lookups_len ls \<le> unat at"
    with row_in_some_entry obtain i where i: "i < length ls" "lookups_len (take i ls) \<le> unat at"
        "unat at < lookups_len (take i ls) + unat (al_count (ls ! i))"
      by (metis lookups_len_take_Suc not_le)
    define off where "off = (of_nat (unat at - lookups_len (take i ls)) :: u32)"
    have "unat off = unat at - lookups_len (take i ls)"
      unfolding off_def using unat_u32_less [of at] by (intro unat_of_nat_u32) linarith
    then have "AppLookup_get_lookup ls at = Some (ls ! i, off)"
      unfolding get_lookup_Some_iff [OF assms] using i by (intro exI [of _ i]) auto
    with none show False by simp
  qed
next
  assume ge: "lookups_len ls \<le> unat at"
  show "AppLookup_get_lookup ls at = None"
  proof (cases "AppLookup_get_lookup ls at")
    case (Some p)
    obtain l off where "p = (l, off)" by (cases p)
    with Some get_lookup_Some_iff [OF assms, of at l off] obtain i where "i < length ls"
        "unat at = lookups_len (take i ls) + unat off" "unat off < unat (al_count (ls ! i))" by auto
    then show ?thesis using ge lookups_len_take_le [of "Suc i" ls] lookups_len_take_Suc [of i ls] by simp
  qed simp
qed

section \<open>Properties\<close>

text \<open>The lookup at a row of the block matrix is the one application whose rows include it. When the
  counts do not overflow 32 bits, \<open>get_lookup at\<close> answers the entry \<open>i\<close> and the offset exactly
  when \<open>at\<close> is the number of rows before entry \<open>i\<close> plus the offset and the offset is below
  the count of the entry; and it answers nothing exactly when \<open>at\<close> is past all rows.\<close>

theorem get_lookup_spec:
  assumes "lookups_len ls < 2 ^ 32"
  shows "(AppLookup_get_lookup ls at = Some (l, off) \<longleftrightarrow>
           (\<exists>i < length ls. l = ls ! i \<and> unat at = lookups_len (take i ls) + unat off \<and> unat off < unat (al_count l))) \<and>
         (AppLookup_get_lookup ls at = None \<longleftrightarrow> lookups_len ls \<le> unat at)"
  using get_lookup_Some_iff [OF assms] get_lookup_None_iff [OF assms] by simp

definition sample_lookups :: "AppLookup list" where
  "sample_lookups = [\<lparr> al_app_id = 1, al_nonce = 1, al_count = 2 \<rparr>, \<lparr> al_app_id = 2, al_nonce = 1, al_count = 3 \<rparr>]"

theorem get_lookup_spec_witness:
  "AppLookup_get_lookup sample_lookups 4 = Some (\<lparr> al_app_id = 2, al_nonce = 1, al_count = 3 \<rparr>, 2) \<and>
   AppLookup_get_lookup sample_lookups 5 = None"
  using get_lookup_spec [of sample_lookups 4 "sample_lookups ! 1" 2] get_lookup_spec [of sample_lookups 5]
  by (auto simp: sample_lookups_def less_Suc_eq)

text \<open>The rows of a submission found by \<open>start_at\<close> are the rows \<open>get_lookup\<close> attributes to it:
  the first entry with the application and the nonce starts at the answered row, and looking up the
  row at any offset below its count gives that entry and that offset.\<close>

theorem start_at_get_lookup:
  assumes "lookups_len (ext_app_lookup ext) < 2 ^ 32" and "HeaderExtension_start_at ext app nonce = Some s"
  shows "\<exists>i < length (ext_app_lookup ext). let l = ext_app_lookup ext ! i in
     al_app_id l = app \<and> al_nonce l = nonce \<and> unat s = lookups_len (take i (ext_app_lookup ext)) \<and>
     (\<forall>off. unat off < unat (al_count l) \<longrightarrow> HeaderExtension_get_lookup ext (s + off) = Some (l, off))"
proof -
  let ?ls = "ext_app_lookup ext"
  from assms start_at_loop_iff [of 0 ?ls app nonce s] obtain i where i: "i < length ?ls" "al_app_id (?ls ! i) = app"
      "al_nonce (?ls ! i) = nonce" "unat s = lookups_len (take i ?ls)"
    by (auto simp: HeaderExtension_start_at_def)
  have "HeaderExtension_get_lookup ext (s + off) = Some (?ls ! i, off)" if "unat off < unat (al_count (?ls ! i))" for off
  proof -
    have "unat s + unat off < 2 ^ 32"
      using that i(1,4) assms(1) lookups_len_take_le [of "Suc i" ?ls] lookups_len_take_Suc [of i ?ls] by simp
    then have "unat (s + off) = unat s + unat off" using unat_add_lem [of s off] by simp
    then show ?thesis using i(1,4) that
      by (auto simp: HeaderExtension_get_lookup_def get_lookup_Some_iff [OF assms(1)])
  qed
  then show ?thesis using i by (auto simp: Let_def)
qed

theorem start_at_get_lookup_witness:
  "HeaderExtension_get_lookup (HeaderExtension_new [] sample_lookups) (2 + 1) =
     Some (\<lparr> al_app_id = 2, al_nonce = 1, al_count = 3 \<rparr>, 1)"
proof -
  have "\<forall>off. unat off < 3 \<longrightarrow> HeaderExtension_get_lookup (HeaderExtension_new [] sample_lookups) (2 + off) =
      Some (\<lparr> al_app_id = 2, al_nonce = 1, al_count = 3 \<rparr>, off)"
    using start_at_get_lookup [of "HeaderExtension_new [] sample_lookups" 2 1 2]
    by (auto simp: sample_lookups_def HeaderExtension_new_def HeaderExtension_start_at_def Let_def less_Suc_eq)
  from this [rule_format, of 1] show ?thesis by simp
qed

text \<open>The encoding of commitments is injective and of fixed size.\<close>

definition g1_roundtrip :: "('fr, 'g1, 'g2, 'fs, 'fk) kzg_lib \<Rightarrow> 'g1 list \<Rightarrow> bool" where
  "g1_roundtrip L cs \<longleftrightarrow> 0 < BYTES_PER_G1 L \<and>
     (\<forall>c \<in> set cs. length (g1_to_bytes L c) = BYTES_PER_G1 L \<and> g1_from_bytes L (g1_to_bytes L c) = Inr c)"

lemma commitments_of_bytes:
  assumes "g1_roundtrip L cs"
  shows "traverse (\<lambda>c. res_map fst (KZGCommitment_decode L c)) (chunks (KZGCommitment_size L)
     (concat (map (KZGCommitment_to_bytes L) cs))) = Inr cs"
proof -
  have "chunks (KZGCommitment_size L) (concat (map (KZGCommitment_to_bytes L) cs)) = map (KZGCommitment_to_bytes L) cs"
    using assms by (intro chunks_concat) (auto simp: g1_roundtrip_def KZGCommitment_size_def KZGCommitment_to_bytes_def)
  then show ?thesis using assms
    by (auto simp: traverse_Inr_iff g1_roundtrip_def KZGCommitment_decode_def KZGCommitment_to_bytes_def
        KZGCommitment_try_from_bytes_def)
qed

lemma finalize_header_fields:
  assumes "g1_roundtrip L cs" and "length cs < 2 ^ 32"
  shows "let h = SystemExt_finalize L base (cs, ls) in
     hdr_number h = hdr_number base \<and> hdr_parent_hash h = hdr_parent_hash base \<and>
     hdr_state_root h = hdr_state_root base \<and> hdr_extrinsics_root h = hdr_extrinsics_root base \<and>
     hdr_digest h = hdr_digest base \<and>
     Header_commitments L h = Some cs \<and> ext_app_lookup (hdr_extension h) = ls \<and>
     Header_col_num L h = Some (of_nat (length cs))"
proof -
  have len: "length (concat (map (KZGCommitment_to_bytes L) cs)) = length cs * BYTES_PER_G1 L"
    using length_concat_const [of "map (KZGCommitment_to_bytes L) cs" "BYTES_PER_G1 L"] assms(1)
    by (auto simp: g1_roundtrip_def KZGCommitment_to_bytes_def)
  have "0 < BYTES_PER_G1 L" using assms(1) by (simp add: g1_roundtrip_def)
  then show ?thesis using assms(2) commitments_of_bytes [OF assms(1)] len
    by (simp add: SystemExt_finalize_def Header_set_extension_def Header_new_ext_def Header_commitments_def
        Header_col_num_def KZGCommitment_size_def Let_def)
qed

text \<open>The contract of the trait \<open>HeaderCommitList\<close>: in the states the provider keeps, the lookup table
  covers exactly the commitments it comes with. The header that finalisation makes of it then answers for
  every row it commits to, and for no other.\<close>

locale header_commit_list =
  fixes commit_last :: "'s \<Rightarrow> 'g1 list \<times> AppLookup list" and good :: "'s \<Rightarrow> bool"
  assumes rows_covered: "good s \<Longrightarrow> lookups_len (snd (commit_last s)) = length (fst (commit_last s))"
    and rows_fit: "good s \<Longrightarrow> length (fst (commit_last s)) < 2 ^ 32"
begin

lemma header_rows:
  assumes "good s" and "g1_roundtrip L (fst (commit_last s))"
  shows "let h = SystemExt_finalize L base (commit_last s) in
     Header_commitments L h = Some (fst (commit_last s)) \<and> ext_app_lookup (hdr_extension h) = snd (commit_last s) \<and>
     (\<forall>y. HeaderExtension_get_lookup (hdr_extension h) y = None \<longleftrightarrow> length (fst (commit_last s)) \<le> unat y)"
  using finalize_header_fields [OF assms(2) rows_fit [OF assms(1)], of base "snd (commit_last s)"]
    rows_covered [OF assms(1)] rows_fit [OF assms(1)]
  by (simp add: Let_def HeaderExtension_get_lookup_def get_lookup_None_iff)

end

text \<open>Finalising a block writes the commit list into the header losslessly: the header has the fields of
  the base header, its commitments and its lookup table are the ones of the commit list, and its
  number of columns is their number.\<close>

theorem finalize_header_commitments:
  assumes "g1_roundtrip L cs" and "length cs < 2 ^ 32"
  shows "let h = SystemExt_finalize L base (cs, ls) in
     hdr_number h = hdr_number base \<and> hdr_parent_hash h = hdr_parent_hash base \<and>
     hdr_state_root h = hdr_state_root base \<and> hdr_extrinsics_root h = hdr_extrinsics_root base \<and>
     hdr_digest h = hdr_digest base \<and>
     Header_commitments L h = Some cs \<and> ext_app_lookup (hdr_extension h) = ls \<and>
     Header_col_num L h = Some (of_nat (length cs))"
  using finalize_header_fields [OF assms] .

theorem finalize_header_commitments_witness:
  "Header_commitments sample_lib (SystemExt_finalize sample_lib
     (Header_new 7 (1 :: nat) 2 3 ()) ([[replicate 48 5], [replicate 48 6]], [])) = Some [[replicate 48 5], [replicate 48 6]]"
  using finalize_header_commitments [of sample_lib "[[replicate 48 5], [replicate 48 6]]" "Header_new 7 (1 :: nat) 2 3 ()" "[]"]
  by (auto simp: g1_roundtrip_def sample_lib_def resize_def Let_def)

end
