(* ===== verification/Reliability.thy ===== *)
theory Reliability
  imports Das_Db Blob Header_Ext
begin

text \<open>
  The availability records of \<open>core-primitives/src/reliability.rs\<close>: sample identifiers and their
  keys, the choice of random sample positions, the confidence of a block or an application, and the
  persistence of the records in a key-value store.
\<close>

section \<open>Keys\<close>

definition LATEST_PROCESSED_BLOCK_KEY :: bytes where
  "LATEST_PROCESSED_BLOCK_KEY = str_bytes ''latestprocessedblock''"

definition block_confidence :: "bytes \<Rightarrow> bytes" where
  "block_confidence block_hash = block_hash"

definition app_confidence :: "u32 \<Rightarrow> u32 \<Rightarrow> bytes" where
  "app_confidence app_id nonce = u32_to_be_bytes app_id @ u32_to_be_bytes nonce"

definition sample_key :: "Position codec \<Rightarrow> u32 \<Rightarrow> u32 \<Rightarrow> Position \<Rightarrow> bytes" where
  "sample_key pc app_id nonce pos = u32_to_be_bytes app_id @ u32_to_be_bytes nonce @ encode pc pos"

definition sample_key_from_block :: "Position codec \<Rightarrow> bytes \<Rightarrow> Position \<Rightarrow> bytes" where
  "sample_key_from_block pc block_hash pos = block_hash @ encode pc pos"

section \<open>The last processed block\<close>

record LastProcessedBlock =
  lpb_block_num :: u32
  lpb_block_hash :: bytes

definition ReliabilityId_get_last ::
  "'s DasKv \<Rightarrow> LastProcessedBlock codec \<Rightarrow> 's \<Rightarrow> LastProcessedBlock option res" where
  "ReliabilityId_get_last kv lc db =
     (case kv_get kv db LATEST_PROCESSED_BLOCK_KEY of
        None \<Rightarrow> Inr None
      | Some dat \<Rightarrow> (case decode lc dat of None \<Rightarrow> Inl (Panic ''unwrap'') | Some b \<Rightarrow> Inr (Some b)))"

definition set_last_processed_block ::
  "'s DasKv \<Rightarrow> LastProcessedBlock codec \<Rightarrow> 's \<Rightarrow> u32 \<Rightarrow> bytes \<Rightarrow> 's" where
  "set_last_processed_block kv lc db block_num block_hash =
     kv_set kv db LATEST_PROCESSED_BLOCK_KEY
       (encode lc \<lparr> lpb_block_num = block_num, lpb_block_hash = block_hash \<rparr>)"

definition get_last_processed_block ::
  "'s DasKv \<Rightarrow> LastProcessedBlock codec \<Rightarrow> 's \<Rightarrow> u32 option res" where
  "get_last_processed_block kv lc db =
     (case kv_get kv db LATEST_PROCESSED_BLOCK_KEY of
        None \<Rightarrow> Inr None
      | Some dat \<Rightarrow> (case decode lc dat of None \<Rightarrow> Inl (Panic ''unwrap'') | Some b \<Rightarrow> Inr (Some (lpb_block_num b))))"

section \<open>Samples and records\<close>

record Sample =
  sample_id :: bytes
  sample_position :: Position
  sample_is_availability :: bool

definition Sample_set_success :: "Sample \<Rightarrow> Sample" where
  "Sample_set_success s = s\<lparr> sample_is_availability := True \<rparr>"

definition Sample_key :: "Position codec \<Rightarrow> Sample \<Rightarrow> u32 \<Rightarrow> u32 \<Rightarrow> bytes" where
  "Sample_key pc s app_id nonce = sample_key pc app_id nonce (sample_position s)"

datatype ReliabilityType = App | Block

text \<open>\<open>Permill\<close> of \<open>sp_arithmetic\<close>, a number of millionths in a 32-bit integer.\<close>

record permill_lib =
  pm_one :: u32
  pm_mul_floor :: "u32 \<Rightarrow> u32 \<Rightarrow> u32"
  pm_saturating_pow :: "u32 \<Rightarrow> nat \<Rightarrow> u32"
  pm_saturating_sub :: "u32 \<Rightarrow> u32 \<Rightarrow> u32"

definition APP_AVAILABILITY_THRESHOLD_PERMILL :: u32 where "APP_AVAILABILITY_THRESHOLD_PERMILL = 900000"
definition APP_FAILURE_PROBABILITY :: u32 where "APP_FAILURE_PROBABILITY = 500000"
definition BLOCK_FAILURE_PROBABILITY :: u32 where "BLOCK_FAILURE_PROBABILITY = 250000"

definition failure_probability :: "ReliabilityType \<Rightarrow> u32" where
  "failure_probability t = (case t of App \<Rightarrow> APP_FAILURE_PROBABILITY | Block \<Rightarrow> BLOCK_FAILURE_PROBABILITY)"

definition ReliabilityType_is_availability :: "permill_lib \<Rightarrow> ReliabilityType \<Rightarrow> u32 \<Rightarrow> u32 \<Rightarrow> bool" where
  "ReliabilityType_is_availability pm t total_count succ_count =
     (case t of
        App \<Rightarrow> succ_count > pm_mul_floor pm APP_AVAILABILITY_THRESHOLD_PERMILL total_count
      | Block \<Rightarrow> succ_count \<ge> BLOCK_AVAILABILITY_THRESHOLD)"

record 'g1 Reliability =
  samples :: "Sample list"
  rel_commitments :: "'g1 list"
  confidence_type :: ReliabilityType

definition Reliability_new :: "ReliabilityType \<Rightarrow> 'g1 list \<Rightarrow> 'g1 Reliability" where
  "Reliability_new t cs = \<lparr> samples = [], rel_commitments = cs, confidence_type = t \<rparr>"

definition success_count :: "'g1 Reliability \<Rightarrow> nat" where
  "success_count r =
     fst (foldl (\<lambda>(max_count, curr_count) sample.
            if sample_is_availability sample then (max max_count (curr_count + 1), curr_count + 1)
            else (max_count, 0)) (0, 0) (samples r))"

definition calculate_confidence :: "permill_lib \<Rightarrow> u32 \<Rightarrow> u32 \<Rightarrow> u32" where
  "calculate_confidence pm n fail_prob =
     (let base_power_sample = pm_saturating_pow pm fail_prob (unat n)
      in pm_saturating_sub pm (pm_one pm) base_power_sample)"

definition Reliability_value :: "permill_lib \<Rightarrow> 'g1 Reliability \<Rightarrow> u32 option" where
  "Reliability_value pm r =
     (case confidence_type r of
        App \<Rightarrow> None
      | Block \<Rightarrow>
          if length (samples r) = 0 then None
          else Some (calculate_confidence pm (of_nat (length (filter sample_is_availability (samples r))))
                       (failure_probability (confidence_type r))))"

definition Reliability_is_availability :: "permill_lib \<Rightarrow> 'g1 Reliability \<Rightarrow> bool" where
  "Reliability_is_availability pm r =
     ReliabilityType_is_availability pm (confidence_type r) (of_nat (length (samples r))) (of_nat (success_count r))"

definition Reliability_save :: "'s DasKv \<Rightarrow> 'g1 Reliability codec \<Rightarrow> 'g1 Reliability \<Rightarrow> bytes \<Rightarrow> 's \<Rightarrow> 's" where
  "Reliability_save kv rc r rid db = kv_set kv db rid (encode rc r)"

definition Reliability_get :: "'s DasKv \<Rightarrow> 'g1 Reliability codec \<Rightarrow> bytes \<Rightarrow> 's \<Rightarrow> 'g1 Reliability option" where
  "Reliability_get kv rc rid db = Option.bind (kv_get kv db rid) (decode rc)"

definition get_confidence :: "'s DasKv \<Rightarrow> 'g1 Reliability codec \<Rightarrow> bytes \<Rightarrow> 's \<Rightarrow> 'g1 Reliability option" where
  "get_confidence kv rc rid db = Reliability_get kv rc rid db"

definition Reliability_remove :: "'s DasKv \<Rightarrow> 'g1 Reliability \<Rightarrow> bytes \<Rightarrow> 's \<Rightarrow> 's" where
  "Reliability_remove kv r rid db = kv_remove kv db rid"

fun update_first :: "('a \<Rightarrow> bool) \<Rightarrow> ('a \<Rightarrow> 'a) \<Rightarrow> 'a list \<Rightarrow> 'a list" where
  "update_first P f [] = []"
| "update_first P f (x # xs) = (if P x then f x # xs else x # update_first P f xs)"

definition set_sample_success :: "'g1 Reliability \<Rightarrow> Position \<Rightarrow> 'g1 Reliability" where
  "set_sample_success r pos =
     r\<lparr> samples := update_first (\<lambda>s. sample_position s = pos) Sample_set_success (samples r) \<rparr>"

definition verify_sample ::
  "('fr, 'g1, 'g2, 'fs, 'fk) kzg_lib \<Rightarrow> bytes \<Rightarrow> 'g1 Reliability \<Rightarrow> Position \<Rightarrow> ('fr, 'g1) Segment \<Rightarrow> bool res" where
  "verify_sample L settings_bytes r pos segment =
     res_bind (default_embedded L settings_bytes) (\<lambda>kzg.
     if pos_y pos \<ge> of_nat (length (rel_commitments r)) then Inr False
     else res_bind (index_res (rel_commitments r) (unat (pos_y pos))) (\<lambda>commitment.
          res_bind (Segment_checked segment) (\<lambda>seg.
          Segment_verify L seg kzg commitment FIELD_ELEMENTS_PER_SEGMENT)))"

section \<open>Random sample positions\<close>

text \<open>The loop draws until it has \<open>n\<close> different positions. The generator is the sequence of the
  pairs it gives; \<open>None\<close> means that the loop has not returned after these draws.\<close>

fun draw_positions ::
  "(nat \<times> nat) list \<Rightarrow> nat \<Rightarrow> 'g1 list \<Rightarrow> Position list \<Rightarrow> 'g1 list \<Rightarrow> (Position list \<times> 'g1 list) res option" where
  "draw_positions draws n self_commitments positions commitments =
     (if \<not> length positions < n then Some (Inr (positions, commitments))
      else case draws of
             [] \<Rightarrow> None
           | (dx, dy) # rest \<Rightarrow>
               let pos = \<lparr> pos_x = of_nat dx, pos_y = of_nat dy \<rparr> in
               if pos \<notin> set positions
               then case index_res self_commitments (unat (pos_y pos)) of
                      Inl e \<Rightarrow> Some (Inl e)
                    | Inr c \<Rightarrow> draw_positions rest n self_commitments (positions @ [pos]) (commitments @ [c])
               else draw_positions rest n self_commitments positions commitments)"

declare draw_positions.simps [simp del]

definition block_sample_of ::
  "Position codec \<Rightarrow> AppLookup list \<Rightarrow> bytes \<Rightarrow> u32 \<Rightarrow> Position \<Rightarrow> Sample res" where
  "block_sample_of pc app_lookups block_hash column_count pos =
     (if pos_y pos < column_count div 2
      then case AppLookup_get_lookup app_lookups (pos_y pos) of
             None \<Rightarrow> Inl (Err ''AppLookup not found for position'')
           | Some (lookup, relative_y) \<Rightarrow>
               Inr \<lparr> sample_id = sample_key pc (al_app_id lookup) (al_nonce lookup) \<lparr> pos_x = pos_x pos, pos_y = relative_y \<rparr>,
                     sample_position = pos, sample_is_availability = False \<rparr>
      else Inr \<lparr> sample_id = sample_key_from_block pc block_hash pos, sample_position = pos,
                 sample_is_availability = False \<rparr>)"

definition set_sample ::
  "Position codec \<Rightarrow> 'g1 Reliability \<Rightarrow> nat \<Rightarrow> AppLookup list \<Rightarrow> bytes option \<Rightarrow> (nat \<times> nat) list
    \<Rightarrow> ('g1 list \<times> 'g1 Reliability) res option" where
  "set_sample pc r n app_lookups block_hash draws =
     (let column_count = of_nat (length (rel_commitments r)) :: u32 in
      if column_count = 0 then Some (Inr ([], r))
      else case draw_positions draws n (rel_commitments r) [] [] of
             None \<Rightarrow> None
           | Some (Inl e) \<Rightarrow> Some (Inl e)
           | Some (Inr (positions, commitments)) \<Rightarrow>
               Some (res_map (\<lambda>ss. (commitments, r\<lparr> samples := ss \<rparr>))
                 (case confidence_type r of
                    App \<Rightarrow>
                      (case app_lookups of
                         [] \<Rightarrow> Inl (Err ''No app lookups available'')
                       | app_lookup # _ \<Rightarrow>
                           Inr (map (\<lambda>pos. \<lparr> sample_id = sample_key pc (al_app_id app_lookup) (al_nonce app_lookup) pos,
                                             sample_position = pos, sample_is_availability = False \<rparr>) positions))
                  | Block \<Rightarrow>
                      (case block_hash of
                         None \<Rightarrow> Inl (Err ''Block hash not provided'')
                       | Some bh \<Rightarrow> traverse (block_sample_of pc app_lookups bh column_count) positions))))"

section \<open>Runs of successful samples\<close>

definition run :: "bool list \<Rightarrow> nat \<Rightarrow> nat \<Rightarrow> bool" where
  "run bs i n \<longleftrightarrow> i + n \<le> length bs \<and> (\<forall>j < n. bs ! (i + j))"

definition run_step :: "nat \<times> nat \<Rightarrow> bool \<Rightarrow> nat \<times> nat" where
  "run_step = (\<lambda>(m, c) b. if b then (max m (c + 1), c + 1) else (m, 0))"

lemma run_0 [simp]: "i \<le> length bs \<Longrightarrow> run bs i 0"
  by (simp add: run_def)

lemma run_bound: "run bs i n \<Longrightarrow> i + n \<le> length bs"
  by (simp add: run_def)

lemma run_map: "run (map f xs) i n \<longleftrightarrow> i + n \<le> length xs \<and> (\<forall>j < n. f (xs ! (i + j)))"
  by (auto simp: run_def)

lemma run_snoc:
  "run (bs @ [b]) i n \<longleftrightarrow> run bs i n \<or> (0 < n \<and> i + n = Suc (length bs) \<and> b \<and> run bs i (n - 1)) \<or>
     (n = 0 \<and> i = Suc (length bs))"
proof -
  have old: "(\<forall>j < m. (bs @ [b]) ! (i + j)) \<longleftrightarrow> (\<forall>j < m. bs ! (i + j))" if "i + m \<le> length bs" for m
    using that by (simp add: nth_append)
  show ?thesis
  proof (cases "i + n \<le> length bs")
    case True
    then show ?thesis using old [OF True] by (simp add: run_def)
  next
    case far: False
    show ?thesis
    proof (cases "n = 0 \<or> Suc (length bs) < i + n")
      case True
      then show ?thesis using far by (auto simp: run_def)
    next
      case False
      then obtain m where m: "n = Suc m" "i + m = length bs" using far by (cases n) auto
      have "(\<forall>j < Suc m. (bs @ [b]) ! (i + j)) \<longleftrightarrow> (\<forall>j < m. (bs @ [b]) ! (i + j)) \<and> b"
        using m(2) by (auto simp: less_Suc_eq)
      then show ?thesis using m old [of m] by (simp add: run_def conj_commute)
    qed
  qed
qed

lemma run_fold:
  "let (m, c) = foldl run_step (0, 0) bs in
     c \<le> length bs \<and> run bs (length bs - c) c \<and> (\<forall>i n. i + n = length bs \<longrightarrow> run bs i n \<longrightarrow> n \<le> c) \<and>
     (\<exists>i. run bs i m) \<and> (\<forall>i n. run bs i n \<longrightarrow> n \<le> m)"
proof (induction bs rule: rev_induct)
  case Nil
  then show ?case by (auto simp: run_def)
next
  case (snoc b bs)
  obtain m c where mc: "foldl run_step (0, 0) bs = (m, c)" by (cases "foldl run_step (0, 0) bs")
  with snoc have c: "c \<le> length bs" "run bs (length bs - c) c"
      "\<And>i n. i + n = length bs \<Longrightarrow> run bs i n \<Longrightarrow> n \<le> c"
    and m: "\<exists>i. run bs i m" "\<And>i n. run bs i n \<Longrightarrow> n \<le> m" by auto
  show ?case
  proof (cases b)
    case True
    have last: "run (bs @ [b]) (length bs - c) (Suc c)" using True c(1,2) by (simp add: run_snoc)
    have trail: "n \<le> Suc c" if "run (bs @ [b]) i n" "i + n = Suc (length bs)" for i n
    proof -
      have "\<not> run bs i n" using that(2) by (simp add: run_def)
      then show ?thesis using that c(3) [of i "n - 1"] by (cases n) (auto simp: run_snoc)
    qed
    have top: "n \<le> max m (Suc c)" if "run (bs @ [b]) i n" for i n
      using that m(2) [of i n] c(3) [of i "n - 1"] by (cases n) (auto simp: run_snoc le_max_iff_disj)
    have "\<exists>i. run (bs @ [b]) i (max m (Suc c))"
      using m(1) last by (cases "m \<le> Suc c") (auto simp: max_def run_snoc)
    then show ?thesis using mc True c(1) last trail top by (simp add: run_step_def Let_def)
  next
    case False
    then show ?thesis using mc m by (auto simp: run_step_def run_snoc dest: run_bound)
  qed
qed

lemma success_count_fold: "success_count r = fst (foldl run_step (0, 0) (map sample_is_availability (samples r)))"
  by (simp add: success_count_def run_step_def foldl_map case_prod_unfold)

lemma success_count_run:
  "(\<exists>i. run (map sample_is_availability (samples r)) i (success_count r)) \<and>
   (\<forall>i n. run (map sample_is_availability (samples r)) i n \<longrightarrow> n \<le> success_count r)"
  using run_fold [of "map sample_is_availability (samples r)"] unfolding success_count_fold
  by (cases "foldl run_step (0, 0) (map sample_is_availability (samples r))") simp

lemma length_update_first [simp]: "length (update_first P f xs) = length xs"
  by (induction xs) auto

lemma update_first_nth:
  "i < length xs \<Longrightarrow> update_first P f xs ! i =
     (if P (xs ! i) \<and> (\<forall>j < i. \<not> P (xs ! j)) then f (xs ! i) else xs ! i)"
proof (induction xs arbitrary: i)
  case (Cons x xs)
  have all: "(\<forall>j < Suc i. Q j) \<longleftrightarrow> Q 0 \<and> (\<forall>j < i. Q (Suc j))" for Q and i :: nat
    by (auto simp: less_Suc_eq_0_disj)
  show ?case using Cons by (cases i) (auto simp: all)
qed simp

lemma success_count_mono:
  assumes "length (samples r) = length (samples r')"
    and "\<And>i. i < length (samples r) \<Longrightarrow> sample_is_availability (samples r ! i) \<Longrightarrow> sample_is_availability (samples r' ! i)"
  shows "success_count r \<le> success_count r'"
proof -
  from success_count_run [of r] obtain i where "run (map sample_is_availability (samples r)) i (success_count r)" by blast
  then have "run (map sample_is_availability (samples r')) i (success_count r)"
    using assms by (auto simp: run_def)
  then show ?thesis using success_count_run [of r'] by blast
qed

lemma success_count_le: "success_count r \<le> length (samples r)"
  using success_count_run [of r] by (auto simp: run_def)

section \<open>Properties\<close>

text \<open>\<open>success_count\<close> is the length of the longest run of successful samples: there is a run of that
  length, and no run is longer.\<close>

theorem success_count_longest_run:
  "(\<exists>i. i + success_count r \<le> length (samples r) \<and>
      (\<forall>j < success_count r. sample_is_availability (samples r ! (i + j)))) \<and>
   (\<forall>i n. i + n \<le> length (samples r) \<longrightarrow> (\<forall>j < n. sample_is_availability (samples r ! (i + j))) \<longrightarrow> n \<le> success_count r)"
  using success_count_run [of r] unfolding run_map by blast

definition sample_at :: "u32 \<Rightarrow> bool \<Rightarrow> Sample" where
  "sample_at px ok = \<lparr> sample_id = [], sample_position = \<lparr> pos_x = px, pos_y = 0 \<rparr>, sample_is_availability = ok \<rparr>"

definition sample_record :: "nat Reliability" where
  "sample_record = \<lparr> samples = [sample_at 0 True, sample_at 1 False, sample_at 2 True, sample_at 3 True],
     rel_commitments = [5, 6], confidence_type = Block \<rparr>"

theorem success_count_longest_run_witness:
  "2 \<le> success_count sample_record \<and> success_count sample_record \<le> 4"
proof -
  have "\<forall>j < 2. sample_is_availability (samples sample_record ! (2 + j))"
    by (auto simp: sample_record_def sample_at_def less_2_cases_iff)
  moreover have "2 + 2 \<le> length (samples sample_record)" by (simp add: sample_record_def)
  ultimately have "2 \<le> success_count sample_record" using success_count_longest_run [of sample_record] by blast
  moreover obtain i where "i + success_count sample_record \<le> length (samples sample_record)"
    using success_count_longest_run [of sample_record] by blast
  ultimately show ?thesis by (simp add: sample_record_def)
qed

text \<open>Marking a sample as found only improves a record: it marks the first sample at the position and
  changes nothing else, the success count does not fall, and a record that counts as available stays
  available.\<close>

theorem set_sample_success_monotone:
  assumes "length (samples r) < 2 ^ 32"
  shows "let r' = set_sample_success r pos in
     length (samples r') = length (samples r) \<and> rel_commitments r' = rel_commitments r \<and>
     (\<forall>i < length (samples r). samples r' ! i =
        (if sample_position (samples r ! i) = pos \<and> (\<forall>j < i. sample_position (samples r ! j) \<noteq> pos)
         then (samples r ! i)\<lparr> sample_is_availability := True \<rparr> else samples r ! i)) \<and>
     success_count r \<le> success_count r' \<and>
     (Reliability_is_availability pm r \<longrightarrow> Reliability_is_availability pm r')"
proof -
  let ?r' = "set_sample_success r pos"
  have len: "length (samples ?r') = length (samples r)" by (simp add: set_sample_success_def)
  have nth: "\<forall>i < length (samples r). samples ?r' ! i =
        (if sample_position (samples r ! i) = pos \<and> (\<forall>j < i. sample_position (samples r ! j) \<noteq> pos)
         then (samples r ! i)\<lparr> sample_is_availability := True \<rparr> else samples r ! i)"
    by (auto simp: set_sample_success_def update_first_nth Sample_set_success_def)
  have mono: "success_count r \<le> success_count ?r'"
    using len nth by (intro success_count_mono) simp_all
  have "success_count ?r' < 2 ^ 32" using success_count_le [of ?r'] len assms by simp
  then have "(of_nat (success_count r) :: u32) \<le> of_nat (success_count ?r')"
    using mono by (simp add: word_le_nat_alt unat_of_nat_u32 del: of_nat_le_iff) 
  then have "Reliability_is_availability pm r \<longrightarrow> Reliability_is_availability pm ?r'"
    using len by (auto simp: Reliability_is_availability_def ReliabilityType_is_availability_def
        set_sample_success_def split: ReliabilityType.splits)
  then show ?thesis using len nth mono by (simp add: Let_def) (simp add: set_sample_success_def)
qed

theorem set_sample_success_monotone_witness:
  "success_count sample_record \<le> success_count (set_sample_success sample_record \<lparr> pos_x = 1, pos_y = 0 \<rparr>)"
  using set_sample_success_monotone [of sample_record "\<lparr> pos_x = 1, pos_y = 0 \<rparr>"]
  by (simp add: Let_def sample_record_def)

text \<open>A saved record is read back, whatever the store, as long as it keeps the contract of the trait; records
  under other identifiers are untouched, removing it makes it unknown, and the identifiers of two
  submissions are equal only if application and nonce are.\<close>

theorem reliability_persistence:
  assumes "das_kv kv ok" and "ok db" and "decode rc (encode rc r) = Some r"
  shows "Reliability_get kv rc rid (Reliability_save kv rc r rid db) = Some r \<and>
     (rid' \<noteq> rid \<longrightarrow> Reliability_get kv rc rid' (Reliability_save kv rc r rid db) = Reliability_get kv rc rid' db) \<and>
     Reliability_get kv rc rid (Reliability_remove kv r rid db) = None \<and>
     (app_confidence a n = app_confidence a' n' \<longleftrightarrow> a = a' \<and> n = n')"
  using assms
  by (auto simp: Reliability_get_def Reliability_save_def Reliability_remove_def
      das_kv.get_set das_kv.get_remove app_confidence_def)

theorem reliability_persistence_witness:
  "Reliability_get MockDb_kv \<lparr> encode = (\<lambda>_. [1]), decode = (\<lambda>_. Some sample_record) \<rparr> (app_confidence 1 2)
     (Reliability_save MockDb_kv \<lparr> encode = (\<lambda>_. [1]), decode = (\<lambda>_. Some sample_record) \<rparr> sample_record
        (app_confidence 1 2) MockDb_new) = Some sample_record"
  using reliability_persistence [OF mock_kv.das_kv_axioms, where db = MockDb_new and r = sample_record
      and rc = "\<lparr> encode = (\<lambda>_. [1]), decode = (\<lambda>_. Some sample_record) \<rparr>"] by simp

section \<open>Properties of random sampling\<close>

definition pos_of :: "nat \<times> nat \<Rightarrow> Position" where
  "pos_of d = \<lparr> pos_x = of_nat (fst d), pos_y = of_nat (snd d) \<rparr>"

definition draws_in_range :: "nat \<Rightarrow> (nat \<times> nat) list \<Rightarrow> bool" where
  "draws_in_range columns draws \<longleftrightarrow> (\<forall>d \<in> set draws. fst d < EXTENDED_SEGMENTS_PER_BLOB \<and> snd d < columns)"

lemma extended_256: "EXTENDED_SEGMENTS_PER_BLOB = 256"
  by (simp add: config_defs)

lemma pos_of_inj:
  assumes "columns \<le> 2 ^ 32" and "draws_in_range columns draws"
  shows "inj_on pos_of (set draws)"
proof (rule inj_onI)
  fix d e
  assume d: "d \<in> set draws" and e: "e \<in> set draws" and eq: "pos_of d = pos_of e"
  have small: "fst f < 2 ^ 32 \<and> snd f < 2 ^ 32" if "f \<in> set draws" for f
    using that assms by (auto simp: draws_in_range_def extended_256)
  have "unat (of_nat (fst d) :: u32) = unat (of_nat (fst e) :: u32)" "unat (of_nat (snd d) :: u32) = unat (of_nat (snd e) :: u32)"
    using eq by (simp_all add: pos_of_def)
  then show "d = e" using small [OF d] small [OF e] by (simp add: prod_eq_iff)
qed

lemma draw_positions_returns:
  assumes "length cs < 2 ^ 32" and "draws_in_range (length cs) draws"
    and "distinct ps" and "length ps \<le> n" and "n \<le> card (set ps \<union> pos_of ` set draws)"
  shows "\<exists>ps'. draw_positions draws n cs ps (map (\<lambda>p. cs ! unat (pos_y p)) ps) =
       Some (Inr (ps', map (\<lambda>p. cs ! unat (pos_y p)) ps')) \<and>
     distinct ps' \<and> length ps' = n \<and> set ps' \<subseteq> set ps \<union> pos_of ` set draws"
  using assms(2-)
proof (induction draws arbitrary: ps)
  case Nil
  then have "length ps = n" by (simp add: distinct_card)
  then show ?case using Nil by (simp add: draw_positions.simps)
next
  case (Cons d draws)
  have rest: "draws_in_range (length cs) draws" and d: "snd d < length cs"
    using Cons.prems(1) by (auto simp: draws_in_range_def)
  show ?case
  proof (cases "length ps < n")
    case False
    then show ?thesis using Cons.prems by (auto simp: draw_positions.simps)
  next
    case True
    let ?p = "pos_of d"
    have step: "draw_positions (d # draws) n cs ps qs =
        (if ?p \<in> set ps then draw_positions draws n cs ps qs
         else case index_res cs (unat (pos_y ?p)) of Inl e \<Rightarrow> Some (Inl e)
              | Inr c \<Rightarrow> draw_positions draws n cs (ps @ [?p]) (qs @ [c]))" for qs
      unfolding pos_of_def by (subst draw_positions.simps) (use True in \<open>simp add: Let_def case_prod_unfold\<close>)
    show ?thesis
    proof (cases "?p \<in> set ps")
      case in_ps: True
      then have "set ps \<union> pos_of ` set (d # draws) = set ps \<union> pos_of ` set draws" by auto
      then show ?thesis using Cons.IH [of ps] Cons.prems rest step in_ps by simp
    next
      case False
      have "unat (pos_y ?p) = snd d" using d assms(1) by (simp add: pos_of_def)
      then have idx: "index_res cs (unat (pos_y ?p)) = Inr (cs ! unat (pos_y ?p))" using d by simp
      have "set (ps @ [?p]) \<union> pos_of ` set draws = set ps \<union> pos_of ` set (d # draws)" by auto
      moreover have "distinct (ps @ [?p])" and "length (ps @ [?p]) \<le> n" using False True Cons.prems(2) by auto
      ultimately show ?thesis using Cons.IH [of "ps @ [?p]"] Cons.prems(4) rest step False idx by simp
    qed
  qed
qed

lemma block_sample_of_ok:
  assumes "lookups_len ls < 2 ^ 32" and "column_count div 2 \<le> of_nat (lookups_len ls)"
  shows "\<exists>s. block_sample_of pc ls bh column_count p = Inr s \<and> sample_position s = p \<and> \<not> sample_is_availability s"
proof (cases "pos_y p < column_count div 2")
  case True
  then have "pos_y p < of_nat (lookups_len ls)" using assms(2) by (rule less_le_trans)
  then have "unat (pos_y p) < lookups_len ls" using assms(1) by (simp add: word_less_nat_alt)
  then obtain l off where "AppLookup_get_lookup ls (pos_y p) = Some (l, off)"
    using get_lookup_None_iff [OF assms(1), of "pos_y p"] by (cases "AppLookup_get_lookup ls (pos_y p)") auto
  then show ?thesis using True by (simp add: block_sample_of_def)
next
  case False
  then show ?thesis by (simp add: block_sample_of_def)
qed

text \<open>C22: Sampling terminates with the requested number of different positions: once the generator has given
  as many different pairs as samples are wanted, \<open>set_sample\<close> returns that many samples at
  pairwise different positions inside the extended matrix, none marked available, together with the
  commitment of the row of each; for a block it needs the block hash and a lookup for every original
  row, for an application one lookup.\<close>

theorem set_sample_distinct_positions:
  assumes "rel_commitments r \<noteq> []" and "length (rel_commitments r) < 2 ^ 32"
    and "draws_in_range (length (rel_commitments r)) draws" and "n \<le> card (set draws)"
    and "confidence_type r = App \<Longrightarrow> ls \<noteq> []"
    and "confidence_type r = Block \<Longrightarrow> hash \<noteq> None \<and> lookups_len ls < 2 ^ 32 \<and>
           of_nat (length (rel_commitments r)) div 2 \<le> (of_nat (lookups_len ls) :: u32)"
  shows "\<exists>cs r'. set_sample pc r n ls hash draws = Some (Inr (cs, r')) \<and>
     length (samples r') = n \<and> distinct (map sample_position (samples r')) \<and>
     rel_commitments r' = rel_commitments r \<and> confidence_type r' = confidence_type r \<and>
     cs = map (\<lambda>s. rel_commitments r ! unat (pos_y (sample_position s))) (samples r') \<and>
     (\<forall>s \<in> set (samples r'). unat (pos_x (sample_position s)) < EXTENDED_SEGMENTS_PER_BLOB \<and>
        unat (pos_y (sample_position s)) < length (rel_commitments r) \<and> \<not> sample_is_availability s)"
proof -
  let ?cs = "rel_commitments r" and ?f = "\<lambda>p. rel_commitments r ! unat (pos_y p)"
  have card: "card (pos_of ` set draws) = card (set draws)"
    using pos_of_inj [OF _ assms(3)] assms(2) by (intro card_image) simp
  then obtain ps where ps: "draw_positions draws n ?cs [] [] = Some (Inr (ps, map ?f ps))"
      "distinct ps" "length ps = n" "set ps \<subseteq> pos_of ` set draws"
    using draw_positions_returns [OF assms(2,3), of "[]" n] assms(4) by auto
  have range: "unat (pos_x p) < EXTENDED_SEGMENTS_PER_BLOB \<and> unat (pos_y p) < length ?cs" if "p \<in> set ps" for p
  proof -
    from that ps(4) obtain d where "d \<in> set draws" "p = pos_of d" by auto
    then show ?thesis using assms(2,3) by (auto simp: draws_in_range_def pos_of_def extended_256)
  qed
  have nz: "(of_nat (length ?cs) :: u32) \<noteq> 0"
    using assms(1,2) unat_of_nat_u32 [OF assms(2)] by (metis length_0_conv unsigned_0)
  have "\<exists>ss. (case confidence_type r of
        App \<Rightarrow> (case ls of [] \<Rightarrow> Inl (Err ''No app lookups available'')
          | l # _ \<Rightarrow> Inr (map (\<lambda>pos. \<lparr> sample_id = sample_key pc (al_app_id l) (al_nonce l) pos,
                                      sample_position = pos, sample_is_availability = False \<rparr>) ps))
      | Block \<Rightarrow> (case hash of None \<Rightarrow> Inl (Err ''Block hash not provided'')
          | Some bh \<Rightarrow> traverse (block_sample_of pc ls bh (of_nat (length ?cs))) ps)) = Inr ss \<and>
      map sample_position ss = ps \<and> (\<forall>s \<in> set ss. \<not> sample_is_availability s)"
  proof (cases "confidence_type r")
    case App
    then show ?thesis using assms(5) by (cases ls) (auto simp: comp_def)
  next
    case Block
    with assms(6) obtain bh where bh: "hash = Some bh" by auto
    have pre: "lookups_len ls < 2 ^ 32" "of_nat (length ?cs) div 2 \<le> (of_nat (lookups_len ls) :: u32)"
      using assms(6) [OF Block] by blast+
    obtain g where g: "\<And>p. block_sample_of pc ls bh (of_nat (length ?cs)) p = Inr (g p) \<and>
        sample_position (g p) = p \<and> \<not> sample_is_availability (g p)"
      using block_sample_of_ok [OF pre, of pc bh] by metis
    then have "traverse (block_sample_of pc ls bh (of_nat (length ?cs))) ps = Inr (map g ps)"
      by (intro traverse_all_Inr) blast
    then show ?thesis using Block bh g by (auto simp: comp_def)
  qed
  then obtain ss where "set_sample pc r n ls hash draws = Some (Inr (map ?f ps, r\<lparr> samples := ss \<rparr>))"
      and ss: "map sample_position ss = ps" "\<forall>s \<in> set ss. \<not> sample_is_availability s"
    using ps(1) nz unfolding set_sample_def by (auto simp: Let_def)
  moreover have "length ss = n" using ss(1) ps(3) by (metis length_map)
  moreover have "map ?f ps = map (\<lambda>s. ?f (sample_position s)) ss" by (simp add: ss(1) [symmetric] comp_def)
  ultimately show ?thesis using ps(2) range ss by auto
qed

theorem set_sample_distinct_positions_witness:
  "\<exists>cs r'. set_sample \<lparr> encode = (\<lambda>_. []), decode = (\<lambda>_. None) \<rparr> sample_record 2 sample_lookups (Some [1])
       [(0, 0), (0, 0), (3, 1)] = Some (Inr (cs, r')) \<and>
     length (samples r') = 2 \<and> distinct (map sample_position (samples r'))"
  using set_sample_distinct_positions [of sample_record "[(0, 0), (0, 0), (3, 1)]" 2 sample_lookups "Some [1]"
      "\<lparr> encode = (\<lambda>_. []), decode = (\<lambda>_. None) \<rparr>"]
  by (auto simp: sample_record_def sample_lookups_def draws_in_range_def extended_256)

section \<open>The domain of the verified samples\<close>

lemma domain_pos_shift: "domain_pos 4 i * 8 = domain_pos 7 (i mod 32)"
proof -
  have "push_bit 3 (domain_pos 4 i) = domain_pos 7 (take_bit 5 i)"
  proof (rule bit_eqI)
    fix j :: nat
    show "bit (push_bit 3 (domain_pos 4 i)) j \<longleftrightarrow> bit (domain_pos 7 (take_bit 5 i)) j"
      by (cases "3 \<le> j \<and> j \<le> 7") (auto simp: bit_simps bit_domain_pos)
  qed
  then show ?thesis by (simp add: push_bit_eq_mult take_bit_eq_mod)
qed

text \<open>\<open>verify_sample\<close> passes the number of field elements of a segment where the number of segments of a
  row is expected. On the domain of 4096 points it therefore checks a segment of 16 elements at
  column \<open>x\<close> against the proof position of column \<open>x mod 32\<close>: the check is the right one for the
  first 32 of the 256 columns only.\<close>

theorem verify_sample_position_mod_32:
  assumes "default_embedded L settings = Inr kzg" and "KZG_max_width L kzg = 4096"
    and "Segment_size seg = 16" and "pos_y pos < of_nat (length (rel_commitments r))"
    and "length (rel_commitments r) < 2 ^ 32"
  shows "verify_sample L settings r pos seg =
     Segment_verify L (seg\<lparr> position := (position seg)\<lparr> pos_x := pos_x (position seg) mod 32 \<rparr> \<rparr>) kzg
       (rel_commitments r ! unat (pos_y pos)) SEGMENTS_PER_BLOB"
proof -
  let ?x = "unat (pos_x (position seg))"
  have "get_kzg_index L kzg (2 ^ 4) i 16 = Inr (domain_pos 4 i * 8)" for i
    by (rule get_kzg_index_domain_pos) (simp_all add: assms(2))
  moreover have "get_kzg_index L kzg (2 ^ 7) i 16 = Inr (domain_pos 7 i * 1)" for i
    by (rule get_kzg_index_domain_pos) (simp_all add: assms(2))
  ultimately have idx: "get_kzg_index L kzg 16 ?x 16 = get_kzg_index L kzg 128 (?x mod 32) 16"
    by (simp add: domain_pos_shift)
  have mod: "unat (pos_x (position seg) mod 32) = ?x mod 32" by (simp add: unat_mod)
  have y: "unat (pos_y pos) < length (rel_commitments r)" using assms(4,5) by (simp add: word_less_nat_alt)
  have ne: "sd_data (content seg) \<noteq> []" using assms(3) by (auto simp: Segment_size_def)
  have chk: "Segment_checked seg = Inr seg"
    using assms(3) ne by (simp add: Segment_checked_def Segment_size_def is_power_of_two.simps)
  show ?thesis
    using assms(1,3,4) y chk idx mod
    by (simp add: verify_sample_def Segment_verify_def KZG_check_proof_multi_def config_defs Segment_size_def
        not_le [symmetric])
qed

theorem verify_sample_position_mod_32_witness:
  "\<exists>kzg. verify_sample sample_lib sample_settings
       \<lparr> samples = [], rel_commitments = [[[1]]], confidence_type = Block \<rparr> \<lparr> pos_x = 40, pos_y = 0 \<rparr>
       (Segment_new \<lparr> pos_x = 40, pos_y = 0 \<rparr> (replicate 16 [1]) []) =
     Segment_verify sample_lib (Segment_new \<lparr> pos_x = 8, pos_y = 0 \<rparr> (replicate 16 [1]) []) kzg [[1]] SEGMENTS_PER_BLOB"
proof -
  obtain kzg where "default_embedded sample_lib sample_settings = Inr kzg" "KZG_max_width sample_lib kzg = 4096"
    using sample_default_embedded by blast
  from verify_sample_position_mod_32 [OF this, of "Segment_new \<lparr> pos_x = 40, pos_y = 0 \<rparr> (replicate 16 [1]) []"
      "\<lparr> pos_x = 40, pos_y = 0 \<rparr>" "\<lparr> samples = [], rel_commitments = [[[1]]], confidence_type = Block \<rparr>"]
  show ?thesis by (auto simp: Segment_new_def Segment_size_def)
qed

end
