(* ===== verification/Sidecar.thy ===== *)
theory Sidecar
  imports Erasure Reliability
begin

text \<open>
  Submissions of application data: \<open>SubmitDataParams\<close> (\<open>core-primitives/src/lib.rs\<close>) and the
  sidecar metadata of \<open>core-primitives/src/sidecar.rs\<close>, which commit to the bytes and verify them.
\<close>

section \<open>Parameters of a submission (lib.rs)\<close>

record 'g1 SubmitDataParams =
  sp_app_id :: u32
  sp_bytes_len :: u32
  sp_nonce :: u32
  sp_commitments :: "'g1 list"
  sp_proofs :: "'g1 list"

definition SubmitDataParams_check :: "'g1 SubmitDataParams \<Rightarrow> bool" where
  "SubmitDataParams_check p \<longleftrightarrow>
     length (sp_commitments p) = length (sp_proofs p) \<and> sp_commitments p \<noteq> [] \<and> sp_bytes_len p > 0"

section \<open>Sidecar metadata (sidecar.rs)\<close>

datatype SidecarStatus = NotFound | ProofError | Success

record 'g1 SidecarMetadata =
  sm_app_id :: u32
  sm_bytes_len :: u32
  sm_nonce :: u32
  sm_commitments :: "'g1 list"
  sm_proofs :: "'g1 list"

definition SidecarMetadata_new :: "u32 \<Rightarrow> u32 \<Rightarrow> u32 \<Rightarrow> 'g1 list \<Rightarrow> 'g1 list \<Rightarrow> 'g1 SidecarMetadata" where
  "SidecarMetadata_new app_id bytes_len nonce cs prs =
     \<lparr> sm_app_id = app_id, sm_bytes_len = bytes_len, sm_nonce = nonce, sm_commitments = cs, sm_proofs = prs \<rparr>"

definition SidecarMetadata_check :: "'g1 SidecarMetadata \<Rightarrow> bool" where
  "SidecarMetadata_check m \<longleftrightarrow>
     length (sm_commitments m) = length (sm_proofs m) \<and> sm_commitments m \<noteq> [] \<and> sm_bytes_len m > 0"

definition SidecarMetadata_confidence_id :: "'g1 SidecarMetadata \<Rightarrow> bytes" where
  "SidecarMetadata_confidence_id m = app_confidence (sm_app_id m) (sm_nonce m)"

definition SidecarMetadata_id :: "(bytes \<Rightarrow> bytes) \<Rightarrow> 'g1 SidecarMetadata codec \<Rightarrow> 'g1 SidecarMetadata \<Rightarrow> bytes" where
  "SidecarMetadata_id blake2_256 mc m = blake2_256 (encode mc m)"

definition verify_bytes ::
  "('fr, 'g1, 'g2, 'fs, 'fk) kzg_lib \<Rightarrow> bytes \<Rightarrow> 'g1 SidecarMetadata \<Rightarrow> bytes \<Rightarrow> bool res" where
  "verify_bytes L settings_bytes m bs =
     res_bind (default_embedded L settings_bytes) (\<lambda>kzg.
     res_bind (bytes_to_blobs L bs FIELD_ELEMENTS_PER_BLOB) (\<lambda>blobs.
     Blob_verify_batch L blobs (sm_commitments m) (sm_proofs m) kzg FIELD_ELEMENTS_PER_BLOB))"

definition err_prefix :: "string \<Rightarrow> fail \<Rightarrow> fail" where
  "err_prefix msg e = (case e of Err s \<Rightarrow> Err (msg @ s) | ErrN s ns \<Rightarrow> ErrN (msg @ s) ns | Panic s \<Rightarrow> Panic s)"

definition try_from_app_data ::
  "('fr, 'g1, 'g2, 'fs, 'fk) kzg_lib \<Rightarrow> bytes \<Rightarrow> bytes \<Rightarrow> u32 \<Rightarrow> u32 \<Rightarrow> 'g1 SidecarMetadata res" where
  "try_from_app_data L settings_bytes bs app_id nonce =
     res_bind (default_embedded L settings_bytes) (\<lambda>kzg.
     let data_len = of_nat (length bs) in
     res_bind (bytes_to_blobs L bs FIELD_ELEMENTS_PER_BLOB) (\<lambda>blobs.
     case traverse (\<lambda>blob. Blob_commit_and_proof L blob kzg FIELD_ELEMENTS_PER_BLOB) blobs of
       Inl e \<Rightarrow> Inl (err_prefix ''Failed to commit and proof: '' e)
     | Inr results \<Rightarrow>
         let (commitments, proofs) = (map fst results, map snd results) in
         Inr \<lparr> sm_app_id = app_id, sm_bytes_len = data_len, sm_nonce = nonce,
               sm_commitments = commitments, sm_proofs = proofs \<rparr>))"

record 'g1 Sidecar =
  sc_metadata :: "'g1 SidecarMetadata"
  sc_status :: "SidecarStatus option"

definition Sidecar_new :: "'g1 SidecarMetadata \<Rightarrow> 'g1 Sidecar" where
  "Sidecar_new m = \<lparr> sc_metadata = m, sc_status = None \<rparr>"

definition Sidecar_id :: "(bytes \<Rightarrow> bytes) \<Rightarrow> 'g1 SidecarMetadata codec \<Rightarrow> 'g1 Sidecar \<Rightarrow> bytes" where
  "Sidecar_id blake2_256 mc s = SidecarMetadata_id blake2_256 mc (sc_metadata s)"

definition calculate_id :: "(bytes \<Rightarrow> bytes) \<Rightarrow> bytes \<Rightarrow> bytes" where
  "calculate_id blake2_256 blob = blake2_256 blob"

definition is_unavailability :: "'g1 Sidecar \<Rightarrow> bool" where
  "is_unavailability s \<longleftrightarrow> sc_status s \<noteq> Some Success \<and> sc_status s \<noteq> None"

definition set_not_found :: "'g1 Sidecar \<Rightarrow> 'g1 Sidecar" where
  "set_not_found s = s\<lparr> sc_status := Some NotFound \<rparr>"

section \<open>Properties\<close>

text \<open>The commitment and proof routines accept every polynomial of the size of a blob and give valid
  points.\<close>

definition kzg_total :: "('fr, 'g1, 'g2, 'fs, 'fk) kzg_lib \<Rightarrow> ('g1, 'g2, 'fs) FsKZGSettings \<Rightarrow> nat \<Rightarrow> bool" where
  "kzg_total L s n \<longleftrightarrow>
     (\<forall>p x. length p = n \<longrightarrow>
        (\<exists>c pr. commit_to_poly L s p = Inr c \<and> ks_compute_proof_single L s p x = Inr pr \<and>
           g1_is_valid L c \<and> g1_is_valid L pr))"

lemma commit_and_proof_total:
  assumes "kzg_total L (ks kzg) fe" and "encoding_documented L" and "is_power_of_two fe"
    and "length (scalars b) = fe" and "32 + 32 * fe + BYTES_PER_G1 L \<le> CHALLENGE_INPUT_SIZE L"
  shows "\<exists>c pr. Blob_commit_and_proof L b kzg fe = Inr (c, pr) \<and> g1_is_valid L c \<and> g1_is_valid L pr"
proof -
  from assms(1,4) obtain c where c: "commit_to_poly L (ks kzg) (scalars b) = Inr c" "g1_is_valid L c"
    unfolding kzg_total_def by blast
  obtain x where x: "compute_challenge L (scalars b) c (BYTES_PER_FIELD_ELEMENT * fe) fe = Inr x"
    using compute_challenge_layout [OF assms(2), of "scalars b" "32 * fe" c fe] assms(4,5)
    by (simp add: BYTES_PER_FIELD_ELEMENT_def)
  from assms(1,4) obtain pr where "ks_compute_proof_single L (ks kzg) (scalars b) x = Inr pr" "g1_is_valid L pr"
    unfolding kzg_total_def by blast
  then show ?thesis using c x assms(3)
    by (simp add: blob_proof_defs check_field_elements_per_blob_def)
qed

lemma app_data_metadata:
  assumes "default_embedded L settings = Inr kzg"
    and "scalar_documented L" and "encoding_documented L"
    and "32 + 32 * FIELD_ELEMENTS_PER_BLOB + BYTES_PER_G1 L \<le> CHALLENGE_INPUT_SIZE L"
    and "kzg_total L (ks kzg) FIELD_ELEMENTS_PER_BLOB" and "kzg_complete L (ks kzg)" and "kzg_batch_complete L (ks kzg)"
    and "bs \<noteq> []" and "length bs < 2 ^ 32"
  shows "\<exists>m. try_from_app_data L settings bs app_id nonce = Inr m \<and> SidecarMetadata_check m \<and>
     sm_app_id m = app_id \<and> sm_nonce m = nonce \<and> unat (sm_bytes_len m) = length bs \<and>
     length (sm_commitments m) = (length bs + 2048 * 31 - 1) div (2048 * 31) \<and>
     verify_bytes L settings m bs = Inr True"
proof -
  let ?fe = "FIELD_ELEMENTS_PER_BLOB"
  have fe: "is_power_of_two ?fe"
    using is_power_of_two_power [of 11] by (simp add: FIELD_ELEMENTS_PER_BLOB_def)
  obtain blobs where blobs: "bytes_to_blobs L bs ?fe = Inr blobs"
      "length blobs = (length bs + 2048 * 31 - 1) div (2048 * 31)" "\<forall>b \<in> set blobs. length (scalars b) = ?fe"
    using bytes_to_blobs_ok [OF assms(2) fe assms(8)]
    by (auto simp: list_all_iff FIELD_ELEMENTS_PER_BLOB_def SCALAR_SAFE_BYTES_def)
  have "\<forall>b \<in> set blobs. \<exists>cp. Blob_commit_and_proof L b kzg ?fe = Inr cp \<and> g1_is_valid L (fst cp) \<and> g1_is_valid L (snd cp)"
    using commit_and_proof_total [OF assms(5,3) fe _ assms(4)] blobs(3) by fastforce
  then obtain g where g: "\<And>b. b \<in> set blobs \<Longrightarrow> Blob_commit_and_proof L b kzg ?fe = Inr (g b) \<and>
      g1_is_valid L (fst (g b)) \<and> g1_is_valid L (snd (g b))" by metis
  let ?cps = "map g blobs"
  have tr: "traverse (\<lambda>b. Blob_commit_and_proof L b kzg ?fe) blobs = Inr ?cps" using g by (intro traverse_all_Inr) blast
  have ver: "Blob_verify_batch L blobs (map fst ?cps) (map snd ?cps) kzg ?fe = Inr True"
    using g by (intro Blob_verify_batch_ok assms fe) (auto simp: list_all2_conv_all_nth)
  let ?m = "\<lparr> sm_app_id = app_id, sm_bytes_len = of_nat (length bs), sm_nonce = nonce,
      sm_commitments = map fst ?cps, sm_proofs = map snd ?cps \<rparr>"
  have m: "try_from_app_data L settings bs app_id nonce = Inr ?m"
    using assms(1) blobs(1) tr by (simp add: try_from_app_data_def)
  have vb: "verify_bytes L settings ?m bs = Inr True"
    using assms(1) blobs(1) ver by (simp add: verify_bytes_def)
  have len: "unat (of_nat (length bs) :: u32) = length bs" using assms(9) by (rule unat_of_nat_u32)
  have "0 < length bs" using assms(8) by simp
  then have "0 < (of_nat (length bs) :: u32)" using len by (simp add: word_less_nat_alt)
  moreover have "0 < length blobs" using blobs(2) \<open>0 < length bs\<close> by (simp add: div_greater_zero_iff del: length_greater_0_conv)
  ultimately have "SidecarMetadata_check ?m" by (simp add: SidecarMetadata_check_def)
  then show ?thesis using m vb len blobs(2) by (intro exI [of _ ?m]) simp
qed

text \<open>C19: Metadata made from application data describe exactly these data. For any non-empty bytes, fewer than \<open>2 ^ 32\<close>,
  \<open>try_from_app_data\<close> succeeds; the metadata pass \<open>check\<close>, carry the length, the application
  and the nonce, have one commitment and one proof per blob, and \<open>verify_bytes\<close> accepts the
  bytes.\<close>

theorem app_data_verifies:
  assumes "default_embedded L settings = Inr kzg"
    and "scalar_documented L" and "encoding_documented L"
    and "32 + 32 * FIELD_ELEMENTS_PER_BLOB + BYTES_PER_G1 L \<le> CHALLENGE_INPUT_SIZE L"
    and "kzg_total L (ks kzg) FIELD_ELEMENTS_PER_BLOB" and "kzg_complete L (ks kzg)" and "kzg_batch_complete L (ks kzg)"
    and "bs \<noteq> []" and "length bs < 2 ^ 32"
  shows "\<exists>m. try_from_app_data L settings bs app_id nonce = Inr m \<and> SidecarMetadata_check m \<and>
     sm_app_id m = app_id \<and> sm_nonce m = nonce \<and> unat (sm_bytes_len m) = length bs \<and>
     length (sm_commitments m) = (length bs + 2048 * 31 - 1) div (2048 * 31) \<and>
     verify_bytes L settings m bs = Inr True"
  using app_data_metadata [OF assms] .

theorem app_data_verifies_witness:
  "\<exists>m. try_from_app_data sample_lib sample_settings [1, 2, 3] 7 0 = Inr m \<and> SidecarMetadata_check m \<and>
     verify_bytes sample_lib sample_settings m [1, 2, 3] = Inr True"
proof -
  obtain kzg where "default_embedded sample_lib sample_settings = Inr kzg" using sample_default_embedded by blast
  moreover have "kzg_total sample_lib s n" "kzg_complete sample_lib s" "kzg_batch_complete sample_lib s" for s n
    by (auto simp: kzg_total_def kzg_complete_def kzg_batch_complete_def sample_lib_def list_all2_conv_all_nth)
  moreover have "32 + 32 * FIELD_ELEMENTS_PER_BLOB + BYTES_PER_G1 sample_lib \<le> CHALLENGE_INPUT_SIZE sample_lib"
    by (simp add: sample_lib_def FIELD_ELEMENTS_PER_BLOB_def)
  ultimately show ?thesis
    using app_data_verifies [of sample_lib sample_settings kzg "[1, 2, 3]" 7 0] sample_scalar_documented
      sample_encoding_documented by auto
qed

end
