(* ===== verification/Melo_Store.thy ===== *)
theory Melo_Store
  imports Sidecar
begin

text \<open>
  The pallet \<open>pallet-melo-store\<close>: the storage of the pallet as a record, its calls as functions on
  that record, the votes on unavailable data, the hooks, the off-chain reports and the two traits the
  rest of the runtime reads the commitments through.

  A storage map with \<open>ValueQuery\<close> is a total function, one without is a partial one.
  \<open>try_mutate\<close> writes only when its closure succeeds. \<open>dispatch\<close> is the storage layer around
  every call: a call that fails leaves no trace in the storage.
\<close>

section \<open>Data and storage (lib.rs 60 to 295)\<close>

definition DELAY_CHECK_THRESHOLD :: u32 where "DELAY_CHECK_THRESHOLD = 1"

record ReportStatus =
  rs_at_block :: u32
  rs_sent_at :: u32

definition is_recent :: "ReportStatus \<Rightarrow> u32 \<Rightarrow> u32 \<Rightarrow> bool" where
  "is_recent st at_block now \<longleftrightarrow> rs_at_block st = at_block \<and> rs_sent_at st + DELAY_CHECK_THRESHOLD > now"

datatype OffchainErr = WaitingForInclusion u32 | FailedSigning | FailedToAcquireLock | SubmitTransaction

record UnavailableDataReport =
  ur_at_block :: u32
  ur_authority_index :: u32
  ur_index_set :: "u32 list"
  ur_validators_len :: u32

record ('acc, 'g1) BlobMetadata =
  bm_app_id :: u32
  bm_from :: 'acc
  bm_commitments :: "'g1 list"
  bm_proofs :: "'g1 list"
  bm_bytes_len :: u32
  bm_is_available :: bool
  bm_nonce :: u32

record StoreConfig =
  MaxKeys :: nat
  MaxBlobNum :: nat

datatype ('acc, 'g1) Event =
    DataReceived u32 'acc u32 u32 "'g1 list" "'g1 list"
  | ReportReceived u32 u32
  | AppIdRegistered u32 'acc

datatype StoreError =
    BadOrigin
  | ExceedMaxBlobLimit
  | AppIdError
  | ExceedMaxBlobPerBlock
  | ExceedUnavailableDataConfirmTime
  | IndexSetIsEmpty
  | DataNotExist
  | DuplicateReportSubmission
  | ExceedMaxTotalVotes
  | ReportForFutureBlock
  | SubmittedDataIsInvalid
  | InvalidKey
  | NonceError

record ('acc, 'g1, 'auth) Store =
  st_block_number :: u32
  st_Metadata :: "u32 \<Rightarrow> ('acc, 'g1) BlobMetadata list"
  st_CommitmentsExt :: "u32 \<Rightarrow> 'g1 list option"
  st_Keys :: "'auth list"
  st_AppId :: u32
  st_Nonces :: "u32 \<Rightarrow> u32"
  st_UnavailableVote :: "u32 \<Rightarrow> u32 \<Rightarrow> u32 list option"
  st_events :: "('acc, 'g1) Event list"

datatype 'acc Origin = Signed 'acc | Unsigned

definition deposit_event :: "('acc, 'g1) Event \<Rightarrow> ('acc, 'g1, 'auth) Store \<Rightarrow> ('acc, 'g1, 'auth) Store" where
  "deposit_event ev s = s\<lparr> st_events := st_events s @ [ev] \<rparr>"

definition dispatch :: "('s \<Rightarrow> ('e + unit) \<times> 's) \<Rightarrow> 's \<Rightarrow> ('e + unit) \<times> 's" where
  "dispatch call s = (case call s of (Inl e, _) \<Rightarrow> (Inl e, s) | (Inr u, s') \<Rightarrow> (Inr u, s'))"

section \<open>Calls (lib.rs 297 to 443)\<close>

definition u32_saturating_add :: "u32 \<Rightarrow> u32 \<Rightarrow> u32" where
  "u32_saturating_add a b = (if unat a + unat b < 2 ^ 32 then a + b else - 1)"

definition submit_data ::
  "StoreConfig \<Rightarrow> 'acc Origin \<Rightarrow> 'g1 SidecarMetadata \<Rightarrow> ('acc, 'g1, 'auth) Store
    \<Rightarrow> (StoreError + unit) \<times> ('acc, 'g1, 'auth) Store" where
  "submit_data cfg origin params s =
     (case origin of
        Unsigned \<Rightarrow> (Inl BadOrigin, s)
      | Signed who \<Rightarrow>
          if \<not> SidecarMetadata_check params then (Inl SubmittedDataIsInvalid, s)
          else case blob_count (unat (sm_bytes_len params)) BYTES_PER_BLOB of
            Inl _ \<Rightarrow> (Inl ExceedMaxBlobLimit, s)
          | Inr blob_num \<Rightarrow>
          if \<not> blob_num \<le> MaxBlobNum cfg then (Inl ExceedMaxBlobLimit, s)
          else
            let current_app_id = st_AppId s in
            if \<not> sm_app_id params \<le> current_app_id then (Inl AppIdError, s)
            else
              let current_nonce = st_Nonces s current_app_id in
              if sm_nonce params \<noteq> u32_saturating_add current_nonce 1
              then (Inl NonceError, s)
              else if MaxBlobNum cfg < length (sm_commitments params) then (Inl ExceedMaxBlobPerBlock, s)
              else if MaxBlobNum cfg < length (sm_proofs params) then (Inl ExceedMaxBlobPerBlock, s)
              else
                let metadata = \<lparr> bm_app_id = sm_app_id params, bm_from = who, bm_commitments = sm_commitments params,
                                 bm_proofs = sm_proofs params, bm_bytes_len = sm_bytes_len params,
                                 bm_is_available = True, bm_nonce = sm_nonce params \<rparr>;
                    current_block_number = st_block_number s;
                    metadata_vec = st_Metadata s current_block_number;
                    metadata_len = length metadata_vec in
                if MaxKeys cfg \<le> metadata_len then (Inl ExceedMaxBlobPerBlock, s)
                else
                  let s1 = s\<lparr> st_Metadata := (st_Metadata s)(current_block_number := metadata_vec @ [metadata]) \<rparr>;
                      s2 = s1\<lparr> st_Nonces := (st_Nonces s1)(current_app_id := sm_nonce params) \<rparr>;
                      ev = DataReceived (sm_bytes_len params) who (sm_app_id params) (of_nat metadata_len)
                             (sm_commitments params) (sm_proofs params)
                  in (Inr (), deposit_event ev s2))"

text \<open>One vote: the list of voters of the entry and the availability flag of the entry.
  \<open>Permill::from_percent(50)\<close> is 500000 millionths.\<close>

definition UNAVAILABILITY_THRESHOLD :: u32 where "UNAVAILABILITY_THRESHOLD = 500000"

definition handle_vote ::
  "StoreConfig \<Rightarrow> permill_lib \<Rightarrow> u32 \<Rightarrow> u32 \<Rightarrow> u32 \<Rightarrow> ('acc, 'g1) BlobMetadata \<Rightarrow> ('acc, 'g1, 'auth) Store
    \<Rightarrow> StoreError + (('acc, 'g1) BlobMetadata \<times> ('acc, 'g1, 'auth) Store)" where
  "handle_vote cfg pm at_block authority_index metadata_index metadata s =
     (let threshold = pm_mul_floor pm UNAVAILABILITY_THRESHOLD (of_nat (length (st_Keys s)));
          finish = (\<lambda>vote vote_num.
            Inr (if of_nat vote_num > threshold then metadata\<lparr> bm_is_available := False \<rparr> else metadata,
                 s\<lparr> st_UnavailableVote := (st_UnavailableVote s)(at_block :=
                      (st_UnavailableVote s at_block)(metadata_index := Some vote)) \<rparr>))
      in case st_UnavailableVote s at_block metadata_index of
           Some unavailable_vote \<Rightarrow>
             if authority_index \<in> set unavailable_vote then Inl DuplicateReportSubmission
             else if MaxBlobNum cfg \<le> length unavailable_vote then Inl ExceedMaxTotalVotes
             else finish (unavailable_vote @ [authority_index]) (length (unavailable_vote @ [authority_index]))
         | None \<Rightarrow>
             if MaxBlobNum cfg \<le> 0 then Inl ExceedMaxTotalVotes
             else finish [authority_index] 1)"

text \<open>The loop of \<open>report\<close> works on a copy of the metadata of the block, which is stored only when
  every index was handled; the votes are stored as it goes.\<close>

fun report_loop ::
  "StoreConfig \<Rightarrow> permill_lib \<Rightarrow> u32 \<Rightarrow> u32 \<Rightarrow> u32 list \<Rightarrow> ('acc, 'g1) BlobMetadata list \<Rightarrow> ('acc, 'g1, 'auth) Store
    \<Rightarrow> (StoreError + ('acc, 'g1) BlobMetadata list) \<times> ('acc, 'g1, 'auth) Store" where
  "report_loop cfg pm at_block authority_index [] metadata_vec s = (Inr metadata_vec, s)"
| "report_loop cfg pm at_block authority_index (index # indexes) metadata_vec s =
     (if length metadata_vec \<le> unat index then (Inl DataNotExist, s)
      else case handle_vote cfg pm at_block authority_index index (metadata_vec ! unat index) s of
             Inl e \<Rightarrow> (Inl e, s)
           | Inr (metadata, s') \<Rightarrow>
               report_loop cfg pm at_block authority_index indexes (metadata_vec[unat index := metadata]) s')"

definition report ::
  "StoreConfig \<Rightarrow> permill_lib \<Rightarrow> 'acc Origin \<Rightarrow> UnavailableDataReport \<Rightarrow> ('acc, 'g1, 'auth) Store
    \<Rightarrow> (StoreError + unit) \<times> ('acc, 'g1, 'auth) Store" where
  "report cfg pm origin r s =
     (case origin of
        Signed _ \<Rightarrow> (Inl BadOrigin, s)
      | Unsigned \<Rightarrow>
          let current_block_number = st_block_number s in
          if \<not> ur_at_block r \<le> current_block_number then (Inl ReportForFutureBlock, s)
          else if \<not> ur_at_block r + DELAY_CHECK_THRESHOLD \<ge> current_block_number
          then (Inl ExceedUnavailableDataConfirmTime, s)
          else if ur_index_set r = [] then (Inl IndexSetIsEmpty, s)
          else if get_opt (st_Keys s) (unat (ur_authority_index r)) = None then (Inl InvalidKey, s)
          else case report_loop cfg pm (ur_at_block r) (ur_authority_index r) (ur_index_set r)
                      (st_Metadata s (ur_at_block r)) s of
                 (Inl e, s') \<Rightarrow> (Inl e, s')
               | (Inr metadata_vec, s') \<Rightarrow>
                   (Inr (), deposit_event (ReportReceived (ur_at_block r) (ur_authority_index r))
                      (s'\<lparr> st_Metadata := (st_Metadata s')(ur_at_block r := metadata_vec) \<rparr>)))"

definition register_app ::
  "'acc Origin \<Rightarrow> ('acc, 'g1, 'auth) Store \<Rightarrow> (StoreError + unit) \<times> ('acc, 'g1, 'auth) Store" where
  "register_app origin s =
     (case origin of
        Unsigned \<Rightarrow> (Inl BadOrigin, s)
      | Signed who \<Rightarrow>
          let app_id = st_AppId s + 1 in
          (Inr (), deposit_event (AppIdRegistered app_id who) (s\<lparr> st_AppId := app_id \<rparr>)))"

section \<open>Hooks and validation (lib.rs 445 to 521)\<close>

text \<open>\<open>clear_prefix limit m\<close> is what the storage library leaves of the entries under a prefix.\<close>

definition on_finalize ::
  "(nat \<Rightarrow> (u32 \<Rightarrow> u32 list option) \<Rightarrow> (u32 \<Rightarrow> u32 list option)) \<Rightarrow> StoreConfig \<Rightarrow> u32 \<Rightarrow> ('acc, 'g1, 'auth) Store
    \<Rightarrow> ('acc, 'g1, 'auth) Store" where
  "on_finalize clear_prefix cfg now s =
     (if DELAY_CHECK_THRESHOLD + 1 \<ge> now then s
      else let at = now - (DELAY_CHECK_THRESHOLD + 1) in
           s\<lparr> st_UnavailableVote := (st_UnavailableVote s)(at := clear_prefix (MaxBlobNum cfg) (st_UnavailableVote s at)) \<rparr>)"

datatype InvalidTransaction = Stale | Custom nat | BadProof | InvalidCall

record ValidTransaction =
  vt_tag_prefix :: string
  vt_priority :: nat
  vt_longevity :: nat
  vt_propagate :: bool

datatype ('g1, 'sig) Call = call_report UnavailableDataReport 'sig | call_other

definition INVALID_VALIDATORS_LEN :: nat where "INVALID_VALIDATORS_LEN = 10"

definition validate_unsigned ::
  "('auth \<Rightarrow> bytes \<Rightarrow> 'sig \<Rightarrow> bool) \<Rightarrow> UnavailableDataReport codec \<Rightarrow> nat \<Rightarrow> ('g1, 'sig) Call \<Rightarrow> ('acc, 'g1, 'auth) Store
    \<Rightarrow> InvalidTransaction + ValidTransaction" where
  "validate_unsigned verify rc melo_unsigned_priority call s =
     (case call of
        call_report r signature \<Rightarrow>
          (case get_opt (st_Keys s) (unat (ur_authority_index r)) of
             None \<Rightarrow> Inl Stale
           | Some authority_id \<Rightarrow>
               if of_nat (length (st_Keys s)) \<noteq> ur_validators_len r then Inl (Custom INVALID_VALIDATORS_LEN)
               else if \<not> verify authority_id (encode rc r) signature then Inl BadProof
               else Inr \<lparr> vt_tag_prefix = ''MeloStore'', vt_priority = melo_unsigned_priority,
                          vt_longevity = unat DELAY_CHECK_THRESHOLD, vt_propagate = True \<rparr>)
      | call_other \<Rightarrow> Inl InvalidCall)"

section \<open>Reading the data of a block (lib.rs 524 to 631)\<close>

definition get_unavailability_apps ::
  "permill_lib \<Rightarrow> 'o OffchainStorage \<Rightarrow> 'g1 Reliability codec \<Rightarrow> 'o \<Rightarrow> u32 \<Rightarrow> ('acc, 'g1, 'auth) Store \<Rightarrow> u32 list" where
  "get_unavailability_apps pm os rc odb at_block s =
     List.map_filter (\<lambda>(i, metadata).
       (case get_confidence (OffchainKv_kv os (OffchainKv_new None)) rc
               (app_confidence (bm_app_id metadata) (bm_nonce metadata)) odb of
          Some confidence \<Rightarrow> if \<not> Reliability_is_availability pm confidence then Some (of_nat i) else None
        | None \<Rightarrow> None))
       (enumerate0 (st_Metadata s at_block))"

text \<open>\<open>block_hash\<close> is the hash the system pallet keeps for a block number.\<close>

fun fetch_unavailability_loop ::
  "permill_lib \<Rightarrow> 'o OffchainStorage \<Rightarrow> 'g1 Reliability codec \<Rightarrow> (u32 \<Rightarrow> bytes) \<Rightarrow> 'o \<Rightarrow> u32 \<Rightarrow> u32 \<Rightarrow> u32 list \<Rightarrow> u32 list" where
  "fetch_unavailability_loop pm os rc block_hash odb lst now [] = []"
| "fetch_unavailability_loop pm os rc block_hash odb lst now (i # is) =
     (let process_block = lst + i in
      if process_block \<ge> now then []
      else case map_option (Reliability_is_availability pm)
                  (get_confidence (OffchainKv_kv os (OffchainKv_new None)) rc
                     (block_confidence (block_hash process_block)) odb) of
             Some avail \<Rightarrow>
               (if \<not> avail then [process_block] else []) @
               fetch_unavailability_loop pm os rc block_hash odb lst now is
           | None \<Rightarrow> [])"

definition u32_saturating_sub :: "u32 \<Rightarrow> u32 \<Rightarrow> u32" where
  "u32_saturating_sub a b = (if b \<le> a then a - b else 0)"

definition fetch_unavailability_blocks ::
  "permill_lib \<Rightarrow> 'o OffchainStorage \<Rightarrow> 'g1 Reliability codec \<Rightarrow> LastProcessedBlock codec \<Rightarrow> (u32 \<Rightarrow> bytes) \<Rightarrow> 'o
    \<Rightarrow> ('acc, 'g1, 'auth) Store \<Rightarrow> u32 list res" where
  "fetch_unavailability_blocks pm os rc lc block_hash odb s =
     (let now = st_block_number s in
      res_map (\<lambda>last_processed.
          let lst = (case last_processed of
                       Some block \<Rightarrow> block
                     | None \<Rightarrow> u32_saturating_sub now MAX_UNAVAILABLE_BLOCK_INTERVAL)
          in fetch_unavailability_loop pm os rc block_hash odb lst now (map of_nat [0..<unat BLOCK_SAMPLE_LIMIT]))
        (get_last_processed_block (OffchainKv_kv os (OffchainKv_new None)) lc odb))"

definition iter_metadata :: "u32 \<Rightarrow> ('acc, 'g1, 'auth) Store \<Rightarrow> ('acc, 'g1) BlobMetadata list" where
  "iter_metadata at_block s = filter bm_is_available (st_Metadata s at_block)"

definition app_lookup_of :: "('acc, 'g1) BlobMetadata \<Rightarrow> AppLookup" where
  "app_lookup_of metadata =
     \<lparr> al_app_id = bm_app_id metadata, al_nonce = bm_nonce metadata,
       al_count = of_nat (length (bm_commitments metadata)) \<rparr>"

definition get_commitments_and_app_lookups ::
  "u32 \<Rightarrow> ('acc, 'g1, 'auth) Store \<Rightarrow> 'g1 list \<times> AppLookup list" where
  "get_commitments_and_app_lookups at_block s =
     foldl (\<lambda>(commitments, app_lookups) metadata.
              (commitments @ bm_commitments metadata, app_lookups @ [app_lookup_of metadata]))
       ([], []) (iter_metadata at_block s)"

definition get_commitments :: "u32 \<Rightarrow> ('acc, 'g1, 'auth) Store \<Rightarrow> 'g1 list" where
  "get_commitments at_block s = concat (map bm_commitments (iter_metadata at_block s))"

section \<open>Extended commitments (lib.rs 666 to 693, 848 to 904)\<close>

definition push_commitments_ext ::
  "StoreConfig \<Rightarrow> u32 \<Rightarrow> 'g1 list \<Rightarrow> ('acc, 'g1, 'auth) Store \<Rightarrow> StoreError + ('acc, 'g1, 'auth) Store" where
  "push_commitments_ext cfg at_block commitments s =
     (let commitments_ext = (case st_CommitmentsExt s at_block of Some e \<Rightarrow> e | None \<Rightarrow> []) in
      if MaxBlobNum cfg < length (commitments_ext @ commitments) then Inl ExceedMaxBlobPerBlock
      else if length commitments \<le> MaxBlobNum cfg
      then Inr (s\<lparr> st_CommitmentsExt := (st_CommitmentsExt s)(at_block := Some commitments) \<rparr>)
      else Inl ExceedMaxBlobPerBlock)"

definition commit_list_last :: "('acc, 'g1, 'auth) Store \<Rightarrow> 'g1 list \<times> AppLookup list" where
  "commit_list_last s =
     (let now = st_block_number s in
      if now \<le> DELAY_CHECK_THRESHOLD then ([], [])
      else get_commitments_and_app_lookups (now - DELAY_CHECK_THRESHOLD) s)"

definition commitments_from_position ::
  "('fr, 'g1, 'g2, 'fs, 'fk) kzg_lib \<Rightarrow> ('g1, 'g2, 'fs) KZG \<Rightarrow> StoreConfig \<Rightarrow> u32 \<Rightarrow> Position \<Rightarrow> ('acc, 'g1, 'auth) Store
    \<Rightarrow> 'g1 option \<times> ('acc, 'g1, 'auth) Store" where
  "commitments_from_position L kzg cfg block_num pos s =
     (if block_num > st_block_number s - DELAY_CHECK_THRESHOLD then (None, s)
      else
        let y_usize = unat (pos_y pos) in
        case st_CommitmentsExt s block_num of
          Some ext \<Rightarrow> (if length ext \<le> y_usize then (None, s) else (get_opt ext y_usize, s))
        | None \<Rightarrow>
            let commitments = get_commitments block_num s in
            if y_usize < length commitments then (get_opt commitments y_usize, s)
            else case extend_fs_g1 L (KZG_get_fs kzg) commitments of
                   Inl _ \<Rightarrow> (None, s)
                 | Inr extended \<Rightarrow>
                     if y_usize < length extended then
                       (if length extended \<le> MaxBlobNum cfg
                        then (get_opt extended y_usize,
                              s\<lparr> st_CommitmentsExt := (st_CommitmentsExt s)(block_num := Some extended) \<rparr>)
                        else (None, s))
                     else (None, s))"


section \<open>Off-chain reports (lib.rs 459 to 480, 633 to 781)\<close>

text \<open>
  \<open>StorageValueRef\<close> of the off-chain library on the persistent storage \<open>'o\<close>: \<open>sv_mutate\<close> takes
  the key and the closure, which is given what the storage holds (\<open>None\<close> when it cannot be decoded).
\<close>

datatype MutateStorageError = ConcurrentModification | ValueFunctionFailed OffchainErr

record 'o report_storage =
  sv_mutate :: "'o \<Rightarrow> bytes \<Rightarrow> (ReportStatus option option \<Rightarrow> OffchainErr + ReportStatus)
                 \<Rightarrow> (MutateStorageError + ReportStatus) \<times> 'o"
  sv_set :: "'o \<Rightarrow> bytes \<Rightarrow> ReportStatus \<Rightarrow> 'o"

definition DB_PREFIX :: bytes where "DB_PREFIX = str_bytes ''melodot/melo-store/unavailable-data-report''"

definition report_lock_closure :: "u32 \<Rightarrow> u32 \<Rightarrow> ReportStatus option option \<Rightarrow> OffchainErr + ReportStatus" where
  "report_lock_closure at_block now status =
     (case status of
        Some (Some st) \<Rightarrow>
          if is_recent st at_block now then Inl (WaitingForInclusion (rs_sent_at st))
          else Inr \<lparr> rs_at_block = at_block, rs_sent_at = now \<rparr>
      | _ \<Rightarrow> Inr \<lparr> rs_at_block = at_block, rs_sent_at = now \<rparr>)"

text \<open>The state of a run of the worker: the off-chain storage and the calls it has submitted.\<close>

definition with_report_lock ::
  "'o report_storage \<Rightarrow> u32 codec \<Rightarrow> u32 \<Rightarrow> u32 \<Rightarrow> u32 \<Rightarrow> ('p \<Rightarrow> (OffchainErr + 'r) \<times> 'p)
    \<Rightarrow> 'o \<times> 'p \<Rightarrow> (OffchainErr + 'r) \<times> 'o \<times> 'p" where
  "with_report_lock sv uc authority_index at_block now f op =
     (let (odb, pool) = op;
          key = DB_PREFIX @ encode uc authority_index
      in case sv_mutate sv odb key (report_lock_closure at_block now) of
           (Inl (ValueFunctionFailed err), odb') \<Rightarrow> (Inl err, odb', pool)
         | (Inl ConcurrentModification, odb') \<Rightarrow> (Inl FailedToAcquireLock, odb', pool)
         | (Inr new_status, odb') \<Rightarrow>
             (case f pool of
                (Inl e, pool') \<Rightarrow> (Inl e, sv_set sv odb' key (new_status\<lparr> rs_sent_at := 0 \<rparr>), pool')
              | (Inr r, pool') \<Rightarrow> (Inr r, odb', pool')))"

text \<open>\<open>sign\<close> is the key store, \<open>submit\<close> the transaction pool: it says whether it takes a call.\<close>

definition send_single_unavailability_report ::
  "'o report_storage \<Rightarrow> u32 codec \<Rightarrow> UnavailableDataReport codec \<Rightarrow> ('auth \<Rightarrow> bytes \<Rightarrow> 'sig option)
    \<Rightarrow> ('p \<Rightarrow> ('g1, 'sig) Call \<Rightarrow> bool \<times> 'p) \<Rightarrow> u32 \<Rightarrow> 'auth \<Rightarrow> u32 \<Rightarrow> u32 \<Rightarrow> u32 list \<Rightarrow> ('acc, 'g1, 'auth) Store
    \<Rightarrow> 'o \<times> 'p \<Rightarrow> (OffchainErr + unit) \<times> 'o \<times> 'p" where
  "send_single_unavailability_report sv uc rc sign submit authority_index key at_block now index_set s =
     (let validators_len = of_nat (length (st_Keys s));
          r = \<lparr> ur_at_block = at_block, ur_authority_index = authority_index,
                ur_index_set = index_set, ur_validators_len = validators_len \<rparr>
      in with_report_lock sv uc authority_index at_block now
           (\<lambda>pool. case sign key (encode rc r) of
              None \<Rightarrow> (Inl FailedSigning, pool)
            | Some signature \<Rightarrow>
                (let (ok, pool') = submit pool (call_report r signature)
                 in (if ok then Inr () else Inl SubmitTransaction, pool'))))"

text \<open>\<open>local_keys.binary_search\<close> on the sorted keys finds an authority exactly when it is one of them.\<close>

definition local_authority_keys :: "'auth list \<Rightarrow> ('acc, 'g1, 'auth) Store \<Rightarrow> (u32 \<times> 'auth) list" where
  "local_authority_keys local_keys s =
     List.map_filter (\<lambda>(index, authority).
       if authority \<in> set local_keys then Some (of_nat index, authority) else None) (enumerate0 (st_Keys s))"

fun send_reports ::
  "(u32 \<Rightarrow> 'auth \<Rightarrow> 'o \<times> 'p \<Rightarrow> (OffchainErr + unit) \<times> 'o \<times> 'p) \<Rightarrow> (u32 \<times> 'auth) list \<Rightarrow> 'o \<times> 'p
    \<Rightarrow> (OffchainErr + unit) list \<times> 'o \<times> 'p" where
  "send_reports send [] op = ([], op)"
| "send_reports send ((i, key) # keys) op =
     (let (r, op1) = send i key op; (rs, op2) = send_reports send keys op1 in (r # rs, op2))"

definition send_unavailability_report ::
  "permill_lib \<Rightarrow> 'o OffchainStorage \<Rightarrow> 'g1 Reliability codec \<Rightarrow> 'o report_storage \<Rightarrow> u32 codec \<Rightarrow> UnavailableDataReport codec
    \<Rightarrow> ('auth \<Rightarrow> bytes \<Rightarrow> 'sig option) \<Rightarrow> ('p \<Rightarrow> ('g1, 'sig) Call \<Rightarrow> bool \<times> 'p) \<Rightarrow> 'auth list \<Rightarrow> u32 \<Rightarrow> ('acc, 'g1, 'auth) Store
    \<Rightarrow> 'o \<times> 'p \<Rightarrow> (OffchainErr + unit) list \<times> 'o \<times> 'p" where
  "send_unavailability_report pm os rc sv uc urc sign submit local_keys now s op =
     foldl (\<lambda>(rs, op) gap.
         if gap > now then (rs, op)
         else let at_block = now - gap;
                  index_set = get_unavailability_apps pm os rc (fst op) at_block s
              in if index_set = [] then (rs, op)
                 else let (rs', op') = send_reports (\<lambda>i key.
                            send_single_unavailability_report sv uc urc sign submit i key at_block now index_set s)
                            (local_authority_keys local_keys s) op
                      in (rs @ rs', op'))
       ([], op) (map of_nat [0..<unat DELAY_CHECK_THRESHOLD])"

definition store_offchain_worker ::
  "permill_lib \<Rightarrow> 'o OffchainStorage \<Rightarrow> 'g1 Reliability codec \<Rightarrow> 'o report_storage \<Rightarrow> u32 codec \<Rightarrow> UnavailableDataReport codec
    \<Rightarrow> ('auth \<Rightarrow> bytes \<Rightarrow> 'sig option) \<Rightarrow> ('p \<Rightarrow> ('g1, 'sig) Call \<Rightarrow> bool \<times> 'p) \<Rightarrow> 'auth list \<Rightarrow> bool \<Rightarrow> u32
    \<Rightarrow> ('acc, 'g1, 'auth) Store \<Rightarrow> 'o \<times> 'p \<Rightarrow> 'o \<times> 'p" where
  "store_offchain_worker pm os rc sv uc urc sign submit local_keys is_validator now s op =
     (if is_validator then snd (send_unavailability_report pm os rc sv uc urc sign submit local_keys now s op)
      else op)"

section \<open>Keys of the authorities (lib.rs 829 to 837, 913 to 945)\<close>

definition initialize_keys :: "StoreConfig \<Rightarrow> 'auth list \<Rightarrow> ('acc, 'g1, 'auth) Store \<Rightarrow> ('acc, 'g1, 'auth) Store res" where
  "initialize_keys cfg keys s =
     (if keys \<noteq> [] then
        (if st_Keys s \<noteq> [] then Inl (Panic ''Keys are already initialized!'')
         else if MaxKeys cfg < length keys then Inl (Panic ''More than the maximum number of keys provided'')
         else Inr (s\<lparr> st_Keys := keys \<rparr>))
      else Inr s)"

definition on_genesis_session ::
  "StoreConfig \<Rightarrow> ('acc \<times> 'auth) list \<Rightarrow> ('acc, 'g1, 'auth) Store \<Rightarrow> ('acc, 'g1, 'auth) Store res" where
  "on_genesis_session cfg validators s = initialize_keys cfg (map snd validators) s"

definition on_new_session ::
  "bool \<Rightarrow> ('acc \<times> 'auth) list \<Rightarrow> ('acc \<times> 'auth) list \<Rightarrow> ('acc, 'g1, 'auth) Store \<Rightarrow> ('acc, 'g1, 'auth) Store" where
  "on_new_session changed validators queued_validators s = s\<lparr> st_Keys := map snd validators \<rparr>"

definition on_disabled :: "u32 \<Rightarrow> ('acc, 'g1, 'auth) Store \<Rightarrow> ('acc, 'g1, 'auth) Store res" where
  "on_disabled i s =
     (if unat i < length (st_Keys s)
      then Inr (s\<lparr> st_Keys := take (unat i) (st_Keys s) @ drop (Suc (unat i)) (st_Keys s) \<rparr>)
      else Inl (Panic ''removal index should be < len''))"

end
