(* ===== verification/Store_Votes.thy ===== *)
theory Store_Votes
  imports Melo_Store
begin

text \<open>
  Lemmas on the votes of \<open>pallet-melo-store\<close>: what one vote and one report do to the storage, when a
  report is accepted, and what is left of a call that fails.
\<close>

section \<open>One vote\<close>

definition voters :: "('acc, 'g1, 'auth) Store \<Rightarrow> u32 \<Rightarrow> u32 \<Rightarrow> u32 list" where
  "voters s b i = (case st_UnavailableVote s b i of None \<Rightarrow> [] | Some v \<Rightarrow> v)"

definition marked :: "permill_lib \<Rightarrow> ('acc, 'g1, 'auth) Store \<Rightarrow> nat \<Rightarrow> ('acc, 'g1) BlobMetadata \<Rightarrow> ('acc, 'g1) BlobMetadata" where
  "marked pm s n m =
     (if of_nat n > pm_mul_floor pm UNAVAILABILITY_THRESHOLD (of_nat (length (st_Keys s)))
      then m\<lparr> bm_is_available := False \<rparr> else m)"

definition with_votes ::
  "u32 \<Rightarrow> u32 set \<Rightarrow> u32 \<Rightarrow> ('acc, 'g1, 'auth) Store \<Rightarrow> ('acc, 'g1, 'auth) Store" where
  "with_votes b I a s =
     s\<lparr> st_UnavailableVote := (st_UnavailableVote s)(b := (\<lambda>i.
          if i \<in> I then Some (voters s b i @ [a]) else st_UnavailableVote s b i)) \<rparr>"

lemma voters_with_votes:
  "voters (with_votes b I a s) b' i = (if b' = b \<and> i \<in> I then voters s b i @ [a] else voters s b' i)"
  by (simp add: voters_def with_votes_def)

lemma voters_Keys [simp]: "voters (s\<lparr> st_Keys := k \<rparr>) = voters s"
  by (simp add: voters_def fun_eq_iff)

lemma with_votes_frame [simp]:
  "st_Metadata (with_votes b I a s) = st_Metadata s"
  "st_Keys (with_votes b I a s) = st_Keys s"
  "st_block_number (with_votes b I a s) = st_block_number s"
  "st_AppId (with_votes b I a s) = st_AppId s"
  "st_Nonces (with_votes b I a s) = st_Nonces s"
  "st_CommitmentsExt (with_votes b I a s) = st_CommitmentsExt s"
  "st_events (with_votes b I a s) = st_events s"
  by (simp_all add: with_votes_def)

lemma with_votes_empty [simp]: "with_votes b {} a s = s"
  by (simp add: with_votes_def)

lemma with_votes_insert:
  assumes "i \<notin> I"
  shows "with_votes b I a (with_votes b {i} a s) = with_votes b (insert i I) a s"
  using assms by (auto simp: with_votes_def voters_def fun_eq_iff intro!: arg_cong [where f = "\<lambda>f. s\<lparr> st_UnavailableVote := f \<rparr>"])

lemma marked_with_votes [simp]: "marked pm (with_votes b I a s) = marked pm s"
  by (simp add: marked_def fun_eq_iff)

lemma handle_vote_eq:
  "handle_vote cfg pm b a i m s =
     (if a \<in> set (voters s b i) then Inl DuplicateReportSubmission
      else if MaxBlobNum cfg \<le> length (voters s b i) then Inl ExceedMaxTotalVotes
      else Inr (marked pm s (Suc (length (voters s b i))) m, with_votes b {i} a s))"
proof -
  have upd: "(st_UnavailableVote s b)(i := Some (voters s b i @ [a])) =
      (\<lambda>j. if j \<in> {i} then Some (voters s b j @ [a]) else st_UnavailableVote s b j)"
    by (simp add: fun_eq_iff)
  show ?thesis
    by (cases "st_UnavailableVote s b i")
      (use upd in \<open>simp_all add: handle_vote_def Let_def marked_def with_votes_def voters_def\<close>)
qed

section \<open>One report\<close>

definition vote_ok :: "StoreConfig \<Rightarrow> ('acc, 'g1, 'auth) Store \<Rightarrow> u32 \<Rightarrow> u32 \<Rightarrow> u32 \<Rightarrow> bool" where
  "vote_ok cfg s b a i \<longleftrightarrow> a \<notin> set (voters s b i) \<and> length (voters s b i) < MaxBlobNum cfg"

definition marked_all ::
  "permill_lib \<Rightarrow> ('acc, 'g1, 'auth) Store \<Rightarrow> u32 \<Rightarrow> u32 set \<Rightarrow> ('acc, 'g1) BlobMetadata list \<Rightarrow> ('acc, 'g1) BlobMetadata list" where
  "marked_all pm s b I ms =
     map (\<lambda>(j, m). if j \<in> unat ` I then marked pm s (Suc (length (voters s b (of_nat j)))) m else m) (enumerate0 ms)"

lemma length_marked_all [simp]: "length (marked_all pm s b I ms) = length ms"
  by (simp add: marked_all_def)

lemma nth_marked_all:
  "j < length ms \<Longrightarrow> marked_all pm s b I ms ! j =
     (if j \<in> unat ` I then marked pm s (Suc (length (voters s b (of_nat j)))) (ms ! j) else ms ! j)"
  by (simp add: marked_all_def nth_enumerate0)

lemma marked_all_empty [simp]: "marked_all pm s b {} ms = ms"
  by (rule nth_equalityI) (simp_all add: nth_marked_all)

lemma marked_all_insert:
  assumes "i \<notin> I" "unat i < length ms"
  shows "marked_all pm (with_votes b {i} a s) b I (ms[unat i := marked pm s (Suc (length (voters s b i))) (ms ! unat i)]) =
     marked_all pm s b (insert i I) ms"
proof (rule nth_equalityI)
  fix j assume "j < length (marked_all pm (with_votes b {i} a s) b I
    (ms[unat i := marked pm s (Suc (length (voters s b i))) (ms ! unat i)]))"
  then have j: "j < length ms" by simp
  show "marked_all pm (with_votes b {i} a s) b I (ms[unat i := marked pm s (Suc (length (voters s b i))) (ms ! unat i)]) ! j =
     marked_all pm s b (insert i I) ms ! j"
  proof (cases "j = unat i")
    case True
    moreover have "unat i \<notin> unat ` I" using assms(1) by (auto simp: word_unat_eq_iff [symmetric])
    ultimately show ?thesis using assms(2) by (simp add: nth_marked_all)
  next
    case False
    then have "j \<in> unat ` I \<Longrightarrow> of_nat j \<noteq> i" by auto
    then show ?thesis using False j by (auto simp: nth_marked_all voters_with_votes)
  qed
qed simp

lemma report_loop_ok:
  assumes "distinct is" "\<forall>i\<in>set is. unat i < length ms \<and> vote_ok cfg s b a i"
  shows "report_loop cfg pm b a is ms s = (Inr (marked_all pm s b (set is) ms), with_votes b (set is) a s)"
  using assms
proof (induction "is" arbitrary: ms s)
  case (Cons i "is")
  have "\<forall>j\<in>set is. vote_ok cfg (with_votes b {i} a s) b a j"
    using Cons.prems by (auto simp: vote_ok_def voters_with_votes)
  with Cons show ?case
    by (simp add: handle_vote_eq vote_ok_def not_le marked_all_insert with_votes_insert)
qed simp

lemma report_loop_Inr:
  assumes "report_loop cfg pm b a is ms s = (Inr ms', s')"
  shows "distinct is \<and> (\<forall>i\<in>set is. unat i < length ms \<and> vote_ok cfg s b a i)"
  using assms
proof (induction "is" arbitrary: ms s)
  case (Cons i "is")
  from Cons.prems have i: "unat i < length ms" "vote_ok cfg s b a i"
    and rest: "report_loop cfg pm b a is (ms[unat i := marked pm s (Suc (length (voters s b i))) (ms ! unat i)])
      (with_votes b {i} a s) = (Inr ms', s')"
    by (auto simp: handle_vote_eq vote_ok_def not_le split: if_splits)
  from Cons.IH [OF rest] i show ?case
    by (auto simp: vote_ok_def voters_with_votes split: if_splits)
qed simp

text \<open>The conditions under which a report is taken, and the storage it leaves.\<close>

definition report_ok :: "StoreConfig \<Rightarrow> UnavailableDataReport \<Rightarrow> ('acc, 'g1, 'auth) Store \<Rightarrow> bool" where
  "report_ok cfg r s \<longleftrightarrow>
     ur_at_block r \<le> st_block_number s \<and> st_block_number s \<le> ur_at_block r + DELAY_CHECK_THRESHOLD \<and>
     ur_index_set r \<noteq> [] \<and> unat (ur_authority_index r) < length (st_Keys s) \<and> distinct (ur_index_set r) \<and>
     (\<forall>i\<in>set (ur_index_set r). unat i < length (st_Metadata s (ur_at_block r)) \<and>
        vote_ok cfg s (ur_at_block r) (ur_authority_index r) i)"

definition reported :: "permill_lib \<Rightarrow> UnavailableDataReport \<Rightarrow> ('acc, 'g1, 'auth) Store \<Rightarrow> ('acc, 'g1, 'auth) Store" where
  "reported pm r s =
     (let b = ur_at_block r; a = ur_authority_index r; I = set (ur_index_set r) in
      deposit_event (ReportReceived b a)
        ((with_votes b I a s)\<lparr> st_Metadata := (st_Metadata s)(b := marked_all pm s b I (st_Metadata s b)) \<rparr>))"

lemma report_eq:
  assumes "report_ok cfg r s"
  shows "report cfg pm Unsigned r s = (Inr (), reported pm r s)"
  using assms by (simp add: report_ok_def report_def reported_def report_loop_ok not_le not_less Let_def get_opt_None_iff)

lemma report_Inr_ok:
  assumes "report cfg pm orig r s = (Inr u, s')"
  shows "orig = Unsigned \<and> report_ok cfg r s \<and> s' = reported pm r s"
proof -
  from assms have u: "orig = Unsigned"
    by (cases orig) (auto simp: report_def)
  with assms obtain ms t where
      c: "ur_at_block r \<le> st_block_number s" "ur_at_block r + DELAY_CHECK_THRESHOLD \<ge> st_block_number s"
         "ur_index_set r \<noteq> []" "unat (ur_authority_index r) < length (st_Keys s)"
    and l: "report_loop cfg pm (ur_at_block r) (ur_authority_index r) (ur_index_set r)
       (st_Metadata s (ur_at_block r)) s = (Inr ms, t)"
    by (auto simp: report_def get_opt_None_iff not_le Let_def split: if_splits prod.splits sum.splits)
  from report_loop_Inr [OF l] c have "report_ok cfg r s" by (simp add: report_ok_def)
  with assms u show ?thesis by (simp add: report_eq)
qed

lemma dispatch_report:
  "report_ok cfg r s \<Longrightarrow> dispatch (report cfg pm Unsigned r) s = (Inr (), reported pm r s)"
  "\<not> report_ok cfg r s \<or> orig \<noteq> Unsigned \<Longrightarrow> \<exists>e. dispatch (report cfg pm orig r) s = (Inl e, s)"
proof -
  show "report_ok cfg r s \<Longrightarrow> dispatch (report cfg pm Unsigned r) s = (Inr (), reported pm r s)"
    by (simp add: dispatch_def report_eq)
  assume no: "\<not> report_ok cfg r s \<or> orig \<noteq> Unsigned"
  obtain x t where xt: "report cfg pm orig r s = (x, t)" by fastforce
  with no report_Inr_ok [of cfg pm orig r s] obtain e where "x = Inl e" by (cases x) auto
  with xt show "\<exists>e. dispatch (report cfg pm orig r) s = (Inl e, s)" by (simp add: dispatch_def)
qed

text \<open>What \<open>Permill::mul_floor\<close> documents: multiplication by a number of millionths, rounded down.\<close>

definition permill_documented :: "permill_lib \<Rightarrow> bool" where
  "permill_documented pm \<longleftrightarrow>
     (\<forall>p n. unat p \<le> 1000000 \<longrightarrow> unat (pm_mul_floor pm p n) = unat p * unat n div 1000000)"

lemma half_threshold:
  assumes "permill_documented pm"
  shows "unat (pm_mul_floor pm UNAVAILABILITY_THRESHOLD n) = unat n div 2"
proof -
  have "unat UNAVAILABILITY_THRESHOLD = 500000" by (simp add: UNAVAILABILITY_THRESHOLD_def)
  with assms have "unat (pm_mul_floor pm UNAVAILABILITY_THRESHOLD n) = 500000 * unat n div 1000000"
    by (simp add: permill_documented_def)
  then show ?thesis by simp
qed

lemma marked_half:
  assumes "permill_documented pm" "length (st_Keys s) < 2 ^ 32" "n < 2 ^ 32"
  shows "marked pm s n m = (if 2 * n > length (st_Keys s) then m\<lparr> bm_is_available := False \<rparr> else m)"
proof -
  have "of_nat n > pm_mul_floor pm UNAVAILABILITY_THRESHOLD (of_nat (length (st_Keys s))) \<longleftrightarrow>
      n > length (st_Keys s) div 2"
    using assms(2,3) by (simp add: word_less_nat_alt half_threshold [OF assms(1)] unat_of_nat_u32)
  also have "\<dots> \<longleftrightarrow> 2 * n > length (st_Keys s)" by auto
  finally show ?thesis by (simp add: marked_def)
qed

lemma report_ok_bound:
  "report_ok cfg r s \<Longrightarrow> i \<in> set (ur_index_set r) \<Longrightarrow>
     length (voters s (ur_at_block r) i) < MaxBlobNum cfg \<and> unat i < length (st_Metadata s (ur_at_block r))"
  by (auto simp: report_ok_def vote_ok_def)

lemma voters_reported:
  "voters (reported pm r s) b i =
     (if b = ur_at_block r \<and> i \<in> set (ur_index_set r) then voters s b i @ [ur_authority_index r] else voters s b i)"
  by (simp add: reported_def deposit_event_def voters_def with_votes_def Let_def)

lemma reported_frame [simp]:
  "st_block_number (reported pm r s) = st_block_number s"
  "st_Keys (reported pm r s) = st_Keys s"
  "st_AppId (reported pm r s) = st_AppId s"
  "st_Nonces (reported pm r s) = st_Nonces s"
  "st_CommitmentsExt (reported pm r s) = st_CommitmentsExt s"
  "b \<noteq> ur_at_block r \<Longrightarrow> st_Metadata (reported pm r s) b = st_Metadata s b"
  "b \<noteq> ur_at_block r \<Longrightarrow> st_UnavailableVote (reported pm r s) b = st_UnavailableVote s b"
  "length (st_Metadata (reported pm r s) b) = length (st_Metadata s b)"
  by (simp_all add: reported_def deposit_event_def with_votes_def Let_def)

lemma nth_Metadata_reported:
  assumes "report_ok cfg r s" "permill_documented pm" "length (st_Keys s) < 2 ^ 32" "MaxBlobNum cfg < 2 ^ 32"
    "j < length (st_Metadata s b)"
  shows "st_Metadata (reported pm r s) b ! j =
     (if b = ur_at_block r \<and> j \<in> unat ` set (ur_index_set r) \<and>
         2 * length (voters (reported pm r s) b (of_nat j)) > length (st_Keys s)
      then (st_Metadata s b ! j)\<lparr> bm_is_available := False \<rparr> else st_Metadata s b ! j)"
proof (cases "b = ur_at_block r \<and> j \<in> unat ` set (ur_index_set r)")
  case True
  then obtain i where i: "i \<in> set (ur_index_set r)" "j = unat i" by auto
  then have "Suc (length (voters s (ur_at_block r) i)) < 2 ^ 32"
    using report_ok_bound [OF assms(1) i(1)] assms(4) by simp
  moreover have "st_Metadata (reported pm r s) b ! j = marked pm s (Suc (length (voters s (ur_at_block r) i))) (st_Metadata s b ! j)"
    using True i(2) assms(5) by (simp add: reported_def deposit_event_def Let_def nth_marked_all)
  ultimately show ?thesis
    using True i by (simp add: voters_reported marked_half [OF assms(2,3)])
next
  case False
  then show ?thesis using assms(5) by (auto simp: reported_def deposit_event_def Let_def nth_marked_all)
qed

definition sample_permill :: permill_lib where
  "sample_permill = \<lparr> pm_one = 1000000, pm_mul_floor = \<lambda>p n. of_nat (unat p * unat n div 1000000),
     pm_saturating_pow = \<lambda>p n. of_nat (unat p ^ n div 1000000 ^ (n - 1)), pm_saturating_sub = \<lambda>a b. if b \<le> a then a - b else 0 \<rparr>"

lemma sample_permill_documented: "permill_documented sample_permill"
proof -
  have "unat (of_nat (unat p * unat n div 1000000) :: u32) = unat p * unat n div 1000000" if "unat p \<le> 1000000"
    for p n :: u32
  proof -
    have "unat p * unat n div 1000000 \<le> 1000000 * unat n div 1000000"
      by (intro div_le_mono mult_le_mono1 that)
    then have "unat p * unat n div 1000000 < 2 ^ 32" using unat_u32_less [of n] by simp
    then show ?thesis by (rule unat_of_nat_u32)
  qed
  then show ?thesis by (simp add: permill_documented_def sample_permill_def)
qed

definition sample_metadata :: "u32 \<Rightarrow> u32 \<Rightarrow> nat list \<Rightarrow> (nat, nat) BlobMetadata" where
  "sample_metadata app nonce cs =
     \<lparr> bm_app_id = app, bm_from = 0, bm_commitments = cs, bm_proofs = cs, bm_bytes_len = 31,
       bm_is_available = True, bm_nonce = nonce \<rparr>"

text \<open>Block 5 with two submissions in it and the authorities 10, 11 and 12, the last of which has
  reported the first submission.\<close>

definition sample_store :: "(nat, nat, nat) Store" where
  "sample_store =
     \<lparr> st_block_number = 5, st_Metadata = (\<lambda>_. [])(5 := [sample_metadata 1 1 [7, 8], sample_metadata 2 2 [9]]),
       st_CommitmentsExt = (\<lambda>_. None), st_Keys = [10, 11, 12], st_AppId = 2, st_Nonces = (\<lambda>_. 0)(2 := 2),
       st_UnavailableVote = (\<lambda>_ _. None)(5 := (\<lambda>_. None)(0 := Some [2])), st_events = [] \<rparr>"

definition sample_config :: StoreConfig where
  "sample_config = \<lparr> MaxKeys = 100, MaxBlobNum = 100 \<rparr>"

lemmas sample_store_simps = sample_store_def sample_config_def sample_metadata_def

text \<open>C3: A report is atomic and votes exactly once. It succeeds only as an unsigned call of a known authority
  for the current or the previous block, with different indices of existing submissions the authority has
  not reported before; otherwise the storage is unchanged. When it succeeds the authority is added to the
  voters of exactly the named submissions, and of the metadata only the availability of those changes which
  now have the votes of more than half of the authorities: they become unavailable.\<close>

theorem report_atomic_majority:
  assumes "permill_documented pm" and "length (st_Keys s) < 2 ^ 32" and "MaxBlobNum cfg < 2 ^ 32"
    and "dispatch (report cfg pm orig r) s = (res, s')"
  shows "(res = Inr () \<longleftrightarrow> orig = Unsigned \<and> report_ok cfg r s) \<and>
     (res \<noteq> Inr () \<longrightarrow> s' = s) \<and>
     (res = Inr () \<longrightarrow>
        (\<forall>b i. voters s' b i = (if b = ur_at_block r \<and> i \<in> set (ur_index_set r)
                               then voters s b i @ [ur_authority_index r] else voters s b i)) \<and>
        (\<forall>b. length (st_Metadata s' b) = length (st_Metadata s b)) \<and>
        (\<forall>b. \<forall>j<length (st_Metadata s b). st_Metadata s' b ! j =
           (if b = ur_at_block r \<and> j \<in> unat ` set (ur_index_set r) \<and> 2 * length (voters s' b (of_nat j)) > length (st_Keys s)
            then (st_Metadata s b ! j)\<lparr> bm_is_available := False \<rparr> else st_Metadata s b ! j)))"
proof (cases "orig = Unsigned \<and> report_ok cfg r s")
  case True
  with assms(4) have "res = Inr ()" "s' = reported pm r s" by (simp_all add: dispatch_report(1))
  with True show ?thesis
    using nth_Metadata_reported [OF _ assms(1-3), of r] by (simp add: voters_reported)
next
  case False
  with dispatch_report(2) [of cfg r s orig pm] assms(4) obtain e where "res = Inl e" "s' = s" by auto
  with False show ?thesis by auto
qed

theorem report_atomic_majority_witness:
  "let r = \<lparr> ur_at_block = 5, ur_authority_index = 0, ur_index_set = [0, 1], ur_validators_len = 3 \<rparr>;
       (res, s') = dispatch (report sample_config sample_permill Unsigned r) sample_store
   in res = Inr () \<and> voters s' 5 0 = [2, 0] \<and> \<not> bm_is_available (st_Metadata s' 5 ! 0) \<and> bm_is_available (st_Metadata s' 5 ! 1)"
proof -
  let ?r = "\<lparr> ur_at_block = 5, ur_authority_index = 0, ur_index_set = [0, 1], ur_validators_len = 3 \<rparr>"
  obtain res s' where d: "dispatch (report sample_config sample_permill Unsigned ?r) sample_store = (res, s')"
    by fastforce
  have ok: "report_ok sample_config ?r sample_store"
    by (simp add: report_ok_def vote_ok_def voters_def sample_store_simps DELAY_CHECK_THRESHOLD_def)
  from report_atomic_majority [OF sample_permill_documented _ _ d] ok d
  show ?thesis by (simp add: sample_store_simps voters_def)
qed

section \<open>Votes are tied to an index, not to an authority\<close>

text \<open>C29: Disabling an authority shifts the indices of those after it, while the votes stay recorded by index:
  an authority that has reported submissions with index 1 is at index 0 after the first one was disabled; if the
  disabled one had not reported these submissions itself and their lists of voters have room for one more, the second report of the same authority
  on the same submissions is accepted and counted as another vote.\<close>

theorem disabled_authority_votes_twice:
  assumes "st_Keys s = k0 # k1 # krest" and "report_ok cfg r s" and "ur_authority_index r = 1"
    and "\<forall>i\<in>set (ur_index_set r). vote_ok cfg s (ur_at_block r) 0 i \<and> Suc (length (voters s (ur_at_block r) i)) < MaxBlobNum cfg"
    and "on_disabled 0 (snd (dispatch (report cfg pm Unsigned r) s)) = Inr s2"
    and "dispatch (report cfg pm Unsigned (r\<lparr> ur_authority_index := 0 \<rparr>)) s2 = (res, s3)"
  shows "get_opt (st_Keys s) 1 = Some k1 \<and> get_opt (st_Keys s2) 0 = Some k1 \<and> res = Inr () \<and>
     (\<forall>i\<in>set (ur_index_set r). voters s3 (ur_at_block r) i = voters s (ur_at_block r) i @ [1, 0])"
proof -
  from assms(2,5) have s2: "s2 = (reported pm r s)\<lparr> st_Keys := k1 # krest \<rparr>"
    using assms(1) by (simp add: dispatch_report(1) on_disabled_def)
  have "report_ok cfg (r\<lparr> ur_authority_index := 0 \<rparr>) s2"
    using assms(2-4) unfolding report_ok_def vote_ok_def by (auto simp: voters_reported s2)
  with assms(1,3,6) show ?thesis
    by (auto simp: dispatch_report(1) voters_reported s2 get_opt_def)
qed

theorem disabled_authority_votes_twice_witness:
  "let r = \<lparr> ur_at_block = 5, ur_authority_index = 1, ur_index_set = [1], ur_validators_len = 3 \<rparr>;
       s1 = snd (dispatch (report sample_config sample_permill Unsigned r) sample_store)
   in (case on_disabled 0 s1 of
         Inl _ \<Rightarrow> False
       | Inr s2 \<Rightarrow> voters (snd (dispatch (report sample_config sample_permill Unsigned (r\<lparr> ur_authority_index := 0 \<rparr>)) s2)) 5 1 = [1, 0])"
proof -
  let ?r = "\<lparr> ur_at_block = 5, ur_authority_index = 1, ur_index_set = [1], ur_validators_len = 3 \<rparr>"
  let ?s1 = "snd (dispatch (report sample_config sample_permill Unsigned ?r) sample_store)"
  have ok: "report_ok sample_config ?r sample_store"
    by (simp add: report_ok_def vote_ok_def voters_def sample_store_simps DELAY_CHECK_THRESHOLD_def)
  then have "st_Keys ?s1 = [10, 11, 12]" by (simp add: dispatch_report(1)) (simp add: sample_store_def)
  then obtain s2 where s2: "on_disabled 0 ?s1 = Inr s2" by (auto simp: on_disabled_def)
  obtain res s3 where d: "dispatch (report sample_config sample_permill Unsigned (?r\<lparr> ur_authority_index := 0 \<rparr>)) s2 = (res, s3)"
    by fastforce
  have "voters s3 5 1 = voters sample_store 5 1 @ [1, 0]"
    using disabled_authority_votes_twice [OF _ ok _ _ s2 d, of 10 11 "[12]"]
    by (simp add: vote_ok_def voters_def sample_store_simps)
  with s2 d show ?thesis by (simp add: voters_def sample_store_def)
qed

end
