(* ===== verification/Store_Machine.thy ===== *)
theory Store_Machine
  imports Store_Votes
begin

text \<open>
  \<open>pallet-melo-store\<close> as a machine: a step is a call, a session change, a query that fills the cache of extended
  commitments, or the end of a block. What holds of every reachable storage, and what later steps leave
  of the submissions of a block.
\<close>

section \<open>A submission\<close>

definition submit_ok :: "StoreConfig \<Rightarrow> 'g1 SidecarMetadata \<Rightarrow> ('acc, 'g1, 'auth) Store \<Rightarrow> bool" where
  "submit_ok cfg p s \<longleftrightarrow>
     SidecarMetadata_check p \<and> (unat (sm_bytes_len p) + BYTES_PER_BLOB - 1) div BYTES_PER_BLOB \<le> MaxBlobNum cfg \<and>
     sm_app_id p \<le> st_AppId s \<and> sm_nonce p = u32_saturating_add (st_Nonces s (st_AppId s)) 1 \<and>
     length (sm_commitments p) \<le> MaxBlobNum cfg \<and> length (st_Metadata s (st_block_number s)) < MaxKeys cfg"

definition submitted_metadata :: "'acc \<Rightarrow> 'g1 SidecarMetadata \<Rightarrow> ('acc, 'g1) BlobMetadata" where
  "submitted_metadata who p =
     \<lparr> bm_app_id = sm_app_id p, bm_from = who, bm_commitments = sm_commitments p, bm_proofs = sm_proofs p,
       bm_bytes_len = sm_bytes_len p, bm_is_available = True, bm_nonce = sm_nonce p \<rparr>"

definition submitted :: "'acc \<Rightarrow> 'g1 SidecarMetadata \<Rightarrow> ('acc, 'g1, 'auth) Store \<Rightarrow> ('acc, 'g1, 'auth) Store" where
  "submitted who p s =
     (let b = st_block_number s in
      s\<lparr> st_Metadata := (st_Metadata s)(b := st_Metadata s b @ [submitted_metadata who p]),
         st_Nonces := (st_Nonces s)(st_AppId s := sm_nonce p),
         st_events := st_events s @ [DataReceived (sm_bytes_len p) who (sm_app_id p) (of_nat (length (st_Metadata s b)))
                                       (sm_commitments p) (sm_proofs p)] \<rparr>)"

lemma blob_count_pallet:
  "blob_count n BYTES_PER_BLOB = Inr ((n + BYTES_PER_BLOB - 1) div BYTES_PER_BLOB)"
  by (simp add: blob_count_def BYTES_PER_BLOB_def FIELD_ELEMENTS_PER_BLOB_def BYTES_PER_FIELD_ELEMENT_def)

lemma submit_data_eq:
  "submit_ok cfg p s \<Longrightarrow> submit_data cfg (Signed who) p s = (Inr (), submitted who p s)"
  by (simp add: submit_data_def submit_ok_def submitted_def submitted_metadata_def blob_count_pallet
      SidecarMetadata_check_def Let_def deposit_event_def not_le not_less)

lemma submit_data_Inr:
  assumes "submit_data cfg orig p s = (Inr u, s')"
  obtains who where "orig = Signed who" "submit_ok cfg p s" "s' = submitted who p s"
proof -
  from assms obtain who where w: "orig = Signed who" by (cases orig) (auto simp: submit_data_def)
  with assms have "submit_ok cfg p s"
    by (auto simp: submit_data_def submit_ok_def blob_count_pallet Let_def not_le not_less split: if_splits)
  with w assms that show thesis by (simp add: submit_data_eq)
qed

lemma submit_data_Inl: "submit_data cfg orig p s = (Inl e, s') \<Longrightarrow> s' = s"
  by (cases orig) (auto simp: submit_data_def Let_def split: if_splits sum.splits)

section \<open>Steps\<close>

text \<open>The end of a block: \<open>on_finalize\<close>, after which the system pallet starts the next block. The
  block number does not wrap.\<close>

definition next_block ::
  "(nat \<Rightarrow> (u32 \<Rightarrow> u32 list option) \<Rightarrow> (u32 \<Rightarrow> u32 list option)) \<Rightarrow> StoreConfig \<Rightarrow> ('acc, 'g1, 'auth) Store \<Rightarrow> ('acc, 'g1, 'auth) Store" where
  "next_block clear cfg s =
     (on_finalize clear cfg (st_block_number s) s)\<lparr> st_block_number := st_block_number s + 1 \<rparr>"

inductive store_step ::
  "(nat \<Rightarrow> (u32 \<Rightarrow> u32 list option) \<Rightarrow> (u32 \<Rightarrow> u32 list option)) \<Rightarrow> ('fr, 'g1, 'g2, 'fs, 'fk) kzg_lib \<Rightarrow> ('g1, 'g2, 'fs) KZG
    \<Rightarrow> StoreConfig \<Rightarrow> permill_lib \<Rightarrow> ('acc, 'g1, 'auth) Store \<Rightarrow> ('acc, 'g1, 'auth) Store \<Rightarrow> bool"
  for clear L kzg cfg pm where
    submit: "store_step clear L kzg cfg pm s (snd (dispatch (submit_data cfg orig p) s))"
  | vote: "store_step clear L kzg cfg pm s (snd (dispatch (report cfg pm orig r) s))"
  | register: "store_step clear L kzg cfg pm s (snd (dispatch (register_app orig) s))"
  | query: "store_step clear L kzg cfg pm s (snd (commitments_from_position L kzg cfg b pos s))"
  | push_ext: "push_commitments_ext cfg b cs s = Inr s' \<Longrightarrow> store_step clear L kzg cfg pm s s'"
  | session: "store_step clear L kzg cfg pm s (on_new_session changed validators queued s)"
  | disabled: "on_disabled i s = Inr s' \<Longrightarrow> store_step clear L kzg cfg pm s s'"
  | end_block: "st_block_number s < - 1 \<Longrightarrow> store_step clear L kzg cfg pm s (next_block clear cfg s)"

inductive store_steps ::
  "(nat \<Rightarrow> (u32 \<Rightarrow> u32 list option) \<Rightarrow> (u32 \<Rightarrow> u32 list option)) \<Rightarrow> ('fr, 'g1, 'g2, 'fs, 'fk) kzg_lib \<Rightarrow> ('g1, 'g2, 'fs) KZG
    \<Rightarrow> StoreConfig \<Rightarrow> permill_lib \<Rightarrow> ('acc, 'g1, 'auth) Store \<Rightarrow> ('acc, 'g1, 'auth) Store \<Rightarrow> bool"
  for clear L kzg cfg pm where
    refl: "store_steps clear L kzg cfg pm s s"
  | trans: "store_steps clear L kzg cfg pm s s' \<Longrightarrow> store_step clear L kzg cfg pm s' s'' \<Longrightarrow> store_steps clear L kzg cfg pm s s''"

text \<open>What a step does to the submissions and the votes, one case per kind of change.\<close>

lemma step_cases [consumes 1, case_names same submit vote end_block]:
  assumes "store_step clear L kzg cfg pm s s'"
  obtains
    (same) "st_block_number s' = st_block_number s" "st_Metadata s' = st_Metadata s"
           "st_UnavailableVote s' = st_UnavailableVote s"
  | (submit) who p where "submit_ok cfg p s" "s' = submitted who p s"
  | (vote) r where "report_ok cfg r s" "s' = reported pm r s"
  | (end_block) "st_block_number s < - 1" "s' = next_block clear cfg s"
  using assms
proof (cases rule: store_step.cases)
  case (submit orig p)
  obtain x t where xt: "submit_data cfg orig p s = (x, t)" by fastforce
  show ?thesis
  proof (cases x)
    case Inl
    with xt submit same show ?thesis by (simp add: dispatch_def)
  next
    case (Inr u)
    with xt obtain who where "submit_ok cfg p s" "t = submitted who p s" by (auto elim: submit_data_Inr)
    with Inr xt submit that(2) show ?thesis by (simp add: dispatch_def)
  qed
next
  case (vote orig r)
  show ?thesis
  proof (cases "orig = Unsigned \<and> report_ok cfg r s")
    case True
    with vote have "s' = reported pm r s" by (simp add: dispatch_report(1))
    with True show ?thesis by (intro that(3)) auto
  next
    case False
    with dispatch_report(2) [of cfg r s orig pm] obtain e where "dispatch (report cfg pm orig r) s = (Inl e, s)" by auto
    with vote same show ?thesis by simp
  qed
next
  case (register orig)
  then show ?thesis by (intro same) (cases orig; simp add: dispatch_def register_app_def Let_def deposit_event_def)+
next
  case (query b pos)
  then show ?thesis
    by (intro same) (simp_all add: commitments_from_position_def Let_def split: option.splits sum.splits)
next
  case (push_ext b cs)
  then show ?thesis by (intro same) (auto simp: push_commitments_ext_def Let_def split: if_splits)
next
  case (session changed validators queued)
  then show ?thesis by (intro same) (simp_all add: on_new_session_def)
next
  case (disabled i)
  then show ?thesis by (intro same) (auto simp: on_disabled_def split: if_splits)
next
  case end_block
  then show ?thesis by (intro that(4))
qed

section \<open>The invariant of the storage\<close>

text \<open>What the storage library documents of \<open>clear_prefix\<close>: it only removes entries, and all of
  them when there are at most as many as the limit.\<close>

definition clear_documented :: "(nat \<Rightarrow> (u32 \<Rightarrow> u32 list option) \<Rightarrow> (u32 \<Rightarrow> u32 list option)) \<Rightarrow> bool" where
  "clear_documented clear \<longleftrightarrow>
     (\<forall>n m. clear n m \<subseteq>\<^sub>m m \<and> (card (dom m) \<le> n \<longrightarrow> clear n m = Map.empty))"

definition metadata_wf :: "StoreConfig \<Rightarrow> ('acc, 'g1) BlobMetadata \<Rightarrow> bool" where
  "metadata_wf cfg m \<longleftrightarrow>
     bm_commitments m \<noteq> [] \<and> length (bm_commitments m) = length (bm_proofs m) \<and>
     length (bm_commitments m) \<le> MaxBlobNum cfg \<and> bm_bytes_len m > 0"

definition metadata_inv :: "StoreConfig \<Rightarrow> ('acc, 'g1, 'auth) Store \<Rightarrow> bool" where
  "metadata_inv cfg s \<longleftrightarrow>
     (\<forall>b. st_block_number s < b \<longrightarrow> st_Metadata s b = []) \<and>
     (\<forall>b. length (st_Metadata s b) \<le> MaxKeys cfg \<and> (\<forall>m\<in>set (st_Metadata s b). metadata_wf cfg m))"

definition vote_wf :: "StoreConfig \<Rightarrow> nat \<Rightarrow> u32 \<Rightarrow> u32 list \<Rightarrow> bool" where
  "vote_wf cfg n i v \<longleftrightarrow> v \<noteq> [] \<and> distinct v \<and> length v \<le> MaxBlobNum cfg \<and> unat i < n"

definition votes_inv :: "StoreConfig \<Rightarrow> ('acc, 'g1, 'auth) Store \<Rightarrow> bool" where
  "votes_inv cfg s \<longleftrightarrow>
     (\<forall>b i v. st_UnavailableVote s b i = Some v \<longrightarrow> vote_wf cfg (length (st_Metadata s b)) i v)"

definition unavailable_inv :: "('acc, 'g1, 'auth) Store \<Rightarrow> bool" where
  "unavailable_inv s \<longleftrightarrow>
     (\<forall>b j. unat (st_block_number s) \<le> unat b + 1 \<and> j < length (st_Metadata s b) \<and>
        \<not> bm_is_available (st_Metadata s b ! j) \<longrightarrow> st_UnavailableVote s b (of_nat j) \<noteq> None)"

definition store_inv :: "StoreConfig \<Rightarrow> ('acc, 'g1, 'auth) Store \<Rightarrow> bool" where
  "store_inv cfg s \<longleftrightarrow> metadata_inv cfg s \<and> votes_inv cfg s \<and> unavailable_inv s"

lemma wf_submitted: "submit_ok cfg p s \<Longrightarrow> metadata_wf cfg (submitted_metadata who p)"
  by (auto simp: submit_ok_def metadata_wf_def submitted_metadata_def SidecarMetadata_check_def)

lemma marked_fields [simp]:
  "bm_commitments (marked pm s n m) = bm_commitments m" "bm_proofs (marked pm s n m) = bm_proofs m"
  "bm_bytes_len (marked pm s n m) = bm_bytes_len m" "bm_app_id (marked pm s n m) = bm_app_id m"
  "bm_nonce (marked pm s n m) = bm_nonce m" "bm_from (marked pm s n m) = bm_from m"
  by (simp_all add: marked_def)

lemma wf_marked [simp]: "metadata_wf cfg (marked pm s n m) = metadata_wf cfg m"
  by (simp add: metadata_wf_def)

lemma st_Metadata_reported:
  "st_Metadata (reported pm r s) = (st_Metadata s)(ur_at_block r :=
     marked_all pm s (ur_at_block r) (set (ur_index_set r)) (st_Metadata s (ur_at_block r)))"
  by (simp add: reported_def deposit_event_def Let_def)

lemma next_block_simps [simp]:
  "st_Metadata (next_block clear cfg s) = st_Metadata s"
  "st_block_number (next_block clear cfg s) = st_block_number s + 1"
  by (simp_all add: next_block_def on_finalize_def Let_def)

lemma votes_next_block:
  "st_UnavailableVote (next_block clear cfg s) b =
     (if 2 < st_block_number s \<and> b = st_block_number s - 2 then clear (MaxBlobNum cfg) (st_UnavailableVote s b)
      else st_UnavailableVote s b)"
  by (auto simp: next_block_def on_finalize_def DELAY_CHECK_THRESHOLD_def Let_def)

lemma unat_succ: "(n :: u32) < - 1 \<Longrightarrow> unat (n + 1) = unat n + 1"
proof -
  assume "n < - 1"
  then have "1 + n \<noteq> 0" by (auto simp: add_eq_0_iff)
  then show ?thesis by (simp add: unatSuc add.commute)
qed

lemma metadata_inv_step:
  assumes "store_step clear L kzg cfg pm s s'" "metadata_inv cfg s"
  shows "metadata_inv cfg s'"
  using assms(1)
proof (cases rule: step_cases)
  case same
  with assms(2) show ?thesis by (simp add: metadata_inv_def)
next
  case (submit who p)
  with assms(2) wf_submitted [OF submit(1), of who] show ?thesis
    by (auto simp: metadata_inv_def submitted_def Let_def submit_ok_def less_Suc_eq_le [symmetric])
next
  case (vote r)
  have "metadata_wf cfg m'" if "m' \<in> set (marked_all pm s b I ms)" "\<forall>m\<in>set ms. metadata_wf cfg m" for m' b I ms
  proof -
    from that(1) obtain j where "j < length ms" "m' = marked_all pm s b I ms ! j" by (auto simp: in_set_conv_nth)
    then show ?thesis using that(2) wf_marked by (auto simp: nth_marked_all)
  qed
  with assms(2) vote show ?thesis by (auto simp: metadata_inv_def st_Metadata_reported report_ok_def)
next
  case end_block
  have "st_block_number s < b" if "st_block_number s + 1 < b" for b
    using that unat_succ [OF end_block(1)] by (simp add: word_less_nat_alt)
  with assms(2) end_block show ?thesis by (simp add: metadata_inv_def)
qed

lemma votes_of_reported:
  "st_UnavailableVote (reported pm r s) b i =
     (if b = ur_at_block r \<and> i \<in> set (ur_index_set r) then Some (voters s b i @ [ur_authority_index r])
      else st_UnavailableVote s b i)"
  by (simp add: reported_def deposit_event_def with_votes_def Let_def)

lemma clear_documentedD: "clear_documented clear \<Longrightarrow> clear n m i = Some v \<Longrightarrow> m i = Some v"
proof -
  assume "clear_documented clear" and c: "clear n m i = Some v"
  then have "\<forall>k\<in>dom (clear n m). clear n m k = m k" by (simp add: clear_documented_def map_le_def)
  then have "clear n m i = m i" using c by (simp add: dom_def)
  with c show ?thesis by simp
qed

lemma vote_wf_mono: "vote_wf cfg n i v \<Longrightarrow> n \<le> n' \<Longrightarrow> vote_wf cfg n' i v"
  by (simp add: vote_wf_def)

lemma votes_inv_step:
  assumes "store_step clear L kzg cfg pm s s'" "votes_inv cfg s" "clear_documented clear"
  shows "votes_inv cfg s'"
  using assms(1)
proof (cases rule: step_cases)
  case same
  show ?thesis using assms(2) unfolding votes_inv_def same .
next
  case (submit who p)
  have len: "length (st_Metadata s b) \<le> length (st_Metadata s' b)" for b
    by (simp add: submit(2) submitted_def Let_def)
  have "st_UnavailableVote s' = st_UnavailableVote s" by (simp add: submit(2) submitted_def Let_def)
  then show ?thesis using assms(2) vote_wf_mono [OF _ len] unfolding votes_inv_def by simp
next
  case (vote r)
  have "vote_wf cfg (length (st_Metadata s b)) i v" if v: "st_UnavailableVote (reported pm r s) b i = Some v" for b i v
  proof (cases "b = ur_at_block r \<and> i \<in> set (ur_index_set r)")
    case True
    with vote(1) have "vote_ok cfg s b (ur_authority_index r) i" "unat i < length (st_Metadata s b)"
      by (auto simp: report_ok_def)
    moreover have "distinct (voters s b i)"
      using assms(2) by (auto simp: votes_inv_def voters_def vote_wf_def split: option.splits)
    ultimately show ?thesis using v True by (auto simp: votes_of_reported vote_ok_def vote_wf_def)
  next
    case False
    then show ?thesis using v assms(2) by (auto simp: votes_of_reported votes_inv_def)
  qed
  with vote(2) show ?thesis by (simp add: votes_inv_def)
next
  case end_block
  have "st_UnavailableVote s b i = Some v" if "st_UnavailableVote s' b i = Some v" for b i v
    using that end_block(2) clear_documentedD [OF assms(3)] by (auto simp: votes_next_block split: if_splits)
  with assms(2) end_block(2) show ?thesis by (simp add: votes_inv_def)
qed

lemma unavailable_invI:
  assumes "\<And>b j. \<lbrakk> unat (st_block_number s) \<le> unat b + 1; j < length (st_Metadata s b);
     \<not> bm_is_available (st_Metadata s b ! j) \<rbrakk> \<Longrightarrow> st_UnavailableVote s b (of_nat j) \<noteq> None"
  shows "unavailable_inv s"
  using assms unfolding unavailable_inv_def by blast

lemma unavailable_invD:
  "\<lbrakk> unavailable_inv s; unat (st_block_number s) \<le> unat b + 1; j < length (st_Metadata s b);
     \<not> bm_is_available (st_Metadata s b ! j) \<rbrakk> \<Longrightarrow> st_UnavailableVote s b (of_nat j) \<noteq> None"
  unfolding unavailable_inv_def by blast

lemma unavailable_inv_step:
  assumes "store_step clear L kzg cfg pm s s'" "unavailable_inv s"
  shows "unavailable_inv s'"
proof (rule unavailable_invI)
  fix b j assume b: "unat (st_block_number s') \<le> unat b + 1" "j < length (st_Metadata s' b)"
    "\<not> bm_is_available (st_Metadata s' b ! j)"
  note old = unavailable_invD [OF assms(2), of b j]
  from assms(1) show "st_UnavailableVote s' b (of_nat j) \<noteq> None"
  proof (cases rule: step_cases)
    case same
    show ?thesis using old b unfolding same by blast
  next
    case (submit who p)
    have av: "bm_is_available (submitted_metadata who p)" by (simp add: submitted_metadata_def)
    have m: "st_Metadata s' b = (if b = st_block_number s then st_Metadata s b @ [submitted_metadata who p] else st_Metadata s b)"
      using submit(2) by (simp add: submitted_def Let_def)
    have j: "j < length (st_Metadata s b)"
    proof (rule ccontr)
      assume "\<not> j < length (st_Metadata s b)"
      with b(2) m have "b = st_block_number s" "j = length (st_Metadata s b)" by (simp_all split: if_splits)
      with b(3) m av show False by simp
    qed
    with m have "st_Metadata s' b ! j = st_Metadata s b ! j" by (auto simp: nth_append)
    moreover have "st_block_number s' = st_block_number s" "st_UnavailableVote s' = st_UnavailableVote s"
      using submit(2) by (simp_all add: submitted_def Let_def)
    ultimately show ?thesis using old b j by metis
  next
    case (vote r)
    show ?thesis
    proof (cases "b = ur_at_block r \<and> j \<in> unat ` set (ur_index_set r)")
      case True
      then show ?thesis using vote(2) by (auto simp: votes_of_reported)
    next
      case False
      then have "st_Metadata s' b ! j = st_Metadata s b ! j"
        using b(2) unfolding vote(2) by (auto simp: st_Metadata_reported nth_marked_all)
      then have "st_UnavailableVote s b (of_nat j) \<noteq> None"
        by (intro old) (use b vote(2) in simp_all)
      then show ?thesis by (simp add: vote(2) votes_of_reported)
    qed
  next
    case end_block
    have n: "unat (st_block_number s) \<le> unat b" using b(1) end_block unat_succ [OF end_block(1)] by simp
    have "b \<noteq> st_block_number s - 2" if "2 < st_block_number s"
    proof -
      have "2 \<le> st_block_number s" using that by (rule order_less_imp_le)
      moreover have "0 < unat (st_block_number s)" using that by (simp add: word_less_nat_alt)
      ultimately have "unat (st_block_number s - 2) < unat (st_block_number s)" by (simp add: unat_sub)
      with n show ?thesis by auto
    qed
    then have "st_UnavailableVote s' b = st_UnavailableVote s b"
      unfolding end_block(2) votes_next_block by auto
    moreover have "st_UnavailableVote s b (of_nat j) \<noteq> None"
      by (rule old) (use n b end_block(2) in simp_all)
    ultimately show ?thesis by simp
  qed
qed

lemma store_inv_steps:
  assumes "store_steps clear L kzg cfg pm s s'" "store_inv cfg s" "clear_documented clear"
  shows "store_inv cfg s'"
  using assms
  by (induction rule: store_steps.induct)
    (simp_all add: store_inv_def, blast intro: metadata_inv_step votes_inv_step unavailable_inv_step)

definition genesis_store :: "'auth list \<Rightarrow> ('acc, 'g1, 'auth) Store" where
  "genesis_store keys =
     \<lparr> st_block_number = 0, st_Metadata = \<lambda>_. [], st_CommitmentsExt = \<lambda>_. None, st_Keys = keys, st_AppId = 0,
       st_Nonces = \<lambda>_. 0, st_UnavailableVote = \<lambda>_ _. None, st_events = [] \<rparr>"

lemma store_inv_genesis: "store_inv cfg (genesis_store keys)"
  by (simp add: store_inv_def metadata_inv_def votes_inv_def unavailable_inv_def genesis_store_def)

end
