(* ===== verification/Store_Props.thy ===== *)
theory Store_Props
  imports Store_Machine
begin

text \<open>
  What \<open>pallet-melo-store\<close> guarantees over any sequence of steps: well-formed storage, submissions that are only
  appended and settle, and commitments that the lookup table of the header locates.
\<close>

section \<open>Submissions over time\<close>

text \<open>Submissions are only appended, and of one that is stored only the availability changes, from true to false.\<close>

definition metadata_le :: "('acc, 'g1) BlobMetadata \<Rightarrow> ('acc, 'g1) BlobMetadata \<Rightarrow> bool" where
  "metadata_le m m' \<longleftrightarrow>
     bm_app_id m' = bm_app_id m \<and> bm_from m' = bm_from m \<and> bm_commitments m' = bm_commitments m \<and>
     bm_proofs m' = bm_proofs m \<and> bm_bytes_len m' = bm_bytes_len m \<and> bm_nonce m' = bm_nonce m \<and>
     (bm_is_available m' \<longrightarrow> bm_is_available m)"

definition metadata_grows :: "('acc, 'g1) BlobMetadata list \<Rightarrow> ('acc, 'g1) BlobMetadata list \<Rightarrow> bool" where
  "metadata_grows ms ms' \<longleftrightarrow> length ms \<le> length ms' \<and> (\<forall>j<length ms. metadata_le (ms ! j) (ms' ! j))"

lemma metadata_le_refl [simp]: "metadata_le m m"
  by (simp add: metadata_le_def)

lemma metadata_le_trans: "metadata_le m m' \<Longrightarrow> metadata_le m' m'' \<Longrightarrow> metadata_le m m''"
  by (auto simp: metadata_le_def)

lemma metadata_grows_refl [simp]: "metadata_grows ms ms"
  by (simp add: metadata_grows_def)

lemma metadata_grows_trans:
  assumes "metadata_grows x y" "metadata_grows y z"
  shows "metadata_grows x z"
  unfolding metadata_grows_def
proof (intro conjI allI impI)
  show "length x \<le> length z" using assms by (simp add: metadata_grows_def)
  fix j assume "j < length x"
  then have "metadata_le (x ! j) (y ! j)" "metadata_le (y ! j) (z ! j)"
    using assms by (simp_all add: metadata_grows_def)
  then show "metadata_le (x ! j) (z ! j)" by (rule metadata_le_trans)
qed

lemma metadata_grows_snoc [simp]: "metadata_grows ms (ms @ [m])"
  by (simp add: metadata_grows_def nth_append)

lemma metadata_le_marked [simp]: "metadata_le m (marked pm s n m)"
  by (simp add: metadata_le_def marked_def)

lemma metadata_grows_marked_all [simp]: "metadata_grows ms (marked_all pm s b I ms)"
  by (simp add: metadata_grows_def nth_marked_all)

lemma metadata_grows_step:
  assumes "store_step clear L kzg cfg pm s s'"
  shows "metadata_grows (st_Metadata s b) (st_Metadata s' b)"
  using assms by (cases rule: step_cases) (simp_all add: submitted_def st_Metadata_reported Let_def)

lemma metadata_grows_steps:
  "store_steps clear L kzg cfg pm s s' \<Longrightarrow> metadata_grows (st_Metadata s b) (st_Metadata s' b)"
  by (induction rule: store_steps.induct) (auto intro: metadata_grows_trans metadata_grows_step)

text \<open>A block is settled once the block after it has ended.\<close>

lemma settled_step:
  assumes "store_step clear L kzg cfg pm s s'" "unat b + 1 < unat (st_block_number s)"
  shows "st_Metadata s' b = st_Metadata s b \<and> unat b + 1 < unat (st_block_number s')"
  using assms(1)
proof (cases rule: step_cases)
  case (submit who p)
  then show ?thesis using assms(2) by (auto simp: submitted_def Let_def)
next
  case (vote r)
  have "unat (ur_at_block r + 1) \<le> unat (ur_at_block r) + 1" by (simp add: unat_word_ariths)
  with vote(1) assms(2) have "b \<noteq> ur_at_block r"
    by (auto simp: report_ok_def DELAY_CHECK_THRESHOLD_def word_le_nat_alt)
  with vote(2) assms(2) show ?thesis by simp
next
  case end_block
  with assms(2) unat_succ [OF end_block(1)] show ?thesis by simp
qed (use assms(2) in simp)

lemma settled_steps:
  assumes "store_steps clear L kzg cfg pm s s'" "unat b + 1 < unat (st_block_number s)"
  shows "st_Metadata s' b = st_Metadata s b \<and> unat b + 1 < unat (st_block_number s')"
  using assms by (induction rule: store_steps.induct) (use settled_step in fastforce)+

lemma get_commitments_cong: "st_Metadata s' b = st_Metadata s b \<Longrightarrow> get_commitments b s' = get_commitments b s"
  by (simp add: get_commitments_def iter_metadata_def)

section \<open>The lookup table of a block\<close>

lemma nth_concat_take:
  assumes "i < length xs" "k < length (f (xs ! i))"
  shows "length (concat (map f (take i xs))) + k < length (concat (map f xs)) \<and>
     concat (map f xs) ! (length (concat (map f (take i xs))) + k) = f (xs ! i) ! k"
proof -
  have "concat (map f xs) = concat (map f (take i xs)) @ f (xs ! i) @ concat (map f (drop (Suc i) xs))"
    using id_take_nth_drop [OF assms(1)] by (metis concat.simps(2) concat_append list.simps(9) map_append)
  then show ?thesis using assms(2) by (simp add: nth_append)
qed

lemma fold_rows:
  "foldl (\<lambda>(cs, ls) m. (cs @ bm_commitments m, ls @ [app_lookup_of m])) (cs, ls) ms =
     (cs @ concat (map bm_commitments ms), ls @ map app_lookup_of ms)"
  by (induction ms arbitrary: cs ls) simp_all

lemma commitments_and_lookups:
  "get_commitments_and_app_lookups b s = (get_commitments b s, map app_lookup_of (iter_metadata b s))"
  by (simp add: get_commitments_and_app_lookups_def get_commitments_def fold_rows)

lemma length_rows_le:
  "\<forall>m\<in>set ms. length (bm_commitments m) \<le> k \<Longrightarrow> length (concat (map bm_commitments ms)) \<le> length ms * k"
  by (induction ms) auto

lemma lookups_len_rows:
  assumes "\<forall>m\<in>set ms. length (bm_commitments m) < 2 ^ 16"
  shows "lookups_len (map app_lookup_of ms) = length (concat (map bm_commitments ms))"
  using assms by (induction ms) (simp_all add: app_lookup_of_def unsigned_of_nat take_bit_nat_eq_self)

lemma take_rows:
  assumes "\<forall>m\<in>set ms. length (bm_commitments m) < 2 ^ 16"
  shows "lookups_len (take i (map app_lookup_of ms)) = length (concat (map bm_commitments (take i ms)))"
  unfolding take_map using assms by (intro lookups_len_rows) (meson in_set_takeD)

text \<open>The bounds on a block under which its rows are counted without overflow.\<close>

definition rows_bounded :: "StoreConfig \<Rightarrow> bool" where
  "rows_bounded cfg \<longleftrightarrow> MaxBlobNum cfg < 2 ^ 16 \<and> MaxKeys cfg * MaxBlobNum cfg < 2 ^ 32"

lemma metadata_inv_rows:
  assumes "metadata_inv cfg s" "rows_bounded cfg"
  shows "\<forall>m\<in>set (iter_metadata b s). length (bm_commitments m) < 2 ^ 16"
    and "length (get_commitments b s) < 2 ^ 32"
proof -
  from assms(1) have all: "\<forall>m\<in>set (iter_metadata b s). length (bm_commitments m) \<le> MaxBlobNum cfg"
    and n: "length (iter_metadata b s) \<le> MaxKeys cfg"
    by (auto simp: metadata_inv_def metadata_wf_def iter_metadata_def intro: order.trans [OF length_filter_le])
  from all assms(2) show "\<forall>m\<in>set (iter_metadata b s). length (bm_commitments m) < 2 ^ 16"
    by (auto simp: rows_bounded_def)
  have "length (get_commitments b s) \<le> length (iter_metadata b s) * MaxBlobNum cfg"
    unfolding get_commitments_def by (rule length_rows_le [OF all])
  also have "\<dots> \<le> MaxKeys cfg * MaxBlobNum cfg" using n by (rule mult_le_mono1)
  finally have "length (get_commitments b s) \<le> MaxKeys cfg * MaxBlobNum cfg" .
  with assms(2) show "length (get_commitments b s) < 2 ^ 32" by (simp add: rows_bounded_def)
qed

definition commit_list_good :: "(StoreConfig \<times> ('acc, 'g1, 'auth) Store) \<Rightarrow> bool" where
  "commit_list_good cs \<longleftrightarrow> metadata_inv (fst cs) (snd cs) \<and> rows_bounded (fst cs)"

interpretation commit_list: header_commit_list "\<lambda>cs. commit_list_last (snd cs)" commit_list_good
proof
  fix cs :: "StoreConfig \<times> ('acc, 'g1, 'auth) Store"
  obtain cfg s where cs: "cs = (cfg, s)" by (cases cs)
  assume good: "commit_list_good cs"
  with cs have inv: "metadata_inv cfg s" "rows_bounded cfg" by (simp_all add: commit_list_good_def)
  show "lookups_len (snd (commit_list_last (snd cs))) = length (fst (commit_list_last (snd cs)))"
    using lookups_len_rows [OF metadata_inv_rows(1) [OF inv]]
    by (simp add: cs commit_list_last_def commitments_and_lookups Let_def get_commitments_def)
  show "length (fst (commit_list_last (snd cs))) < 2 ^ 32"
    using metadata_inv_rows(2) [OF inv] by (simp add: cs commit_list_last_def commitments_and_lookups Let_def)
qed

section \<open>Properties\<close>

text \<open>C4: Every storage reachable from the genesis is well formed: no block after the current one has submissions,
  a block has at most \<open>MaxKeys\<close> of them and each has as many proofs as commitments, at least one and at
  most \<open>MaxBlobNum\<close>, and a positive length; every recorded vote is for an existing submission, by
  different authority indices, at least one and at most \<open>MaxBlobNum\<close>; and in the current and the previous
  block only submissions with a vote are unavailable.\<close>

theorem store_reachable_wf:
  assumes "clear_documented clear" and "store_steps clear L kzg cfg pm (genesis_store keys) s"
  shows "(\<forall>b. st_block_number s < b \<longrightarrow> st_Metadata s b = []) \<and>
     (\<forall>b. length (st_Metadata s b) \<le> MaxKeys cfg) \<and>
     (\<forall>b. \<forall>m\<in>set (st_Metadata s b). bm_commitments m \<noteq> [] \<and> length (bm_commitments m) = length (bm_proofs m) \<and>
        length (bm_commitments m) \<le> MaxBlobNum cfg \<and> bm_bytes_len m > 0) \<and>
     (\<forall>b i v. st_UnavailableVote s b i = Some v \<longrightarrow>
        v \<noteq> [] \<and> distinct v \<and> length v \<le> MaxBlobNum cfg \<and> unat i < length (st_Metadata s b)) \<and>
     (\<forall>b j. unat (st_block_number s) \<le> unat b + 1 \<and> j < length (st_Metadata s b) \<and>
        \<not> bm_is_available (st_Metadata s b ! j) \<longrightarrow> st_UnavailableVote s b (of_nat j) \<noteq> None)"
  using store_inv_steps [OF assms(2) store_inv_genesis assms(1)]
  unfolding store_inv_def metadata_inv_def votes_inv_def unavailable_inv_def metadata_wf_def vote_wf_def by blast

text \<open>An instance for the examples: a storage that clears a prefix when it has few enough entries.\<close>

definition sample_clear :: "nat \<Rightarrow> (u32 \<Rightarrow> u32 list option) \<Rightarrow> (u32 \<Rightarrow> u32 list option)" where
  "sample_clear n m = (if card (dom m) \<le> n then Map.empty else m)"

lemma sample_clear_documented: "clear_documented sample_clear"
  by (simp add: clear_documented_def sample_clear_def)

definition sample_params :: "u32 \<Rightarrow> u32 \<Rightarrow> nat list \<Rightarrow> nat SidecarMetadata" where
  "sample_params app nonce cs =
     \<lparr> sm_app_id = app, sm_bytes_len = 31, sm_nonce = nonce, sm_commitments = cs, sm_proofs = cs \<rparr>"

lemma submit_ok_sample:
  assumes "app \<le> st_AppId s" "nonce = u32_saturating_add (st_Nonces s (st_AppId s)) 1" "cs \<noteq> []" "length cs \<le> 100"
    "length (st_Metadata s (st_block_number s)) < 100"
  shows "submit_ok sample_config (sample_params app nonce cs) s"
  using assms by (simp add: submit_ok_def sample_params_def sample_config_def SidecarMetadata_check_def
      BYTES_PER_BLOB_def FIELD_ELEMENTS_PER_BLOB_def BYTES_PER_FIELD_ELEMENT_def)

lemma submit_step:
  "submit_ok cfg p s \<Longrightarrow> store_step clear L kzg cfg pm s (submitted who p s)"
  using store_step.submit [of clear L kzg cfg pm s "Signed who" p] by (simp add: dispatch_def submit_data_eq)

theorem store_reachable_wf_witness:
  "let s = snd (dispatch (submit_data sample_config (Signed 7) (sample_params 0 1 [5, 6])) (genesis_store [10, 11, 12 :: nat]))
   in st_Metadata s 0 = [submitted_metadata (7 :: nat) (sample_params 0 1 [5, 6])] \<and> st_Metadata s 1 = [] \<and>
      length (bm_commitments (hd (st_Metadata s 0))) = length (bm_proofs (hd (st_Metadata s 0)))"
proof -
  let ?g = "genesis_store [10, 11, 12] :: (nat, nat, nat) Store"
  let ?p = "sample_params 0 1 [5, 6]"
  have ok: "submit_ok sample_config ?p ?g"
    by (rule submit_ok_sample) (simp_all add: genesis_store_def u32_saturating_add_def)
  then have s: "snd (dispatch (submit_data sample_config (Signed 7) ?p) ?g) = submitted 7 ?p ?g"
    by (simp add: dispatch_def submit_data_eq)
  have run: "store_steps sample_clear undefined undefined sample_config sample_permill ?g (submitted 7 ?p ?g)"
    by (rule store_steps.trans [OF store_steps.refl submit_step [OF ok]])
  have b: "st_block_number (submitted 7 ?p ?g) = 0" "st_Metadata (submitted 7 ?p ?g) 0 = [submitted_metadata 7 ?p]"
    by (simp_all add: submitted_def genesis_store_def Let_def)
  note wf = store_reachable_wf [OF sample_clear_documented run]
  have "st_Metadata (submitted 7 ?p ?g) 1 = []"
    using wf [THEN conjunct1, THEN spec, of 1] b(1) by simp
  moreover have "length (bm_commitments (hd (st_Metadata (submitted 7 ?p ?g) 0))) =
      length (bm_proofs (hd (st_Metadata (submitted 7 ?p ?g) 0)))"
    using wf [THEN conjunct2, THEN conjunct2, THEN conjunct1, THEN spec, of 0] b(2) by simp
  ultimately show ?thesis using s b(2) by simp
qed

text \<open>C6: Submissions are never lost or altered, and a block settles. Over any sequence of steps the submissions of a
  block keep their position and all their fields except that an available one may become unavailable, never
  the other way round; and once a block is more than one block old, nothing changes its submissions any more,
  so the commitments and lookups computed for it stay the same.\<close>

theorem submissions_append_only_and_settle:
  assumes "store_steps clear L kzg cfg pm s s'"
  shows "(\<forall>b j. j < length (st_Metadata s b) \<longrightarrow> j < length (st_Metadata s' b) \<and>
        (let m = st_Metadata s b ! j; m' = st_Metadata s' b ! j in
         bm_app_id m' = bm_app_id m \<and> bm_from m' = bm_from m \<and> bm_commitments m' = bm_commitments m \<and>
         bm_proofs m' = bm_proofs m \<and> bm_bytes_len m' = bm_bytes_len m \<and> bm_nonce m' = bm_nonce m \<and>
         (bm_is_available m' \<longrightarrow> bm_is_available m))) \<and>
     (\<forall>b. unat b + 1 < unat (st_block_number s) \<longrightarrow>
        st_Metadata s' b = st_Metadata s b \<and> get_commitments b s' = get_commitments b s \<and>
        get_commitments_and_app_lookups b s' = get_commitments_and_app_lookups b s)"
  using metadata_grows_steps [OF assms] settled_steps [OF assms]
  by (simp add: metadata_grows_def metadata_le_def Let_def get_commitments_def get_commitments_and_app_lookups_def
      iter_metadata_def) (blast intro: less_le_trans)

theorem submissions_append_only_and_settle_witness:
  "let s = sample_store\<lparr> st_block_number := 7 \<rparr>;
       s' = snd (dispatch (submit_data sample_config (Signed 7) (sample_params 0 3 [5, 6])) s)
   in st_Metadata s' 7 \<noteq> [] \<and> get_commitments 5 s' = get_commitments 5 s \<and> get_commitments 5 s = [7, 8, 9]"
proof -
  let ?s = "sample_store\<lparr> st_block_number := 7 \<rparr>"
  let ?p = "sample_params 0 3 [5, 6]"
  have ok: "submit_ok sample_config ?p ?s"
    by (rule submit_ok_sample) (simp_all add: sample_store_def u32_saturating_add_def)
  then have s: "snd (dispatch (submit_data sample_config (Signed 7) ?p) ?s) = submitted 7 ?p ?s"
    by (simp add: dispatch_def submit_data_eq)
  have "store_steps sample_clear undefined undefined sample_config sample_permill ?s (submitted 7 ?p ?s)"
    by (rule store_steps.trans [OF store_steps.refl submit_step [OF ok]])
  from submissions_append_only_and_settle [OF this] s show ?thesis
    by (simp add: submitted_def Let_def) (simp add: sample_store_def sample_metadata_def get_commitments_def iter_metadata_def)
qed

text \<open>C5: A submission is accepted exactly when it comes from a signed origin, its metadata are consistent, it fits the
  limits, its application exists and its nonce is the next one; then it is appended as available to the
  current block, its commitments come after those already there, and the event names its position. A
  rejected submission changes nothing.\<close>

theorem submit_data_effect:
  assumes "dispatch (submit_data cfg orig p) s = (res, s')"
  shows "(res = Inr () \<longleftrightarrow> orig \<noteq> Unsigned \<and> submit_ok cfg p s) \<and>
     (res \<noteq> Inr () \<longrightarrow> s' = s) \<and>
     (res = Inr () \<longrightarrow>
        (let b = st_block_number s; i = length (st_Metadata s b) in
         take i (st_Metadata s' b) = st_Metadata s b \<and> length (st_Metadata s' b) = i + 1 \<and>
         Signed (bm_from (st_Metadata s' b ! i)) = orig \<and> bm_is_available (st_Metadata s' b ! i) \<and>
         bm_app_id (st_Metadata s' b ! i) = sm_app_id p \<and> bm_nonce (st_Metadata s' b ! i) = sm_nonce p \<and>
         get_commitments b s' = get_commitments b s @ sm_commitments p \<and>
         last (st_events s') = DataReceived (sm_bytes_len p) (bm_from (st_Metadata s' b ! i)) (sm_app_id p) (of_nat i)
                                 (sm_commitments p) (sm_proofs p) \<and>
         (\<forall>b'. b' \<noteq> b \<longrightarrow> st_Metadata s' b' = st_Metadata s b')))"
proof (cases "orig \<noteq> Unsigned \<and> submit_ok cfg p s")
  case True
  then obtain who where "orig = Signed who" by (cases orig) auto
  with True assms have "res = Inr ()" "s' = submitted who p s" by (simp_all add: dispatch_def submit_data_eq)
  with True \<open>orig = Signed who\<close> show ?thesis
    by (simp add: submitted_def submitted_metadata_def Let_def get_commitments_def iter_metadata_def)
next
  case False
  obtain x t where xt: "submit_data cfg orig p s = (x, t)" by fastforce
  have "\<exists>e. x = Inl e"
  proof (cases x)
    case (Inr u)
    with xt False show ?thesis by (auto elim: submit_data_Inr)
  qed simp
  with assms xt have "\<exists>e. res = Inl e" "s' = s" by (auto simp: dispatch_def)
  with False show ?thesis by auto
qed

theorem submit_data_effect_witness:
  "let (res, s') = dispatch (submit_data sample_config (Signed 7) (sample_params 0 3 [5, 6])) sample_store
   in res = Inr () \<and> get_commitments 5 s' = [7, 8, 9, 5, 6]"
proof -
  let ?p = "sample_params 0 3 [5, 6]"
  obtain res s' where d: "dispatch (submit_data sample_config (Signed 7) ?p) sample_store = (res, s')" by fastforce
  have "submit_ok sample_config ?p sample_store"
    by (rule submit_ok_sample) (simp_all add: sample_store_def u32_saturating_add_def)
  with submit_data_effect [OF d] d show ?thesis
    by (simp add: Let_def) (simp add: sample_store_def sample_metadata_def sample_params_def get_commitments_def iter_metadata_def)
qed

lemma located_commitment:
  assumes "metadata_inv cfg s" "rows_bounded cfg"
    "AppLookup_get_lookup (map app_lookup_of (iter_metadata b s)) y = Some (l, off)"
  shows "\<exists>m\<in>set (iter_metadata b s). l = app_lookup_of m \<and> unat off < length (bm_commitments m) \<and>
     unat y < length (get_commitments b s) \<and> get_commitments b s ! unat y = bm_commitments m ! unat off"
proof -
  let ?ms = "iter_metadata b s"
  note small = metadata_inv_rows(1) [OF assms(1,2), of b]
  have "lookups_len (map app_lookup_of ?ms) < 2 ^ 32"
    using lookups_len_rows [OF small] metadata_inv_rows(2) [OF assms(1,2), of b] by (simp add: get_commitments_def)
  from assms(3) [unfolded get_lookup_Some_iff [OF this]] obtain i where i: "i < length ?ms" "l = app_lookup_of (?ms ! i)"
      "unat y = lookups_len (take i (map app_lookup_of ?ms)) + unat off" "unat off < unat (al_count l)"
    by auto
  have "unat (al_count l) = length (bm_commitments (?ms ! i))"
    using i(1,2) small by (simp add: app_lookup_of_def unsigned_of_nat take_bit_nat_eq_self)
  with i(4) have off: "unat off < length (bm_commitments (?ms ! i))" by simp
  from nth_concat_take [where f = bm_commitments, OF i(1) off] i(3) take_rows [OF small, of i]
  have "unat y < length (get_commitments b s) \<and> get_commitments b s ! unat y = bm_commitments (?ms ! i) ! unat off"
    by (simp add: get_commitments_def)
  with i(1,2) off show ?thesis by (intro bexI [of _ "?ms ! i"]) auto
qed

text \<open>C7: The lookup table a block is published with finds the owner of every row. In every reachable storage, for
  the commitments and lookups computed for a block, a row is attributed exactly when it is one of the commitments,
  and then to an available submission of the block whose commitment at the answered offset is the
  commitment of that row.\<close>

theorem lookups_locate_commitments:
  assumes "clear_documented clear" and "rows_bounded cfg" and "store_steps clear L kzg cfg pm (genesis_store keys) s"
    and "get_commitments_and_app_lookups b s = (cs, ls)"
  shows "(AppLookup_get_lookup ls y = None \<longleftrightarrow> length cs \<le> unat y) \<and>
     (\<forall>l off. AppLookup_get_lookup ls y = Some (l, off) \<longrightarrow>
        (\<exists>m\<in>set (st_Metadata s b). bm_is_available m \<and> al_app_id l = bm_app_id m \<and> al_nonce l = bm_nonce m \<and>
           unat (al_count l) = length (bm_commitments m) \<and> unat off < length (bm_commitments m) \<and>
           cs ! unat y = bm_commitments m ! unat off))"
proof -
  have inv: "metadata_inv cfg s"
    using store_inv_steps [OF assms(3) store_inv_genesis assms(1)] by (simp add: store_inv_def)
  note small = metadata_inv_rows(1) [OF inv assms(2), of b]
  from assms(4) have cs: "cs = get_commitments b s" and ls: "ls = map app_lookup_of (iter_metadata b s)"
    by (simp_all add: commitments_and_lookups)
  have "lookups_len ls = length cs" using lookups_len_rows [OF small] by (simp add: cs ls get_commitments_def)
  moreover from this have "AppLookup_get_lookup ls y = None \<longleftrightarrow> lookups_len ls \<le> unat y"
    using metadata_inv_rows(2) [OF inv assms(2), of b] by (intro get_lookup_None_iff) (simp add: cs)
  moreover have "\<exists>m\<in>set (st_Metadata s b). bm_is_available m \<and> al_app_id l = bm_app_id m \<and> al_nonce l = bm_nonce m \<and>
           unat (al_count l) = length (bm_commitments m) \<and> unat off < length (bm_commitments m) \<and>
           cs ! unat y = bm_commitments m ! unat off" if lk: "AppLookup_get_lookup ls y = Some (l, off)" for l off
  proof -
    from located_commitment [OF inv assms(2) lk [unfolded ls]] obtain m where m: "m \<in> set (iter_metadata b s)"
        "l = app_lookup_of m" "unat off < length (bm_commitments m)" "cs ! unat y = bm_commitments m ! unat off"
      by (auto simp: cs)
    with small have "unat (al_count l) = length (bm_commitments m)"
      by (simp add: app_lookup_of_def unsigned_of_nat take_bit_nat_eq_self)
    with m show ?thesis by (intro bexI [of _ m]) (auto simp: app_lookup_of_def iter_metadata_def)
  qed
  ultimately show ?thesis by simp
qed

theorem lookups_locate_commitments_witness:
  "let s = snd (dispatch (submit_data sample_config (Signed (7 :: nat)) (sample_params 0 1 [5, 6])) (genesis_store [10, 11, 12 :: nat]));
       (cs, ls) = get_commitments_and_app_lookups 0 s
   in cs = [5, 6] \<and> AppLookup_get_lookup ls 1 \<noteq> None \<and> AppLookup_get_lookup ls 2 = None"
proof -
  let ?g = "genesis_store [10, 11, 12] :: (nat, nat, nat) Store"
  let ?p = "sample_params 0 1 [5, 6]"
  let ?s = "submitted 7 ?p ?g"
  have ok: "submit_ok sample_config ?p ?g"
    by (rule submit_ok_sample) (simp_all add: genesis_store_def u32_saturating_add_def)
  then have s: "snd (dispatch (submit_data sample_config (Signed 7) ?p) ?g) = ?s"
    by (simp add: dispatch_def submit_data_eq)
  have run: "store_steps sample_clear undefined undefined sample_config sample_permill ?g ?s"
    by (rule store_steps.trans [OF store_steps.refl submit_step [OF ok]])
  obtain cs ls where d: "get_commitments_and_app_lookups 0 ?s = (cs, ls)" by fastforce
  then have "cs = get_commitments 0 ?s" by (simp add: commitments_and_lookups)
  then have cs: "cs = [5, 6]"
    by (simp add: submitted_def submitted_metadata_def sample_params_def genesis_store_def get_commitments_def
        iter_metadata_def Let_def)
  have "rows_bounded sample_config" by (simp add: rows_bounded_def sample_config_def)
  note locate = lookups_locate_commitments [OF sample_clear_documented this run d, THEN conjunct1]
  have "AppLookup_get_lookup ls 1 \<noteq> None" "AppLookup_get_lookup ls 2 = None"
    unfolding locate cs by simp_all
  then show ?thesis by (simp add: s d cs)
qed

text \<open>C30: The list of voters is bounded by the number of blobs of a block, not by the number of authorities: with twice as many
  authorities as \<open>MaxBlobNum\<close>, or more, no report ever makes a submission unavailable, whatever it names.\<close>

theorem many_authorities_never_unavailable:
  assumes "permill_documented pm" and "length (st_Keys s) < 2 ^ 32" and "2 * MaxBlobNum cfg \<le> length (st_Keys s)"
  shows "st_Metadata (snd (dispatch (report cfg pm orig r) s)) = st_Metadata s"
proof (cases "orig = Unsigned \<and> report_ok cfg r s")
  case True
  have "st_Metadata (reported pm r s) b = st_Metadata s b" for b
  proof (rule nth_equalityI)
    fix j assume "j < length (st_Metadata (reported pm r s) b)"
    then have j: "j < length (st_Metadata s b)" by simp
    have "length (voters (reported pm r s) b (of_nat j)) \<le> MaxBlobNum cfg"
      if "b = ur_at_block r" "j \<in> unat ` set (ur_index_set r)"
      using report_ok_bound [of cfg r s] True that by (auto simp: voters_reported Suc_le_eq)
    then show "st_Metadata (reported pm r s) b ! j = st_Metadata s b ! j"
      using nth_Metadata_reported [OF _ assms(1,2) _ j, of cfg r] True assms(2,3) by auto
  qed simp
  then show ?thesis using True by (auto simp: dispatch_report(1))
next
  case False
  with dispatch_report(2) [of cfg r s orig pm] show ?thesis by auto
qed

theorem many_authorities_never_unavailable_witness:
  "let s = sample_store\<lparr> st_Keys := [1 ..< 201] \<rparr>;
       r = \<lparr> ur_at_block = 5, ur_authority_index = 0, ur_index_set = [0, 1], ur_validators_len = 200 \<rparr>
   in st_Metadata (snd (dispatch (report sample_config sample_permill Unsigned r) s)) = st_Metadata s"
  using many_authorities_never_unavailable [OF sample_permill_documented, of "sample_store\<lparr> st_Keys := [1 ..< 201] \<rparr>" sample_config
      Unsigned "\<lparr> ur_at_block = 5, ur_authority_index = 0, ur_index_set = [0, 1], ur_validators_len = 200 \<rparr>"]
  by (simp add: sample_config_def Let_def)

section \<open>Where the pallet departs from what it is meant to do\<close>

text \<open>C31: The nonce of a submission is checked and stored under the number of the last registered application, not
  under the application of the submission: a first submission is accepted a second time, with the same
  application and nonce, as soon as somebody has registered another application.\<close>

theorem nonce_reused_after_registration:
  assumes "submit_ok cfg p s" and "sm_nonce p = 1" and "st_AppId s < - 1" and "st_Nonces s (st_AppId s + 1) = 0"
    and "Suc (length (st_Metadata s (st_block_number s))) < MaxKeys cfg"
  shows "let s1 = snd (dispatch (submit_data cfg (Signed who) p) s);
             s2 = snd (dispatch (register_app (Signed other)) s1);
             (res, s3) = dispatch (submit_data cfg (Signed who) p) s2
         in res = Inr () \<and>
            st_Metadata s3 (st_block_number s) =
              st_Metadata s (st_block_number s) @ [submitted_metadata who p, submitted_metadata who p]"
proof -
  let ?s1 = "submitted who p s"
  let ?s2 = "snd (dispatch (register_app (Signed other)) ?s1)"
  have s1: "dispatch (submit_data cfg (Signed who) p) s = (Inr (), ?s1)"
    using assms(1) by (simp add: dispatch_def submit_data_eq)
  have s2: "st_AppId ?s2 = st_AppId s + 1" "st_block_number ?s2 = st_block_number s" "st_Nonces ?s2 = st_Nonces ?s1"
      "st_Metadata ?s2 = st_Metadata ?s1"
    by (simp_all add: dispatch_def register_app_def deposit_event_def Let_def submitted_def)
  have "sm_app_id p \<le> st_AppId s + 1"
    using assms(1) unat_succ [OF assms(3)] by (simp add: submit_ok_def word_le_nat_alt)
  moreover have "st_Nonces ?s1 (st_AppId s + 1) = 0" using assms(4) by (simp add: submitted_def Let_def)
  ultimately have "submit_ok cfg p ?s2"
    using assms(1,2,5) s2 by (simp add: submit_ok_def u32_saturating_add_def submitted_def Let_def)
  then have "dispatch (submit_data cfg (Signed who) p) ?s2 = (Inr (), submitted who p ?s2)"
    by (simp add: dispatch_def submit_data_eq)
  then show ?thesis using s1 s2 by (simp add: submitted_def [of who p ?s2] Let_def) (simp add: submitted_def Let_def)
qed

theorem nonce_reused_after_registration_witness:
  "let g = genesis_store [10, 11, 12 :: nat]; p = sample_params 0 1 [5, 6];
       s1 = snd (dispatch (submit_data sample_config (Signed (7 :: nat)) p) g);
       s2 = snd (dispatch (register_app (Signed 8)) s1);
       (res, s3) = dispatch (submit_data sample_config (Signed 7) p) s2
   in res = Inr () \<and> map (\<lambda>m. (bm_app_id m, bm_nonce m)) (st_Metadata s3 0) = [(0, 1), (0, 1)]"
proof -
  let ?g = "genesis_store [10, 11, 12] :: (nat, nat, nat) Store"
  have "submit_ok sample_config (sample_params 0 1 [5, 6]) ?g"
    by (rule submit_ok_sample) (simp_all add: genesis_store_def u32_saturating_add_def)
  moreover have "(0 :: u32) < - 1" by (simp add: word_gt_0)
  ultimately show ?thesis using nonce_reused_after_registration [of sample_config "sample_params 0 1 [5, 6]" ?g 7 8]
    by (auto simp: genesis_store_def sample_params_def submitted_metadata_def sample_config_def Let_def split: prod.splits)
qed

text \<open>C32: Asking for a row below the data changes the answers for the rows of the data. Before the extension of a block
  is cached, row \<open>y\<close> answers the commitment of row \<open>y\<close>; a query for a row past the data, if twice the rows are at most \<open>MaxBlobNum\<close>, stores the
  extension with the original commitments at the even positions, and from then on the commitment of row
  \<open>y\<close> is answered for row \<open>2 * y\<close>.\<close>

theorem cached_extension_moves_rows:
  assumes "g1_extension_documented L (KZG_get_fs kzg) (length (get_commitments b s))"
    and "b \<le> st_block_number s - 1" and "st_CommitmentsExt s b = None"
    and "2 * length (get_commitments b s) \<le> MaxBlobNum cfg" and "MaxBlobNum cfg < 2 ^ 32"
    and "length (get_commitments b s) \<le> unat (pos_y q)" and "unat (pos_y q) < 2 * length (get_commitments b s)"
    and "y < length (get_commitments b s)"
  shows "let s' = snd (commitments_from_position L kzg cfg b q s) in
     fst (commitments_from_position L kzg cfg b \<lparr> pos_x = x, pos_y = of_nat y \<rparr> s) = Some (get_commitments b s ! y) \<and>
     fst (commitments_from_position L kzg cfg b \<lparr> pos_x = x, pos_y = of_nat (2 * y) \<rparr> s') = Some (get_commitments b s ! y)"
proof -
  let ?cs = "get_commitments b s"
  obtain ext where ext: "extend_fs_g1 L (KZG_get_fs kzg) ?cs = Inr ext" "length ext = 2 * length ?cs"
      "\<forall>i < length ?cs. ext ! (2 * i) = ?cs ! i"
    using extend_fs_g1_interleaved [OF assms(1)] by blast
  have y: "unat (of_nat y :: u32) = y" "unat (of_nat (2 * y) :: u32) = 2 * y"
    using assms(4,5,8) by (simp_all only: unat_of_nat_u32)
  have b: "\<not> st_block_number s - DELAY_CHECK_THRESHOLD < b" using assms(2) by (simp add: DELAY_CHECK_THRESHOLD_def)
  have "snd (commitments_from_position L kzg cfg b q s) = s\<lparr> st_CommitmentsExt := (st_CommitmentsExt s)(b := Some ext) \<rparr>"
    using assms(3-7) b ext(1,2) by (simp add: commitments_from_position_def Let_def)
  then show ?thesis
    using y b ext assms(3,8) by (simp add: commitments_from_position_def Let_def get_opt_def del: of_nat_mult)
qed

theorem cached_extension_moves_rows_witness:
  "let s = sample_store\<lparr> st_block_number := 7, st_Metadata := (\<lambda>_. [])(5 := [sample_metadata 1 1 [7, 8]]) \<rparr>;
       L = doubling_lib (undefined :: (nat, nat, nat, nat, nat) kzg_lib);
       s' = snd (commitments_from_position L undefined sample_config 5 \<lparr> pos_x = 0, pos_y = 3 \<rparr> s)
   in fst (commitments_from_position L undefined sample_config 5 \<lparr> pos_x = 0, pos_y = 1 \<rparr> s) = Some 8 \<and>
      fst (commitments_from_position L undefined sample_config 5 \<lparr> pos_x = 0, pos_y = 2 \<rparr> s') = Some 8"
proof -
  let ?s = "sample_store\<lparr> st_block_number := 7, st_Metadata := (\<lambda>_. [])(5 := [sample_metadata 1 1 [7, 8]]) \<rparr>"
  have cs: "get_commitments 5 ?s = [7, 8]"
    by (simp add: get_commitments_def iter_metadata_def sample_metadata_def)
  have e: "st_CommitmentsExt ?s 5 = None" by (simp add: sample_store_def)
  show ?thesis
    using cached_extension_moves_rows [where L = "doubling_lib (undefined :: (nat, nat, nat, nat, nat) kzg_lib)", OF doubling_lib_documented, where b = 5 and s = ?s and cfg = sample_config
        and q = "\<lparr> pos_x = 0, pos_y = 3 \<rparr>" and y = 1 and x = 0 and kzg = undefined] cs e
    by (simp add: sample_config_def Let_def)
qed

end
