(* ===== verification/Store_Offchain.thy ===== *)
theory Store_Offchain
  imports Store_Props
begin

text \<open>
  The off-chain side of \<open>pallet-melo-store\<close>: the lock that keeps an authority from sending a report twice, and
  the reports a worker sends, which the chain it read accepts.
\<close>

section \<open>The lock\<close>

text \<open>What \<open>StorageValueRef\<close> documents, with \<open>rd\<close> the value stored under a key: \<open>mutate\<close> gives the
  closure the stored value, stores what it returns and answers it, leaves the storage alone when the
  closure fails, and may find that somebody else has changed the value; \<open>set\<close> stores the value.\<close>

definition sv_documented :: "'o report_storage \<Rightarrow> ('o \<Rightarrow> bytes \<Rightarrow> ReportStatus option option) \<Rightarrow> bool" where
  "sv_documented sv rd \<longleftrightarrow>
     (\<forall>odb k f. case sv_mutate sv odb k f of
        (Inr v, odb') \<Rightarrow> f (rd odb k) = Inr v \<and> rd odb' = (rd odb)(k := Some (Some v))
      | (Inl (ValueFunctionFailed e), odb') \<Rightarrow> f (rd odb k) = Inl e \<and> rd odb' = rd odb
      | (Inl ConcurrentModification, odb') \<Rightarrow> (\<exists>v. f (rd odb k) = Inr v)) \<and>
     (\<forall>odb k v. rd (sv_set sv odb k v) = (rd odb)(k := Some (Some v)))"

lemma sv_mutate_cases:
  assumes "sv_documented sv rd" "sv_mutate sv odb k f = (x, odb')"
  shows "case x of Inr v \<Rightarrow> f (rd odb k) = Inr v \<and> rd odb' = (rd odb)(k := Some (Some v))
      | Inl (ValueFunctionFailed e) \<Rightarrow> f (rd odb k) = Inl e \<and> rd odb' = rd odb
      | Inl ConcurrentModification \<Rightarrow> (\<exists>v. f (rd odb k) = Inr v)"
  using assms unfolding sv_documented_def
  by (auto dest!: spec [of _ odb] spec [of _ k] spec [of _ f] split: sum.splits MutateStorageError.splits)

lemma sv_mutate_Inr:
  assumes "sv_documented sv rd" "sv_mutate sv odb k f = (Inr v, odb')"
  shows "f (rd odb k) = Inr v" "rd odb' = (rd odb)(k := Some (Some v))"
  using sv_mutate_cases [OF assms] by simp_all

lemma sv_mutate_fails:
  assumes "sv_documented sv rd" "f (rd odb k) = Inl e"
  shows "\<exists>odb'. sv_mutate sv odb k f = (Inl (ValueFunctionFailed e), odb') \<and> rd odb' = rd odb"
proof -
  obtain x odb' where x: "sv_mutate sv odb k f = (x, odb')" by fastforce
  from sv_mutate_cases [OF assms(1) x] x assms(2) show ?thesis
    by (auto split: sum.splits MutateStorageError.splits)
qed

lemma sv_set_rd: "sv_documented sv rd \<Longrightarrow> rd (sv_set sv odb k v) = (rd odb)(k := Some (Some v))"
  by (simp add: sv_documented_def)

definition report_key :: "u32 codec \<Rightarrow> u32 \<Rightarrow> bytes" where
  "report_key uc a = DB_PREFIX @ encode uc a"

lemma lock_closure_Inr: "report_lock_closure b now st = Inr v \<Longrightarrow> v = \<lparr> rs_at_block = b, rs_sent_at = now \<rparr>"
  by (auto simp: report_lock_closure_def split: option.splits if_splits)

lemma with_report_lock_acquired:
  assumes "sv_documented sv rd" "with_report_lock sv uc a b now f (odb, pool) = (Inr r, odb', pool')"
  shows "rd odb' = (rd odb)(report_key uc a := Some (Some \<lparr> rs_at_block = b, rs_sent_at = now \<rparr>)) \<and> f pool = (Inr r, pool')"
proof -
  obtain x t where x: "sv_mutate sv odb (report_key uc a) (report_lock_closure b now) = (x, t)" by fastforce
  with assms(2) obtain v where v: "x = Inr v" "t = odb'" "f pool = (Inr r, pool')"
    by (auto simp: with_report_lock_def report_key_def Let_def split: sum.splits MutateStorageError.splits prod.splits)
  from sv_mutate_Inr [OF assms(1) x [unfolded v(1)]] lock_closure_Inr v show ?thesis by metis
qed

lemma with_report_lock_waits:
  assumes "sv_documented sv rd" "rd odb (report_key uc a) = Some (Some st)" "is_recent st b now"
  shows "\<exists>odb'. with_report_lock sv uc a b now f (odb, pool) = (Inl (WaitingForInclusion (rs_sent_at st)), odb', pool) \<and>
     rd odb' = rd odb"
  using sv_mutate_fails [OF assms(1), of "report_lock_closure b now" odb "report_key uc a" "WaitingForInclusion (rs_sent_at st)"]
    assms(2,3)
  by (auto simp: with_report_lock_def report_key_def Let_def report_lock_closure_def)

text \<open>C13: An authority does not send a report for a block twice. After a report of an authority for a block was sent,
  a further attempt for the same block at the same or an earlier block number does not run at all and answers
  that it waits for the inclusion of the one sent; when sending had failed instead, the lock is left free
  for any later block number than zero.\<close>

theorem report_lock_sends_once:
  assumes "sv_documented sv rd" and "now < - 1"
    and "with_report_lock sv uc a b now f (odb, pool) = (res, odb', pool')"
  shows "(\<forall>r. res = Inr r \<longrightarrow> (\<forall>now' g pool1. now' \<le> now \<longrightarrow>
       (\<exists>odb''. with_report_lock sv uc a b now' g (odb', pool1) = (Inl (WaitingForInclusion now), odb'', pool1) \<and>
          rd odb'' = rd odb'))) \<and>
     (\<forall>v t e p. sv_mutate sv odb (report_key uc a) (report_lock_closure b now) = (Inr v, t) \<and> f pool = (Inl e, p) \<longrightarrow>
        res = Inl e \<and> pool' = p \<and>
        (\<forall>now'>0. report_lock_closure b now' (rd odb' (report_key uc a)) = Inr \<lparr> rs_at_block = b, rs_sent_at = now' \<rparr>))"
proof (intro conjI allI impI)
  fix r now' g pool1 assume "res = Inr r" "now' \<le> now"
  have "is_recent \<lparr> rs_at_block = b, rs_sent_at = now \<rparr> b now'"
    using \<open>now' \<le> now\<close> unat_succ [OF assms(2)] by (simp add: is_recent_def DELAY_CHECK_THRESHOLD_def word_less_nat_alt word_le_nat_alt)
  moreover have "rd odb' (report_key uc a) = Some (Some \<lparr> rs_at_block = b, rs_sent_at = now \<rparr>)"
    using with_report_lock_acquired [OF assms(1)] assms(3) \<open>res = Inr r\<close> by fastforce
  ultimately show "\<exists>odb''. with_report_lock sv uc a b now' g (odb', pool1) = (Inl (WaitingForInclusion now), odb'', pool1) \<and>
      rd odb'' = rd odb'"
    using with_report_lock_waits [OF assms(1), of odb' uc a _ b now' g pool1] by fastforce
next
  fix v t e p assume m: "sv_mutate sv odb (report_key uc a) (report_lock_closure b now) = (Inr v, t) \<and> f pool = (Inl e, p)"
  then have v: "v = \<lparr> rs_at_block = b, rs_sent_at = now \<rparr>"
    using sv_mutate_Inr(1) [OF assms(1)] lock_closure_Inr by metis
  from m assms(3) have r: "res = Inl e" "pool' = p" "odb' = sv_set sv t (report_key uc a) (v\<lparr> rs_sent_at := 0 \<rparr>)"
    by (simp_all add: with_report_lock_def report_key_def Let_def)
  then show "res = Inl e" "pool' = p" by simp_all
  fix now' :: u32 assume "0 < now'"
  then have "1 \<le> now'" "now' \<noteq> 0" by (auto simp: word_less_nat_alt word_le_nat_alt)
  then show "report_lock_closure b now' (rd odb' (report_key uc a)) = Inr \<lparr> rs_at_block = b, rs_sent_at = now' \<rparr>"
    using r(3) v sv_set_rd [OF assms(1)]
    by (simp add: report_lock_closure_def is_recent_def DELAY_CHECK_THRESHOLD_def not_less)
qed

text \<open>An instance: a storage of one run, which nobody else changes.\<close>

definition map_report_storage :: "(bytes \<Rightarrow> ReportStatus option) report_storage" where
  "map_report_storage =
     \<lparr> sv_mutate = \<lambda>odb k f. (case f (Some (odb k)) of Inl e \<Rightarrow> (Inl (ValueFunctionFailed e), odb)
                                                  | Inr v \<Rightarrow> (Inr v, odb(k := Some v))),
       sv_set = \<lambda>odb k v. odb(k := Some v) \<rparr>"

lemma map_report_storage_documented: "sv_documented map_report_storage (\<lambda>odb k. Some (odb k))"
  by (auto simp: sv_documented_def map_report_storage_def split: sum.splits)

theorem report_lock_sends_once_witness:
  "let uc = \<lparr> encode = u32_to_be_bytes, decode = \<lambda>_. None \<rparr>; send = \<lambda>pool. (Inr (), Suc pool);
       (r1, odb, pool) = with_report_lock map_report_storage uc 2 9 9 send (\<lambda>_. None, 0);
       (r2, odb', pool') = with_report_lock map_report_storage uc 2 9 9 send (odb, pool)
   in r1 = Inr () \<and> pool = 1 \<and> r2 = Inl (WaitingForInclusion 9) \<and> pool' = 1"
proof -
  let ?uc = "\<lparr> encode = u32_to_be_bytes, decode = \<lambda>_ :: bytes. None \<rparr> :: u32 codec"
  let ?send = "\<lambda>pool. (Inr () :: OffchainErr + unit, Suc pool)"
  obtain r1 odb pool where d: "with_report_lock map_report_storage ?uc 2 9 9 ?send (\<lambda>_. None, 0) = (r1, odb, pool)"
    by (rule prod_cases3)
  then have r: "r1 = Inr ()" "pool = 1"
    by (auto simp: with_report_lock_def map_report_storage_def report_lock_closure_def Let_def)
  have "(9 :: u32) < - 1" by (simp add: word_less_nat_alt unsigned_minus_1_eq_mask mask_eq_exp_minus_1)
  from report_lock_sends_once [OF map_report_storage_documented this d, THEN conjunct1, rule_format, OF r(1) order_refl,
      of ?send pool]
  obtain odb'' where
    "with_report_lock map_report_storage ?uc 2 9 9 ?send (odb, pool) = (Inl (WaitingForInclusion 9), odb'', pool)"
    by (elim exE conjE)
  then show ?thesis using d r by simp
qed

section \<open>The reports a worker sends\<close>

lemma map_filter_enumerate0:
  "List.map_filter (\<lambda>(i, x). if Q x then Some (g i x) else None) (enumerate0 xs) =
     map (\<lambda>i. g i (xs ! i)) (filter (\<lambda>i. Q (xs ! i)) [0..<length xs])"
proof -
  have "enumerate0 xs = map (\<lambda>i. (i, xs ! i)) [0..<length xs]" by (rule nth_equalityI) simp_all
  then show ?thesis by (simp add: List.map_filter_def filter_map comp_def)
qed

definition unavailable_here ::
  "permill_lib \<Rightarrow> 'o OffchainStorage \<Rightarrow> 'g1 Reliability codec \<Rightarrow> 'o \<Rightarrow> ('acc, 'g1) BlobMetadata \<Rightarrow> bool" where
  "unavailable_here pm os rc odb m \<longleftrightarrow>
     (\<exists>c. get_confidence (OffchainKv_kv os (OffchainKv_new None)) rc (app_confidence (bm_app_id m) (bm_nonce m)) odb = Some c \<and>
        \<not> Reliability_is_availability pm c)"

lemma unavailable_here_fun:
  "(\<lambda>(i, metadata). case get_confidence (OffchainKv_kv os (OffchainKv_new None)) rc
        (app_confidence (bm_app_id metadata) (bm_nonce metadata)) odb of
       Some confidence \<Rightarrow> if \<not> Reliability_is_availability pm confidence then Some (of_nat i :: u32) else None
     | None \<Rightarrow> None) =
   (\<lambda>(i, m). if unavailable_here pm os rc odb m then Some (of_nat i) else None)"
  by (auto simp: fun_eq_iff unavailable_here_def split: option.splits)

lemma get_unavailability_apps_eq:
  "get_unavailability_apps pm os rc odb b s =
     map of_nat (filter (\<lambda>i. unavailable_here pm os rc odb (st_Metadata s b ! i)) [0..<length (st_Metadata s b)])"
  unfolding get_unavailability_apps_def unavailable_here_fun by (rule map_filter_enumerate0)

lemma get_unavailability_apps_indices:
  assumes "length (st_Metadata s b) < 2 ^ 32"
  shows "distinct (get_unavailability_apps pm os rc odb b s)"
    and "i \<in> set (get_unavailability_apps pm os rc odb b s) \<Longrightarrow>
      unat i < length (st_Metadata s b) \<and> unavailable_here pm os rc odb (st_Metadata s b ! unat i)"
proof -
  let ?is = "filter (\<lambda>i. unavailable_here pm os rc odb (st_Metadata s b ! i)) [0..<length (st_Metadata s b)]"
  have u: "unat (of_nat j :: u32) = j" if "j \<in> set ?is" for j
    using that assms by (intro unat_of_nat_u32) simp
  have "inj_on (of_nat :: nat \<Rightarrow> u32) (set ?is)" by (intro inj_onI) (metis u)
  then show "distinct (get_unavailability_apps pm os rc odb b s)"
    unfolding get_unavailability_apps_eq by (simp add: distinct_map)
  show "unat i < length (st_Metadata s b) \<and> unavailable_here pm os rc odb (st_Metadata s b ! unat i)"
    if "i \<in> set (get_unavailability_apps pm os rc odb b s)"
    using that u unfolding get_unavailability_apps_eq by auto
qed

lemma local_authority_keys_eq:
  "local_authority_keys local_keys s =
     map (\<lambda>i. (of_nat i, st_Keys s ! i)) (filter (\<lambda>i. st_Keys s ! i \<in> set local_keys) [0..<length (st_Keys s)])"
  unfolding local_authority_keys_def by (rule map_filter_enumerate0)

text \<open>A transaction pool that keeps the calls it takes.\<close>

definition recording_pool :: "('c list \<Rightarrow> 'c \<Rightarrow> bool) \<Rightarrow> 'c list \<Rightarrow> 'c \<Rightarrow> bool \<times> 'c list" where
  "recording_pool acc pool c = (if acc pool c then (True, pool @ [c]) else (False, pool))"

definition worker_report :: "u32 \<Rightarrow> u32 \<Rightarrow> u32 list \<Rightarrow> ('acc, 'g1, 'auth) Store \<Rightarrow> UnavailableDataReport" where
  "worker_report a b index_set s =
     \<lparr> ur_at_block = b, ur_authority_index = a, ur_index_set = index_set, ur_validators_len = of_nat (length (st_Keys s)) \<rparr>"

lemma send_single_pool:
  assumes "send_single_unavailability_report sv uc urc sign (recording_pool acc) a key b now index_set s (odb, pool) = (res, odb', pool')"
    and "c \<in> set pool'"
  shows "c \<in> set pool \<or> (\<exists>sig. sign key (encode urc (worker_report a b index_set s)) = Some sig \<and>
     c = call_report (worker_report a b index_set s) sig)"
  using assms
  by (auto simp: send_single_unavailability_report_def with_report_lock_def recording_pool_def worker_report_def Let_def
      split: prod.splits sum.splits MutateStorageError.splits option.splits if_splits)

lemma send_reports_pool:
  assumes "send_reports (\<lambda>i key. send_single_unavailability_report sv uc urc sign (recording_pool acc) i key b now index_set s)
      keys (odb, pool) = (res, odb', pool')"
    and "c \<in> set pool'"
  shows "c \<in> set pool \<or> (\<exists>a key sig. (a, key) \<in> set keys \<and> sign key (encode urc (worker_report a b index_set s)) = Some sig \<and>
     c = call_report (worker_report a b index_set s) sig)"
  using assms
proof (induction keys arbitrary: odb pool res)
  case (Cons k keys)
  obtain a key where k: "k = (a, key)" by (cases k)
  obtain r odb1 pool1 where one: "send_single_unavailability_report sv uc urc sign (recording_pool acc) a key b now index_set s (odb, pool) =
      (r, odb1, pool1)" by (rule prod_cases3)
  obtain rs where rest: "send_reports (\<lambda>i key. send_single_unavailability_report sv uc urc sign (recording_pool acc) i key b now index_set s)
      keys (odb1, pool1) = (rs, odb', pool')"
    using Cons.prems(1) by (simp add: k one split: prod.splits)
  from Cons.IH [OF rest Cons.prems(2)] send_single_pool [OF one] k show ?case by auto
qed simp

lemma worker_pool:
  assumes "store_offchain_worker pm os rc sv uc urc sign (recording_pool acc) local_keys v now s (odb, []) = (odb', pool)"
    and "c \<in> set pool"
  obtains a key sig where "(a, key) \<in> set (local_authority_keys local_keys s)"
    "c = call_report (worker_report a now (get_unavailability_apps pm os rc odb now s) s) sig"
    "sign key (encode urc (worker_report a now (get_unavailability_apps pm os rc odb now s) s)) = Some sig"
    "get_unavailability_apps pm os rc odb now s \<noteq> []"
proof -
  let ?is = "get_unavailability_apps pm os rc odb now s"
  let ?send = "\<lambda>i key. send_single_unavailability_report sv uc urc sign (recording_pool acc) i key now now ?is s"
  have nonempty: "?is \<noteq> []"
    using assms by (auto simp: store_offchain_worker_def send_unavailability_report_def DELAY_CHECK_THRESHOLD_def split: if_splits)
  obtain rs odb1 pool1 where sr: "send_reports ?send (local_authority_keys local_keys s) (odb, []) = (rs, odb1, pool1)"
    by (rule prod_cases3)
  have "pool1 = pool"
    using assms nonempty sr
    by (auto simp: store_offchain_worker_def send_unavailability_report_def DELAY_CHECK_THRESHOLD_def split: if_splits)
  with send_reports_pool [OF sr, of c] assms(2) nonempty that show thesis by auto
qed

lemma local_authority_keys_index:
  assumes "(a, key) \<in> set (local_authority_keys local_keys s)" "length (st_Keys s) < 2 ^ 32"
  shows "unat a < length (st_Keys s) \<and> st_Keys s ! unat a = key \<and> key \<in> set local_keys"
proof -
  from assms(1) obtain i where i: "i < length (st_Keys s)" "a = of_nat i" "key = st_Keys s ! i" "key \<in> set local_keys"
    unfolding local_authority_keys_eq by auto
  then have "unat a = i" using assms(2) by (simp add: unat_of_nat_u32)
  with i show ?thesis by simp
qed

text \<open>C12: The chain accepts the reports of an honest worker. Every call the off-chain worker puts into the pool is a report
  of the current block, by an authority whose key the node holds, naming exactly the submissions whose sampling
  record counts as unavailable; it passes \<open>validate_unsigned\<close> on the storage the worker has read, and dispatching
  it succeeds as long as that authority has not voted on these submissions and their votes are not full.\<close>

theorem worker_reports_accepted:
  assumes "\<forall>k m sig. sign k m = Some sig \<longrightarrow> verify k m sig"
    and "length (st_Keys s) < 2 ^ 32" and "length (st_Metadata s (st_block_number s)) < 2 ^ 32"
    and "store_offchain_worker pm os rc sv uc urc sign (recording_pool acc) local_keys is_val (st_block_number s) s (odb, []) = (odb', pool)"
    and "c \<in> set pool" and "st_block_number s < - 1"
  shows "\<exists>r sig. c = call_report r sig \<and> (\<exists>t. validate_unsigned verify urc prio c s = Inr t) \<and>
     ur_at_block r = st_block_number s \<and> st_Keys s ! unat (ur_authority_index r) \<in> set local_keys \<and>
     (\<forall>i. i \<in> set (ur_index_set r) \<longleftrightarrow> unat i < length (st_Metadata s (st_block_number s)) \<and>
        unavailable_here pm os rc odb (st_Metadata s (st_block_number s) ! unat i)) \<and>
     ((\<forall>i\<in>set (ur_index_set r). vote_ok cfg s (st_block_number s) (ur_authority_index r) i) \<longrightarrow>
        fst (dispatch (report cfg pm Unsigned r) s) = Inr ())"
proof -
  let ?now = "st_block_number s"
  let ?is = "get_unavailability_apps pm os rc odb ?now s"
  obtain a key sig where w: "(a, key) \<in> set (local_authority_keys local_keys s)"
      "c = call_report (worker_report a ?now ?is s) sig" "sign key (encode urc (worker_report a ?now ?is s)) = Some sig" "?is \<noteq> []"
    using worker_pool [OF assms(4,5)] .
  note k = local_authority_keys_index [OF w(1) assms(2)]
  have "validate_unsigned verify urc prio c s = Inr \<lparr> vt_tag_prefix = ''MeloStore'', vt_priority = prio,
      vt_longevity = unat DELAY_CHECK_THRESHOLD, vt_propagate = True \<rparr>"
    using w(2,3) k assms(1) by (simp add: validate_unsigned_def worker_report_def get_opt_def)
  moreover have idx: "i \<in> set ?is \<longleftrightarrow> unat i < length (st_Metadata s ?now) \<and> unavailable_here pm os rc odb (st_Metadata s ?now ! unat i)" for i
    using get_unavailability_apps_indices(2) [OF assms(3), of i pm os rc odb]
    by (auto simp: get_unavailability_apps_eq image_iff intro!: bexI [of _ "unat i"])
  moreover have "fst (dispatch (report cfg pm Unsigned (worker_report a ?now ?is s)) s) = Inr ()"
    if "\<forall>i\<in>set ?is. vote_ok cfg s ?now a i"
  proof -
    have "?now \<le> ?now + 1" using unat_succ [OF assms(6)] by (simp add: word_le_nat_alt)
    then have "report_ok cfg (worker_report a ?now ?is s) s"
      using that k w(4) idx get_unavailability_apps_indices(1) [OF assms(3), of pm os rc odb]
      by (simp add: report_ok_def worker_report_def DELAY_CHECK_THRESHOLD_def)
    then show ?thesis by (simp add: dispatch_report(1))
  qed
  ultimately show ?thesis using w(2) k
    by (intro exI [of _ "worker_report a ?now ?is s"] exI [of _ sig]) (auto simp: worker_report_def)
qed

text \<open>An instance: signatures are the key and the message, every sampling record says that nothing was found, and the
  node holds the keys 11 and 12.\<close>

definition nothing_found :: "nat Reliability codec" where
  "nothing_found = \<lparr> encode = \<lambda>_. [], decode = \<lambda>_. Some (Reliability_new Block []) \<rparr>"

definition constant_storage :: "(bytes \<Rightarrow> ReportStatus option) OffchainStorage" where
  "constant_storage = \<lparr> local_storage_get = \<lambda>_ _. Some [], local_storage_set = \<lambda>s _ _. s, local_storage_clear = \<lambda>s _. s,
     local_storage_compare_and_set = \<lambda>s _ _ _. (False, s) \<rparr>"

definition plain_reports :: "UnavailableDataReport codec" where
  "plain_reports = \<lparr> encode = \<lambda>r. u32_to_be_bytes (ur_at_block r), decode = \<lambda>_. None \<rparr>"

definition plain_u32 :: "u32 codec" where
  "plain_u32 = \<lparr> encode = u32_to_be_bytes, decode = \<lambda>_. None \<rparr>"

lemma unavailable_nothing_found: "unavailable_here pm constant_storage nothing_found odb m"
  by (simp add: unavailable_here_def get_confidence_def Reliability_get_def OffchainKv_kv_def OffchainKv_get_def
      constant_storage_def nothing_found_def Reliability_is_availability_def Reliability_new_def
      ReliabilityType_is_availability_def success_count_def BLOCK_AVAILABILITY_THRESHOLD_def)

theorem worker_reports_accepted_witness:
  "let pool = snd (store_offchain_worker sample_permill constant_storage nothing_found map_report_storage plain_u32 plain_reports
       (\<lambda>k m. Some (k, m)) (recording_pool (\<lambda>_ _. True)) [11, 12] True 5 sample_store (\<lambda>_. None, []))
   in length pool = 2 \<and>
      (\<exists>t. validate_unsigned (\<lambda>k m sig. sig = (k, m)) plain_reports 9 (hd pool) sample_store = Inr t)"
proof -
  obtain odb' pool where w: "store_offchain_worker sample_permill constant_storage nothing_found map_report_storage plain_u32 plain_reports
       (\<lambda>k m. Some (k, m)) (recording_pool (\<lambda>_ _. True)) [11, 12] True 5 sample_store (\<lambda>_. None, []) = (odb', pool)"
    by (rule prod.exhaust)
  have now: "st_block_number sample_store = 5" by (simp add: sample_store_def)
  have keys: "local_authority_keys [11, 12] sample_store = [(1, 11), (2, 12)]"
    by (simp add: local_authority_keys_eq sample_store_def upt_rec)
  have "get_unavailability_apps sample_permill constant_storage nothing_found odb 5 sample_store = [0, 1]" for odb
    by (simp add: get_unavailability_apps_eq unavailable_nothing_found) (simp add: sample_store_def)
  with w keys have len: "length pool = 2"
    by (auto simp: store_offchain_worker_def send_unavailability_report_def DELAY_CHECK_THRESHOLD_def Let_def
        send_single_unavailability_report_def with_report_lock_def recording_pool_def map_report_storage_def
        report_lock_closure_def plain_u32_def u32_to_be_bytes_inject)
  then have "hd pool \<in> set pool" by (cases pool) auto
  moreover have "(5 :: u32) < - 1" by (simp add: word_less_nat_alt unsigned_minus_1_eq_mask mask_eq_exp_minus_1)
  ultimately have "\<exists>t. validate_unsigned (\<lambda>k m sig. sig = (k, m)) plain_reports 9 (hd pool) sample_store = Inr t"
    using worker_reports_accepted [of "\<lambda>k m. Some (k, m)" "\<lambda>k m sig. sig = (k, m)" sample_store sample_permill constant_storage
        nothing_found map_report_storage plain_u32 plain_reports "\<lambda>_ _. True" "[11, 12]" True "\<lambda>_. None" odb' pool "hd pool" 9] w
    unfolding now by (auto simp: sample_store_def)
  with w len show ?thesis by simp
qed

end
