(* ===== verification/Pos_Utils.thy ===== *)
theory Pos_Utils
  imports Prelude
begin

text \<open>
  \<open>proof-of-space/src/utils.rs\<close>: folding of hashes, xor of byte strings, and the two readings of the bits of a
  hash that decide which indices a farmer may use.
\<close>

unbundle bit_operations_syntax

section \<open>Definitions (utils.rs)\<close>

definition fold_hash :: "bytes \<Rightarrow> u32 res" where
  "fold_hash hash =
     (if length hash < 16 then Inl (Panic ''split_at'')
      else let first_half = take 16 hash; second_half = drop 16 hash in
        fold_res (\<lambda>i folded.
            res_bind (slice_res first_half (4 * i) (4 * i + 4)) (\<lambda>a.
            res_bind (slice_res second_half (4 * i) (4 * i + 4)) (\<lambda>b.
            Inr (folded XOR (u32_from_be_bytes a XOR u32_from_be_bytes b)))))
          [0..<4] 0)"

definition hash_to_u16_xor :: "bytes \<Rightarrow> u16" where
  "hash_to_u16_xor hash =
     foldl (\<lambda>acc chunk. acc XOR u16_from_be_bytes [chunk ! 0, (case get_opt chunk 1 of Some b \<Rightarrow> b | None \<Rightarrow> 0)])
       0 (chunks 2 hash)"

text \<open>\<open>BitVec::from_bytes\<close> takes the bits of every byte from the most significant one on.\<close>

definition hash_to_bitvec :: "bytes \<Rightarrow> bool list" where
  "hash_to_bitvec hash = concat (map (\<lambda>b. map (bit b) (rev [0..<8])) hash)"

definition select_indices :: "bytes \<Rightarrow> nat \<Rightarrow> nat \<Rightarrow> nat \<Rightarrow> u32 list" where
  "select_indices hash start end_index n =
     (let bits = hash_to_bitvec hash; bit_len = length bits in
      if n = 0 \<or> n > bit_len \<or> start \<ge> end_index \<or> end_index > bit_len then []
      else map of_nat (filter (\<lambda>i. list_all (\<lambda>j. bits ! ((i + j) mod bit_len)) [0..<n]) [start..<end_index]))"

definition is_index_valid :: "bytes \<Rightarrow> nat \<Rightarrow> nat \<Rightarrow> nat \<Rightarrow> bool" where
  "is_index_valid hash index max_index n =
     (if length hash < 32 \<or> index \<ge> max_index * 8 then False
      else if index + n > max_index * 8 then False
      else let byte_index = index div 8; bit_index = index mod 8 in
        list_all (\<lambda>offset.
            let next_bit_index = (bit_index + offset) mod 8;
                next_byte_index = byte_index + (bit_index + offset) div 8
            in if next_byte_index \<ge> length hash then False
               else hash ! next_byte_index AND push_bit next_bit_index 1 \<noteq> 0)
          [0..<n])"

definition validate_leading_zeros :: "bytes \<Rightarrow> u32 \<Rightarrow> bool" where
  "validate_leading_zeros dat zeros =
     (if dat = [] then False
      else let zero_bytes = unat zeros div 8; zero_bits = unat zeros mod 8 in
        if \<not> list_all (\<lambda>b. b = 0) (take zero_bytes dat) then False
        else if zero_bits > 0
        then (case get_opt dat zero_bytes of None \<Rightarrow> False | Some b \<Rightarrow> leading_zeros b \<ge> zero_bits)
        else True)"

definition xor_byte_slices :: "bytes \<Rightarrow> bytes \<Rightarrow> bytes" where
  "xor_byte_slices a b =
     (let (shorter, longer) = (if length a > length b then (b, a) else (a, b)) in
      map2 (\<lambda>x y. x XOR y) shorter longer @ drop (length shorter) longer)"

section \<open>Lemmas\<close>

lemma length_xor_byte_slices: "length (xor_byte_slices a b) = max (length a) (length b)"
  by (simp add: xor_byte_slices_def max_def)

lemma xor_byte_slices_commute: "xor_byte_slices a b = xor_byte_slices b a"
proof -
  have "map2 (\<lambda>x y. x XOR y) a b = map2 (\<lambda>x y. x XOR y) b a" for a b :: bytes
    by (rule nth_equalityI) (simp_all add: xor.commute)
  then show ?thesis by (auto simp: xor_byte_slices_def not_less)
qed

lemma xor_byte_slices_same_length:
  "length a = length b \<Longrightarrow> xor_byte_slices a b = map2 (\<lambda>x y. x XOR y) a b"
  by (simp add: xor_byte_slices_def)

lemma xor_byte_slices_cancel:
  assumes "length a = length b"
  shows "xor_byte_slices a (xor_byte_slices a b) = b"
  using assms by (intro nth_equalityI) (simp_all add: xor_byte_slices_same_length length_xor_byte_slices xor.assoc [symmetric])

lemma fold_hash_total:
  assumes "length hash = 32"
  shows "\<exists>y. fold_hash hash = Inr y"
  using assms by (auto simp: fold_hash_def slice_res_def numeral_eq_Suc Let_def)

text \<open>Bit \<open>i\<close> of a hash counted from the least significant bit of every byte, the reading of \<open>is_index_valid\<close>.\<close>

definition hash_bit :: "bytes \<Rightarrow> nat \<Rightarrow> bool" where
  "hash_bit hash i \<longleftrightarrow> i < 8 * length hash \<and> bit (hash ! (i div 8)) (i mod 8)"

lemma is_index_valid_iff:
  assumes "length hash = 32" "max_index \<le> 32"
  shows "is_index_valid hash i max_index n \<longleftrightarrow>
     i < max_index * 8 \<and> i + n \<le> max_index * 8 \<and> (\<forall>k. i \<le> k \<and> k < i + n \<longrightarrow> hash_bit hash k)"
proof -
  have split: "(i mod 8 + j) mod 8 = (i + j) mod 8" "i div 8 + (i mod 8 + j) div 8 = (i + j) div 8" for j
  proof -
    have "i + j = 8 * (i div 8) + (i mod 8 + j)" by simp
    then show "i div 8 + (i mod 8 + j) div 8 = (i + j) div 8" by (metis div_mult_self4 zero_neq_numeral)
  qed (simp add: mod_add_left_eq)
  have "(\<forall>j<n. (i + j) div 8 < 32 \<and> bit (hash ! ((i + j) div 8)) ((i + j) mod 8)) \<longleftrightarrow>
      (\<forall>k. i \<le> k \<and> k < i + n \<longrightarrow> hash_bit hash k)" if "i + n \<le> max_index * 8"
  proof -
    have "(\<forall>k. i \<le> k \<and> k < i + n \<longrightarrow> hash_bit hash k) \<longleftrightarrow> (\<forall>j<n. hash_bit hash (i + j))"
      by (auto simp: nat_le_iff_add)
    then show ?thesis using that assms by (auto simp: hash_bit_def)
  qed
  then show ?thesis
    using assms by (auto simp: is_index_valid_def list_all_iff and_exp_eq_0_iff_not_bit split Let_def not_le)
qed

text \<open>The position of the same bit in the other reading.\<close>

definition mirrored :: "nat \<Rightarrow> nat" where
  "mirrored i = 8 * (i div 8) + (7 - i mod 8)"

lemma length_hash_to_bitvec: "length (hash_to_bitvec hash) = 8 * length hash"
  by (simp add: hash_to_bitvec_def length_concat comp_def sum_list_triv)

lemma byte_bit:
  assumes "(r :: nat) < 8"
  shows "(8 * q + r) div 8 = q" "(8 * q + r) mod 8 = r" "q < n \<Longrightarrow> 8 * q + r < 8 * n"
  using assms by simp_all

lemma nth_hash_to_bitvec:
  assumes "i < 8 * length hash"
  shows "hash_to_bitvec hash ! i = hash_bit hash (mirrored i)"
proof -
  have i: "i div 8 < length hash" "i mod 8 < 8" using assms by auto
  have "hash_to_bitvec hash ! (i div 8 * 8 + i mod 8) = map (\<lambda>b. map (bit b) (rev [0..<8])) hash ! (i div 8) ! (i mod 8)"
    unfolding hash_to_bitvec_def using i by (intro nth_concat_const) auto
  also have "\<dots> = bit (hash ! (i div 8)) (7 - i mod 8)"
    using i by (simp add: rev_nth)
  finally have "hash_to_bitvec hash ! i = bit (hash ! (i div 8)) (7 - i mod 8)" by simp
  moreover have "mirrored i div 8 = i div 8" "mirrored i mod 8 = 7 - i mod 8" "mirrored i < 8 * length hash"
    using byte_bit [of "7 - i mod 8" "i div 8"] i by (simp_all add: mirrored_def)
  ultimately show ?thesis by (simp add: hash_bit_def)
qed

lemma length_takeWhile_ge: "z \<le> length xs \<Longrightarrow> z \<le> length (takeWhile P xs) \<longleftrightarrow> (\<forall>k<z. P (xs ! k))"
proof (induction xs arbitrary: z)
  case (Cons x xs)
  then show ?case by (cases z) (auto simp: less_Suc_eq_0_disj)
qed simp

lemma leading_zeros_ge:
  assumes "z \<le> 8"
  shows "z \<le> leading_zeros (b :: u8) \<longleftrightarrow> (\<forall>k<z. \<not> bit b (7 - k))"
proof -
  have "z \<le> leading_zeros b \<longleftrightarrow> (\<forall>k<z. \<not> bit b (rev [0..<8] ! k))"
    using assms length_takeWhile_ge [of z "rev [0..<8]" "\<lambda>i. \<not> bit b i"] by (simp add: leading_zeros_def)
  also have "\<dots> \<longleftrightarrow> (\<forall>k<z. \<not> bit b (7 - k))" using assms by (auto simp: rev_nth)
  finally show ?thesis .
qed

lemma byte_zero_iff: "(b :: u8) = 0 \<longleftrightarrow> (\<forall>k<8. \<not> bit b (7 - k))"
proof
  assume none: "\<forall>k<8. \<not> bit b (7 - k)"
  show "b = 0"
  proof (rule bit_word_eqI)
    fix n assume "n < LENGTH(8)"
    then have "\<not> bit b (7 - (7 - n))" using none [rule_format, of "7 - n"] by simp
    then show "bit b n = bit (0 :: u8) n" using \<open>n < LENGTH(8)\<close> by simp
  qed
qed simp

section \<open>Properties\<close>

lemma mirrored_less: "i < 256 \<Longrightarrow> mirrored i < 256"
  unfolding mirrored_def by arith

lemma valid_iff_bit: "length hash = 32 \<Longrightarrow> i < 256 \<Longrightarrow> is_index_valid hash i 32 1 \<longleftrightarrow> hash_bit hash i"
  using is_index_valid_iff [of hash 32 i 1] by (auto simp: hash_bit_def le_less_Suc_eq)

lemma selected_iff:
  assumes "length hash = 32" and "i < 256"
  shows "of_nat i \<in> set (select_indices hash 0 256 1) \<longleftrightarrow> hash_bit hash (mirrored i)"
proof -
  have eq: "of_nat i = (of_nat j :: u32) \<longleftrightarrow> i = j" if "j < 256" for j
  proof -
    have "unat (of_nat i :: u32) = i" "unat (of_nat j :: u32) = j" using assms(2) that by (simp_all add: unat_of_nat_u32)
    then show ?thesis by metis
  qed
  have "hash_to_bitvec hash \<noteq> []" using length_hash_to_bitvec [of hash] assms(1) by auto
  then have "set (select_indices hash 0 256 1) = of_nat ` {j. j < 256 \<and> hash_to_bitvec hash ! j}"
    using assms(1) by (auto simp: select_indices_def length_hash_to_bitvec Let_def)
  then have "of_nat i \<in> set (select_indices hash 0 256 1) \<longleftrightarrow> (\<exists>j<256. of_nat i = (of_nat j :: u32) \<and> hash_to_bitvec hash ! j)" by auto
  also have "\<dots> \<longleftrightarrow> hash_to_bitvec hash ! i" using assms(2) by (simp add: eq cong: conj_cong)
  also have "\<dots> \<longleftrightarrow> hash_bit hash (mirrored i)" using assms by (simp add: nth_hash_to_bitvec)
  finally show ?thesis .
qed

lemma symmetric_bytes:
  assumes "length hash = 32"
  shows "(\<forall>i<256. hash_bit hash (mirrored i) \<longleftrightarrow> hash_bit hash i) \<longleftrightarrow> (\<forall>b\<in>set hash. \<forall>k<8. bit b k = bit b (7 - k))"
proof -
  have at: "hash_bit hash (8 * q + k) \<longleftrightarrow> bit (hash ! q) k" "hash_bit hash (mirrored (8 * q + k)) \<longleftrightarrow> bit (hash ! q) (7 - k)"
    if "q < 32" "k < 8" for q k
  proof -
    have read: "hash_bit hash (8 * q + j) \<longleftrightarrow> bit (hash ! q) j" if "j < 8" for j
      using that \<open>q < 32\<close> assms by (simp add: hash_bit_def byte_bit)
    have "mirrored (8 * q + k) = 8 * q + (7 - k)" using that(2) by (simp add: mirrored_def byte_bit)
    then show "hash_bit hash (8 * q + k) \<longleftrightarrow> bit (hash ! q) k" "hash_bit hash (mirrored (8 * q + k)) \<longleftrightarrow> bit (hash ! q) (7 - k)"
      using read [of k] read [of "7 - k"] that(2) by simp_all
  qed
  have "(\<forall>i<256. hash_bit hash (mirrored i) \<longleftrightarrow> hash_bit hash i) \<longleftrightarrow> (\<forall>q<32. \<forall>k<8. hash_bit hash (mirrored (8 * q + k)) \<longleftrightarrow> hash_bit hash (8 * q + k))"
    (is "?all \<longleftrightarrow> ?parts")
  proof
    assume parts: ?parts
    show ?all
    proof (intro allI impI)
      fix i :: nat assume "i < 256"
      then have "i div 8 < 32" "i mod 8 < 8" by auto
      with parts have "hash_bit hash (mirrored (8 * (i div 8) + i mod 8)) \<longleftrightarrow> hash_bit hash (8 * (i div 8) + i mod 8)" by blast
      then show "hash_bit hash (mirrored i) \<longleftrightarrow> hash_bit hash i" by simp
    qed
  qed simp
  also have "\<dots> \<longleftrightarrow> (\<forall>b\<in>set hash. \<forall>k<8. bit b k = bit b (7 - k))"
    using assms by (auto simp: at all_set_conv_all_nth)
  finally show ?thesis .
qed

text \<open>C33: The farmer's choice of indices and the chain's check of them read the bits of a hash in opposite order within every
  byte: of a 32-byte hash, \<open>select_indices\<close> picks an index for one bit exactly when \<open>is_index_valid\<close> accepts the
  index mirrored in its group of eight. The two agree on all indices exactly for the hashes whose bytes are symmetric.\<close>

theorem index_readings_mirrored:
  assumes "length hash = 32"
  shows "(\<forall>i<256. of_nat i \<in> set (select_indices hash 0 256 1) \<longleftrightarrow> is_index_valid hash (mirrored i) 32 1) \<and>
     ((\<forall>i<256. of_nat i \<in> set (select_indices hash 0 256 1) \<longleftrightarrow> is_index_valid hash i 32 1) \<longleftrightarrow>
        (\<forall>b\<in>set hash. \<forall>k<8. bit b k = bit b (7 - k)))"
proof -
  have "(\<forall>i<256. hash_bit hash (mirrored i) \<longleftrightarrow> hash_bit hash i) \<longleftrightarrow> (\<forall>b\<in>set hash. \<forall>k<8. bit b k = bit b (7 - k))"
    by (rule symmetric_bytes [OF assms])
  then show ?thesis using selected_iff [OF assms] valid_iff_bit [OF assms] mirrored_less by simp
qed
theorem index_readings_mirrored_witness:
  "let hash = 128 # replicate 31 0 in
     0 \<in> set (select_indices hash 0 256 1) \<and> is_index_valid hash 7 32 1 \<and> \<not> is_index_valid hash 0 32 1"
proof -
  let ?h = "128 # replicate 31 0 :: bytes"
  have "is_index_valid ?h 7 32 1" "\<not> is_index_valid ?h 0 32 1" by (simp_all add: is_index_valid_def)
  moreover have "of_nat 0 \<in> set (select_indices ?h 0 256 1) \<longleftrightarrow> is_index_valid ?h (mirrored 0) 32 1"
    by (rule index_readings_mirrored [THEN conjunct1, rule_format]) simp_all
  ultimately show ?thesis by (simp add: mirrored_def)
qed

text \<open>\<open>validate_leading_zeros\<close> accepts non-empty data exactly when its first \<open>zeros\<close> bits, from the most significant
  bit of the first byte on, are all zero, as long as the data have that many bits.\<close>

theorem validate_leading_zeros_correct:
  assumes "dat \<noteq> []" and "unat zeros \<le> 8 * length dat"
  shows "validate_leading_zeros dat zeros \<longleftrightarrow> (\<forall>k<unat zeros. \<not> bit (dat ! (k div 8)) (7 - k mod 8))"
proof -
  let ?q = "unat zeros div 8" and ?r = "unat zeros mod 8"
  let ?Z = "\<lambda>k. \<not> bit (dat ! (k div 8)) (7 - k mod 8)"
  have z: "unat zeros = 8 * ?q + ?r" by simp
  have q: "?q \<le> length dat" using assms(2) by simp
  have q': "?q < length dat" if "?r > 0"
  proof -
    have "8 * ?q < 8 * length dat" using that assms(2) z by linarith
    then show ?thesis by simp
  qed
  have "(\<forall>k<unat zeros. ?Z k) \<longleftrightarrow> (\<forall>i<?q. \<forall>k<8. ?Z (8 * i + k)) \<and> (\<forall>k<?r. ?Z (8 * ?q + k))" (is "?L \<longleftrightarrow> ?R")
  proof
    assume all: ?L
    have "8 * i + k < unat zeros" if "i < ?q" "k < 8" for i k
    proof -
      have "8 * i + k < 8 * Suc i" "8 * Suc i \<le> 8 * ?q" using that by simp_all
      then show ?thesis using z by linarith
    qed
    moreover have "8 * ?q + k < unat zeros" if "k < ?r" for k using that z by linarith
    ultimately show ?R using all by blast
  next
    assume parts: ?R
    show ?L
    proof (intro allI impI)
      fix k assume k: "k < unat zeros"
      have kk: "k = 8 * (k div 8) + k mod 8" by simp
      show "?Z k"
      proof (cases "k div 8 < ?q")
        case True
        then show ?thesis using parts kk by (metis mod_less_divisor zero_less_numeral)
      next
        case False
        then have "k div 8 = ?q" using k by (meson div_le_mono le_antisym less_imp_le not_less)
        then have "k mod 8 < ?r" using k kk z by linarith
        then show ?thesis using parts kk \<open>k div 8 = ?q\<close> by metis
      qed
    qed
  qed
  moreover have "(\<forall>i<?q. \<forall>k<8. ?Z (8 * i + k)) \<longleftrightarrow> list_all (\<lambda>b. b = 0) (take ?q dat)"
    using q by (auto simp: list_all_length byte_zero_iff)
  moreover have "(\<forall>k<?r. ?Z (8 * ?q + k)) \<longleftrightarrow> ?r = 0 \<or> ?r \<le> leading_zeros (dat ! ?q)"
    using leading_zeros_ge [of ?r "dat ! ?q"] by auto
  ultimately show ?thesis
    using assms(1) q' by (auto simp: validate_leading_zeros_def get_opt_def Let_def)
qed

theorem validate_leading_zeros_correct_witness:
  "validate_leading_zeros [0, 31] 11 \<and> \<not> validate_leading_zeros [0, 32] 11"
proof -
  have "unat (11 :: u32) = 11" by simp
  have "(\<forall>k<11. \<not> bit ([0, 31 :: u8] ! (k div 8)) (7 - k mod 8)) \<and> \<not> (\<forall>k<11. \<not> bit ([0, 32 :: u8] ! (k div 8)) (7 - k mod 8))"
    by code_simp
  then show ?thesis
    using validate_leading_zeros_correct [of "[0, 31]" 11] validate_leading_zeros_correct [of "[0, 32]" 11] by simp
qed

end
