(* ===== verification/Proof_Of_Space.thy ===== *)
theory Proof_Of_Space
  imports Das_Db Blob Header_Ext Pos_Utils
begin

text \<open>
  The crate \<open>proof-of-space\<close>: pieces and cells, the tables of Y and Z values a farmer keeps, and the solutions found
  in them and verified on chain. Functions that write the store return it also when they fail, as the
  source leaves its writes behind.
\<close>

section \<open>Data (lib.rs, cell.rs, piece.rs)\<close>

datatype FarmerId = FarmerId (farmer_hash: bytes)

datatype PiecePosition = Row u32 | Column u32

record PieceMetadata =
  pm_block_num :: u32
  pm_pos :: PiecePosition

record ('fr, 'g1) Piece =
  pc_metadata :: PieceMetadata
  pc_segments :: "('fr, 'g1) Segment list"

record CellMetadata =
  cm_piece_metadata :: PieceMetadata
  cm_offset :: u32

record ('fr, 'g1) Cell =
  cell_metadata :: CellMetadata
  cell_seg :: "('fr, 'g1) Segment"

record ('fr, 'g1) PreCell =
  pre_seg :: "('fr, 'g1) Segment"
  pre_position :: PiecePosition

datatype YPos = Left u32 | Right u32

text \<open>The stream cipher, the hash and the encodings the crate uses.\<close>

record ('fr, 'g1) pos_lib =
  chacha8 :: "bytes \<Rightarrow> bytes"
  blake2 :: "bytes \<Rightarrow> bytes"
  enc_segment :: "('fr, 'g1) Segment \<Rightarrow> bytes"
  enc_u32 :: "u32 \<Rightarrow> bytes"
  enc_u16 :: "u16 \<Rightarrow> bytes"
  enc_ypos :: "YPos \<Rightarrow> bytes"
  enc_metadata :: "PieceMetadata \<Rightarrow> bytes"
  piece_codec :: "('fr, 'g1) Piece codec"
  cells_codec :: "CellMetadata list codec"
  pairs_codec :: "(CellMetadata \<times> CellMetadata) list codec"

definition FarmerId_new :: "('fr, 'g1) pos_lib \<Rightarrow> bytes \<Rightarrow> FarmerId" where
  "FarmerId_new P encoded =
     (if list_all (\<lambda>b. b = 0) encoded then FarmerId (replicate 32 0) else FarmerId (blake2 P encoded))"

definition PiecePosition_to_u32 :: "PiecePosition \<Rightarrow> u32" where
  "PiecePosition_to_u32 p = (case p of Row r \<Rightarrow> r | Column c \<Rightarrow> c)"

definition PiecePosition_from_row :: "Position \<Rightarrow> PiecePosition" where
  "PiecePosition_from_row pos = Row (pos_x pos)"

definition PiecePosition_from_column :: "Position \<Rightarrow> PiecePosition" where
  "PiecePosition_from_column pos = Column (pos_y pos)"

definition PiecePosition_default :: PiecePosition where
  "PiecePosition_default = Row 0"

definition PieceMetadata_new :: "u32 \<Rightarrow> PiecePosition \<Rightarrow> PieceMetadata" where
  "PieceMetadata_new block_num pos = \<lparr> pm_block_num = block_num, pm_pos = pos \<rparr>"

definition PieceMetadata_key :: "('fr, 'g1) pos_lib \<Rightarrow> PieceMetadata \<Rightarrow> bytes" where
  "PieceMetadata_key P m = enc_metadata P m"

definition Piece_key :: "('fr, 'g1) pos_lib \<Rightarrow> ('fr, 'g1) Piece \<Rightarrow> bytes" where
  "Piece_key P p = enc_metadata P (pc_metadata p)"

definition Piece_new :: "u32 \<Rightarrow> PiecePosition \<Rightarrow> ('fr, 'g1) Segment list \<Rightarrow> ('fr, 'g1) Piece" where
  "Piece_new block_num pos segments =
     \<lparr> pc_metadata = \<lparr> pm_block_num = block_num, pm_pos = pos \<rparr>, pc_segments = segments \<rparr>"

definition Piece_cell :: "('fr, 'g1) Piece \<Rightarrow> u32 \<Rightarrow> ('fr, 'g1) Segment option" where
  "Piece_cell p pos = (if pos \<ge> of_nat (length (pc_segments p)) then None else Some (pc_segments p ! unat pos))"

definition CellMetadata_new :: "PieceMetadata \<Rightarrow> u32 \<Rightarrow> CellMetadata" where
  "CellMetadata_new piece_metadata offset = \<lparr> cm_piece_metadata = piece_metadata, cm_offset = offset \<rparr>"

definition CellMetadata_block_number :: "CellMetadata \<Rightarrow> u32" where
  "CellMetadata_block_number m = pm_block_num (cm_piece_metadata m)"

definition Cell_new :: "CellMetadata \<Rightarrow> ('fr, 'g1) Segment \<Rightarrow> ('fr, 'g1) Cell" where
  "Cell_new metadata seg = \<lparr> cell_metadata = metadata, cell_seg = seg \<rparr>"

definition Cell_piece_index :: "('fr, 'g1) Cell \<Rightarrow> u32" where
  "Cell_piece_index c = PiecePosition_to_u32 (pm_pos (cm_piece_metadata (cell_metadata c)))"

text \<open>\<open>unwrap_or(false)\<close> on a verification: an error counts as false, a panic is one.\<close>

definition unwrap_or_false :: "bool res \<Rightarrow> bool res" where
  "unwrap_or_false r = (case r of Inr b \<Rightarrow> Inr b | Inl (Panic m) \<Rightarrow> Inl (Panic m) | Inl _ \<Rightarrow> Inr False)"

definition Cell_verify_kzg_proof ::
  "('fr, 'g1, 'g2, 'fs, 'fk) kzg_lib \<Rightarrow> ('fr, 'g1) Cell \<Rightarrow> ('g1, 'g2, 'fs) KZG \<Rightarrow> 'g1 \<Rightarrow> bool res" where
  "Cell_verify_kzg_proof L c kzg commitment = unwrap_or_false (Segment_verify L (cell_seg c) kzg commitment SEGMENTS_PER_BLOB)"

definition PreCell_new :: "PiecePosition \<Rightarrow> ('fr, 'g1) Segment \<Rightarrow> ('fr, 'g1) PreCell" where
  "PreCell_new pos seg = \<lparr> pre_seg = seg, pre_position = pos \<rparr>"

definition PreCell_piece_index :: "('fr, 'g1) PreCell \<Rightarrow> u32" where
  "PreCell_piece_index c = PiecePosition_to_u32 (pre_position c)"

definition PreCell_verify_kzg_proof ::
  "('fr, 'g1, 'g2, 'fs, 'fk) kzg_lib \<Rightarrow> ('fr, 'g1) PreCell \<Rightarrow> ('g1, 'g2, 'fs) KZG \<Rightarrow> 'g1 \<Rightarrow> bool res" where
  "PreCell_verify_kzg_proof L c kzg commitment =
     unwrap_or_false (Segment_verify L (pre_seg c) kzg commitment EXTENDED_SEGMENTS_PER_BLOB)"

section \<open>Y values (y\_value\_manager.rs)\<close>

definition YPos_to_u32 :: "YPos \<Rightarrow> u32" where
  "YPos_to_u32 p = (case p of Left pos \<Rightarrow> pos | Right pos \<Rightarrow> pos)"

definition YPos_from_u32 :: "u32 \<Rightarrow> YPos" where
  "YPos_from_u32 pos = (if pos mod 2 = 0 then Left pos else Right pos)"

definition match_x_pos :: "YPos \<Rightarrow> YPos" where
  "match_x_pos p = (case p of Left pos \<Rightarrow> Right (pos + 1) | Right pos \<Rightarrow> Left (pos - 1))"

definition YPos_is_pair :: "YPos \<Rightarrow> YPos \<Rightarrow> bool" where
  "YPos_is_pair p other =
     (case p of
        Left pos \<Rightarrow> (case other of Right other_pos \<Rightarrow> pos + 1 = other_pos | _ \<Rightarrow> False)
      | Right pos \<Rightarrow> (case other of Left other_pos \<Rightarrow> pos - 1 = other_pos | _ \<Rightarrow> False))"

definition CellMetadata_is_pair :: "CellMetadata \<Rightarrow> CellMetadata \<Rightarrow> bool" where
  "CellMetadata_is_pair m other = YPos_is_pair (YPos_from_u32 (cm_offset m)) (YPos_from_u32 (cm_offset other))"

record YValueManager =
  yv_y :: u32
  yv_cell_metadata :: CellMetadata
  yv_pos :: YPos

definition calculate_y ::
  "('fr, 'g1, 'g2, 'fs, 'fk) kzg_lib \<Rightarrow> ('fr, 'g1) pos_lib \<Rightarrow> FarmerId \<Rightarrow> ('fr, 'g1) Segment \<Rightarrow> u32 res" where
  "calculate_y L P farmer_id seg =
     (if sd_data (content seg) = [] then Inr 0
      else let bs = xor_byte_slices (farmer_hash farmer_id) (BlsScalar_to_bytes L (sd_data (content seg) ! 0)) in
        if length bs \<noteq> 32 then Inl (Panic ''GenericArray::from_slice'')
        else fold_hash (chacha8 P bs))"

definition YValueManager_new :: "PieceMetadata \<Rightarrow> u32 \<Rightarrow> u32 \<Rightarrow> YValueManager" where
  "YValueManager_new piece_metadata index y =
     \<lparr> yv_y = y, yv_cell_metadata = \<lparr> cm_piece_metadata = piece_metadata, cm_offset = index \<rparr>,
       yv_pos = YPos_from_u32 index \<rparr>"

definition key_by_x_pos :: "('fr, 'g1) pos_lib \<Rightarrow> YPos \<Rightarrow> u32 \<Rightarrow> bytes" where
  "key_by_x_pos P y_pos y = enc_u32 P y @ enc_ypos P y_pos"

definition YValueManager_key :: "('fr, 'g1) pos_lib \<Rightarrow> YValueManager \<Rightarrow> bytes" where
  "YValueManager_key P m = key_by_x_pos P (yv_pos m) (yv_y m)"

definition match_cells :: "('fr, 'g1) pos_lib \<Rightarrow> 's DasKv \<Rightarrow> YValueManager \<Rightarrow> 's \<Rightarrow> CellMetadata list res" where
  "match_cells P kv m db =
     (case kv_get kv db (key_by_x_pos P (match_x_pos (yv_pos m)) (yv_y m)) of
        None \<Rightarrow> Inr []
      | Some dat \<Rightarrow> ok_or (Err ''Failed to decode CellMetadata vector from database'') (decode (cells_codec P) dat))"

definition YValueManager_save ::
  "('fr, 'g1) pos_lib \<Rightarrow> 's DasKv \<Rightarrow> YValueManager \<Rightarrow> 's \<Rightarrow> (fail + unit) \<times> 's" where
  "YValueManager_save P kv m db =
     (if yv_y m = 0 then (Inr (), db)
      else let key = YValueManager_key P m in
        case kv_get kv db key of
          Some dat \<Rightarrow>
            (case decode (cells_codec P) dat of
               None \<Rightarrow> (Inl (Panic ''unwrap''), db)
             | Some cell_metadatas \<Rightarrow>
                 (Inr (), kv_set kv db key (encode (cells_codec P) (cell_metadatas @ [yv_cell_metadata m]))))
        | None \<Rightarrow> (Inr (), kv_set kv db key (encode (cells_codec P) [yv_cell_metadata m])))"

section \<open>Z values (z\_value\_manager.rs)\<close>

record ZValueManager =
  zv_z :: u16
  zv_left :: CellMetadata
  zv_right :: CellMetadata

definition calculate_z :: "('fr, 'g1) pos_lib \<Rightarrow> ('fr, 'g1) Segment \<Rightarrow> ('fr, 'g1) Segment \<Rightarrow> u16" where
  "calculate_z P left_cell right_cell =
     hash_to_u16_xor (blake2 P (concat [enc_segment P left_cell, enc_segment P right_cell]))"

definition get_challenge :: "bytes \<Rightarrow> u16" where
  "get_challenge dat = hash_to_u16_xor dat"

definition get_z :: "ZValueManager \<Rightarrow> u16" where
  "get_z m = zv_z m"

definition ZValueManager_new ::
  "('fr, 'g1) pos_lib \<Rightarrow> CellMetadata \<Rightarrow> CellMetadata \<Rightarrow> ('fr, 'g1) Segment \<Rightarrow> ('fr, 'g1) Segment \<Rightarrow> ZValueManager" where
  "ZValueManager_new P left right left_cell right_cell =
     \<lparr> zv_z = calculate_z P left_cell right_cell, zv_left = left, zv_right = right \<rparr>"

definition ZValueManager_save :: "('fr, 'g1) pos_lib \<Rightarrow> 's DasKv \<Rightarrow> ZValueManager \<Rightarrow> 's \<Rightarrow> 's" where
  "ZValueManager_save P kv m db =
     (let key = enc_u16 P (zv_z m);
          pairs = (case kv_get kv db key of
                     None \<Rightarrow> []
                   | Some dat \<Rightarrow> (case decode (pairs_codec P) dat of None \<Rightarrow> [] | Some ps \<Rightarrow> ps));
          pair = (zv_left m, zv_right m)
      in if pair \<notin> set pairs then kv_set kv db key (encode (pairs_codec P) (pairs @ [pair])) else db)"

definition ZValueManager_get ::
  "('fr, 'g1) pos_lib \<Rightarrow> 's DasKv \<Rightarrow> 's \<Rightarrow> u16 \<Rightarrow> (CellMetadata \<times> CellMetadata) list res" where
  "ZValueManager_get P kv db z =
     (case kv_get kv db (enc_u16 P z) of
        None \<Rightarrow> Inr []
      | Some dat \<Rightarrow> ok_or (Err ''Failed to decode CellMetadata Vec from database'') (decode (pairs_codec P) dat))"

definition ZValueManager_verify ::
  "('fr, 'g1, 'g2, 'fs, 'fk) kzg_lib \<Rightarrow> ('fr, 'g1) pos_lib \<Rightarrow> u16 \<Rightarrow> FarmerId \<Rightarrow> ('fr, 'g1) Segment \<Rightarrow> ('fr, 'g1) Segment
    \<Rightarrow> CellMetadata \<Rightarrow> CellMetadata \<Rightarrow> bool res" where
  "ZValueManager_verify L P z farmer_id left_cell right_cell left_cell_metadata right_cell_metadata =
     (let calculated_z = calculate_z P left_cell right_cell;
          is_pair = CellMetadata_is_pair left_cell_metadata right_cell_metadata
      in res_bind (calculate_y L P farmer_id left_cell) (\<lambda>y_left.
         res_bind (calculate_y L P farmer_id right_cell) (\<lambda>y_right.
         Inr (z = calculated_z \<and> is_pair \<and> y_left = y_right))))"

section \<open>Storing a piece (piece.rs)\<close>

definition x_values_iterator ::
  "('fr, 'g1, 'g2, 'fs, 'fk) kzg_lib \<Rightarrow> ('fr, 'g1) pos_lib \<Rightarrow> ('fr, 'g1) Piece \<Rightarrow> FarmerId
    \<Rightarrow> (u32 res \<times> ('fr, 'g1) Segment) list" where
  "x_values_iterator L P p farmer_id = map (\<lambda>segment. (calculate_y L P farmer_id segment, segment)) (pc_segments p)"

definition Piece_get_cell ::
  "('fr, 'g1) pos_lib \<Rightarrow> 's DasKv \<Rightarrow> CellMetadata \<Rightarrow> 's \<Rightarrow> ('fr, 'g1) Segment option res" where
  "Piece_get_cell P kv metadata db =
     (case kv_get kv db (PieceMetadata_key P (cm_piece_metadata metadata)) of
        None \<Rightarrow> Inr None
      | Some dat \<Rightarrow>
          (case decode (piece_codec P) dat of
             None \<Rightarrow> Inl (Err ''Failed to decode Piece from database'')
           | Some piece \<Rightarrow> Inr (Piece_cell piece (cm_offset metadata))))"

fun save_matches ::
  "('fr, 'g1) pos_lib \<Rightarrow> 's DasKv \<Rightarrow> CellMetadata \<Rightarrow> YPos \<Rightarrow> ('fr, 'g1) Segment \<Rightarrow> CellMetadata list \<Rightarrow> 's
    \<Rightarrow> (fail + unit) \<times> 's" where
  "save_matches P kv cell x_pos own [] db = (Inr (), db)"
| "save_matches P kv cell x_pos own (mc # mcs) db =
     (case Piece_get_cell P kv mc db of
        Inl e \<Rightarrow> (Inl e, db)
      | Inr None \<Rightarrow> save_matches P kv cell x_pos own mcs db
      | Inr (Some seg) \<Rightarrow>
          (let z_value_manager = (case x_pos of
                 Left _ \<Rightarrow> ZValueManager_new P cell mc own seg
               | Right _ \<Rightarrow> ZValueManager_new P cell mc seg own)
           in save_matches P kv cell x_pos own mcs (ZValueManager_save P kv z_value_manager db)))"

fun save_cells ::
  "('fr, 'g1) pos_lib \<Rightarrow> 's DasKv \<Rightarrow> PieceMetadata \<Rightarrow> (nat \<times> u32 res \<times> ('fr, 'g1) Segment) list \<Rightarrow> 's
    \<Rightarrow> (fail + unit) \<times> 's" where
  "save_cells P kv metadata [] db = (Inr (), db)"
| "save_cells P kv metadata ((index, x, own) # rest) db =
     (case x of
        Inl e \<Rightarrow> (Inl e, db)
      | Inr y \<Rightarrow>
          (let cell = \<lparr> cm_piece_metadata = metadata, cm_offset = of_nat index \<rparr>;
               x_value_manager = YValueManager_new metadata (of_nat index) y;
               x_pos = YPos_from_u32 (of_nat index)
           in case YValueManager_save P kv x_value_manager db of
                (Inl e, db1) \<Rightarrow> (Inl e, db1)
              | (Inr _, db1) \<Rightarrow>
                  (case match_cells P kv x_value_manager db1 of
                     Inl e \<Rightarrow> (Inl e, db1)
                   | Inr mcs \<Rightarrow>
                       (case save_matches P kv cell x_pos own mcs db1 of
                          (Inl e, db2) \<Rightarrow> (Inl e, db2)
                        | (Inr _, db2) \<Rightarrow> save_cells P kv metadata rest db2))))"

definition Piece_save ::
  "('fr, 'g1, 'g2, 'fs, 'fk) kzg_lib \<Rightarrow> ('fr, 'g1) pos_lib \<Rightarrow> 's DasKv \<Rightarrow> ('fr, 'g1) Piece \<Rightarrow> FarmerId \<Rightarrow> 's
    \<Rightarrow> (fail + unit) \<times> 's" where
  "Piece_save L P kv p farmer_id db =
     save_cells P kv (pc_metadata p) (enumerate0 (x_values_iterator L P p farmer_id))
       (kv_set kv db (Piece_key P p) (encode (piece_codec P) p))"

section \<open>Solutions (solution.rs)\<close>

record ('fr, 'g1) Solution =
  sol_block_hash :: bytes
  sol_farmer_id :: FarmerId
  sol_pre_cell :: "('fr, 'g1) PreCell"
  sol_win_cell_left :: "('fr, 'g1) Cell"
  sol_win_cell_right :: "('fr, 'g1) Cell"

definition Solution_new ::
  "bytes \<Rightarrow> FarmerId \<Rightarrow> ('fr, 'g1) PreCell \<Rightarrow> ('fr, 'g1) Cell \<Rightarrow> ('fr, 'g1) Cell \<Rightarrow> ('fr, 'g1) Solution" where
  "Solution_new block_hash farmer_id pre_cell win_cell_left win_cell_right =
     \<lparr> sol_block_hash = block_hash, sol_farmer_id = farmer_id, sol_pre_cell = pre_cell,
       sol_win_cell_left = win_cell_left, sol_win_cell_right = win_cell_right \<rparr>"

text \<open>The conjunction of the source, which evaluates its right side only when the left one holds.\<close>

definition and_then :: "bool res \<Rightarrow> bool res \<Rightarrow> bool res" where
  "and_then a b = res_bind a (\<lambda>x. if x then b else Inr False)"

definition check_pre_cell :: "('fr, 'g1) pos_lib \<Rightarrow> ('fr, 'g1) Segment \<Rightarrow> FarmerId \<Rightarrow> u8 \<Rightarrow> bool" where
  "check_pre_cell P seg farmer_id pre_cell_leading_zero =
     (let pre_cell_hash = blake2 P (enc_segment P seg);
          xored_hash = xor_byte_slices (farmer_hash farmer_id) pre_cell_hash
      in validate_leading_zeros xored_hash (ucast pre_cell_leading_zero))"

definition Solution_is_index_valid :: "FarmerId \<Rightarrow> bytes \<Rightarrow> nat \<Rightarrow> nat \<Rightarrow> u32 \<Rightarrow> bool" where
  "Solution_is_index_valid farmer_id block_hash index max_index n =
     (let xored_hash = xor_byte_slices (farmer_hash farmer_id) block_hash
      in is_index_valid xored_hash index max_index (unat n))"

definition Solution_select_indices :: "FarmerId \<Rightarrow> bytes \<Rightarrow> nat \<Rightarrow> nat \<Rightarrow> u32 list res" where
  "Solution_select_indices farmer_id block_hash end_index n =
     (let xored = xor_byte_slices (farmer_hash farmer_id) block_hash in
      if length xored \<noteq> 32 then Inl (Panic ''Expected a 32-byte array'')
      else Inr (select_indices xored 0 end_index n))"

definition validate_win_cell ::
  "('fr, 'g1, 'g2, 'fs, 'fk) kzg_lib \<Rightarrow> ('fr, 'g1) pos_lib \<Rightarrow> ('fr, 'g1) Solution \<Rightarrow> bytes \<Rightarrow> bytes \<Rightarrow> u32 \<Rightarrow> u16 \<Rightarrow> bool res" where
  "validate_win_cell L P sol win_left_block_hash win_right_block_hash n z =
     (if \<not> is_index_valid win_left_block_hash (unat (Cell_piece_index (sol_win_cell_left sol))) 32 (unat n) then Inr False
      else if \<not> is_index_valid win_right_block_hash (unat (Cell_piece_index (sol_win_cell_right sol))) 32 (unat n) then Inr False
      else ZValueManager_verify L P z (sol_farmer_id sol) (cell_seg (sol_win_cell_left sol)) (cell_seg (sol_win_cell_right sol))
             (cell_metadata (sol_win_cell_left sol)) (cell_metadata (sol_win_cell_right sol)))"

definition validate_win_cell_with_kzg ::
  "('fr, 'g1, 'g2, 'fs, 'fk) kzg_lib \<Rightarrow> ('fr, 'g1) pos_lib \<Rightarrow> ('fr, 'g1) Solution \<Rightarrow> ('g1, 'g2, 'fs) KZG \<Rightarrow> 'g1 \<Rightarrow> 'g1
    \<Rightarrow> bytes \<Rightarrow> bytes \<Rightarrow> u32 \<Rightarrow> u16 \<Rightarrow> bool res" where
  "validate_win_cell_with_kzg L P sol kzg win_left_commit win_right_commit win_left_block_hash win_right_block_hash n z =
     and_then (validate_win_cell L P sol win_left_block_hash win_right_block_hash n z)
       (and_then (Cell_verify_kzg_proof L (sol_win_cell_left sol) kzg win_left_commit)
         (Cell_verify_kzg_proof L (sol_win_cell_right sol) kzg win_right_commit))"

definition Solution_verify ::
  "('fr, 'g1, 'g2, 'fs, 'fk) kzg_lib \<Rightarrow> ('fr, 'g1) pos_lib \<Rightarrow> ('g1, 'g2, 'fs) KZG \<Rightarrow> ('fr, 'g1) Solution \<Rightarrow> 'g1 \<Rightarrow> 'g1 \<Rightarrow> 'g1
    \<Rightarrow> bytes \<Rightarrow> bytes \<Rightarrow> u8 \<Rightarrow> u32 \<Rightarrow> bool res" where
  "Solution_verify L P kzg sol pre_commit win_left_commit win_right_commit win_left_block_hash win_right_block_hash
       pre_cell_leading_zero n =
     (let z = get_challenge (sol_block_hash sol) in
      if \<not> check_pre_cell P (pre_seg (sol_pre_cell sol)) (sol_farmer_id sol) pre_cell_leading_zero then Inr False
      else if \<not> Solution_is_index_valid (sol_farmer_id sol) (sol_block_hash sol) (unat (PreCell_piece_index (sol_pre_cell sol))) 32 n
      then Inr False
      else and_then (PreCell_verify_kzg_proof L (sol_pre_cell sol) kzg pre_commit)
             (validate_win_cell_with_kzg L P sol kzg win_left_commit win_right_commit win_left_block_hash
                win_right_block_hash n z))"

definition solution_of_pair ::
  "('fr, 'g1) pos_lib \<Rightarrow> 's DasKv \<Rightarrow> 's \<Rightarrow> FarmerId \<Rightarrow> ('fr, 'g1) PreCell \<Rightarrow> bytes \<Rightarrow> CellMetadata \<times> CellMetadata
    \<Rightarrow> ('fr, 'g1) Solution option" where
  "solution_of_pair P kv db farmer_id pre_cell block_hash pair =
     (case (Piece_get_cell P kv (fst pair) db, Piece_get_cell P kv (snd pair) db) of
        (Inr (Some left_cell_data), Inr (Some right_cell_data)) \<Rightarrow>
          Some (Solution_new block_hash farmer_id pre_cell (Cell_new (fst pair) left_cell_data)
                  (Cell_new (snd pair) right_cell_data))
      | _ \<Rightarrow> None)"

definition find_solutions_with_z ::
  "('fr, 'g1) pos_lib \<Rightarrow> 's DasKv \<Rightarrow> 's \<Rightarrow> FarmerId \<Rightarrow> ('fr, 'g1) PreCell \<Rightarrow> bytes \<Rightarrow> u16 \<Rightarrow> ('fr, 'g1) Solution list res" where
  "find_solutions_with_z P kv db farmer_id pre_cell block_hash z =
     res_map (List.map_filter (solution_of_pair P kv db farmer_id pre_cell block_hash)) (ZValueManager_get P kv db z)"

definition find_solutions ::
  "('fr, 'g1) pos_lib \<Rightarrow> 's DasKv \<Rightarrow> 's \<Rightarrow> FarmerId \<Rightarrow> ('fr, 'g1) PreCell \<Rightarrow> bytes \<Rightarrow> ('fr, 'g1) Solution list res" where
  "find_solutions P kv db farmer_id pre_cell block_hash =
     (let z = get_challenge block_hash in find_solutions_with_z P kv db farmer_id pre_cell block_hash z)"

end
