(* ===== verification/Farmers_Fortune.thy ===== *)
theory Farmers_Fortune
  imports Melo_Store Proof_Of_Space
begin

text \<open>
  The pallet \<open>pallet-farmers-fortune\<close>: a farmer claims a reward with a solution of the proof of space, checked against the
  commitments another pallet provides. The provider is the trait \<open>CommitmentFromPosition\<close>, whose contract is
  the locale below; the currency is a parameter.
\<close>

section \<open>Storage and the call (lib.rs)\<close>

record FortuneConfig =
  RewardAmount :: nat
  MaxClaimantsPerBlock :: nat

datatype 'acc FortuneEvent = RewardClaimed 'acc nat

datatype FortuneError =
    ClaimBadOrigin
  | InvalidSolution
  | PreCommitNotFound
  | WinCommitNotFound
  | MaxClaimantsReached
  | AlreadyClaimed
  | StorageLimitReached
  | BlockNumberUnderflow
  | Panicked fail

record ('acc, 's, 'b) Fortune =
  ff_block_number :: u32
  ff_block_hash :: "u32 \<Rightarrow> bytes"
  ff_ClaimantsForBlock :: "u32 \<Rightarrow> 'acc list"
  ff_provider :: 's
  ff_currency :: 'b
  ff_events :: "'acc FortuneEvent list"

text \<open>One query of the provider, with the error for no commitment.\<close>

definition query_commitment ::
  "(u32 \<Rightarrow> Position \<Rightarrow> 's \<Rightarrow> 'g1 option \<times> 's) \<Rightarrow> FortuneError \<Rightarrow> u32 \<Rightarrow> Position \<Rightarrow> ('acc, 's, 'b) Fortune
    \<Rightarrow> (FortuneError + 'g1) \<times> ('acc, 's, 'b) Fortune" where
  "query_commitment commitments e block_num pos s =
     (case commitments block_num pos (ff_provider s) of
        (None, p) \<Rightarrow> (Inl e, s\<lparr> ff_provider := p \<rparr>)
      | (Some c, p) \<Rightarrow> (Inr c, s\<lparr> ff_provider := p \<rparr>))"

definition claim ::
  "('fr, 'g1, 'g2, 'fs, 'fk) kzg_lib \<Rightarrow> ('fr, 'g1) pos_lib \<Rightarrow> ('g1, 'g2, 'fs) KZG \<Rightarrow> ('acc \<Rightarrow> bytes)
    \<Rightarrow> (u32 \<Rightarrow> Position \<Rightarrow> 's \<Rightarrow> 'g1 option \<times> 's) \<Rightarrow> ('acc \<Rightarrow> nat \<Rightarrow> 'b \<Rightarrow> 'b) \<Rightarrow> FortuneConfig \<Rightarrow> 'acc Origin
    \<Rightarrow> ('fr, 'g1) PreCell \<Rightarrow> ('fr, 'g1) Cell \<Rightarrow> ('fr, 'g1) Cell \<Rightarrow> ('acc, 's, 'b) Fortune
    \<Rightarrow> (FortuneError + unit) \<times> ('acc, 's, 'b) Fortune" where
  "claim L P kzg enc_account commitments deposit_creating cfg origin pre_cell win_cell_left win_cell_right s =
     (case origin of
        Unsigned \<Rightarrow> (Inl ClaimBadOrigin, s)
      | Signed who \<Rightarrow>
          let now = ff_block_number s; claimants = ff_ClaimantsForBlock s now in
          if \<not> length claimants < MaxClaimantsPerBlock cfg then (Inl MaxClaimantsReached, s)
          else if who \<in> set claimants then (Inl AlreadyClaimed, s)
          else if now < 1 then (Inl BlockNumberUnderflow, s)
          else
            let pre_block_num = now - 1;
                pre_block_hash = ff_block_hash s pre_block_num;
                left_block_num = CellMetadata_block_number (cell_metadata win_cell_left);
                right_block_num = CellMetadata_block_number (cell_metadata win_cell_right);
                win_block_hash_left = ff_block_hash s left_block_num;
                win_block_hash_right = ff_block_hash s right_block_num
            in case query_commitment commitments PreCommitNotFound pre_block_num (position (pre_seg pre_cell)) s of
                 (Inl e, s1) \<Rightarrow> (Inl e, s1)
               | (Inr pre_commit, s1) \<Rightarrow>
            (case query_commitment commitments WinCommitNotFound left_block_num (position (cell_seg win_cell_left)) s1 of
                 (Inl e, s2) \<Rightarrow> (Inl e, s2)
               | (Inr left_commit, s2) \<Rightarrow>
            (case query_commitment commitments WinCommitNotFound right_block_num (position (cell_seg win_cell_right)) s2 of
                 (Inl e, s3) \<Rightarrow> (Inl e, s3)
               | (Inr right_commit, s3) \<Rightarrow>
                   let farmer_id = FarmerId_new P (enc_account who);
                       solution = Solution_new pre_block_hash farmer_id pre_cell win_cell_left win_cell_right
                   in case Solution_verify L P kzg solution pre_commit left_commit right_commit win_block_hash_left
                             win_block_hash_right PRE_CELL_LEADING_ZEROS 1 of
                        Inl f \<Rightarrow> (Inl (Panicked f), s3)
                      | Inr ok \<Rightarrow>
                          if \<not> ok then (Inl InvalidSolution, s3)
                          else if \<not> length claimants < MaxClaimantsPerBlock cfg then (Inl StorageLimitReached, s3)
                          else
                            let s4 = s3\<lparr> ff_ClaimantsForBlock := (ff_ClaimantsForBlock s3)(now := claimants @ [who]) \<rparr>;
                                reward = RewardAmount cfg;
                                s5 = s4\<lparr> ff_currency := deposit_creating who reward (ff_currency s4) \<rparr>
                            in (Inr (), s5\<lparr> ff_events := ff_events s5 @ [RewardClaimed who reward] \<rparr>))))"

section \<open>The provider of commitments\<close>

text \<open>The contract of the trait \<open>CommitmentFromPosition\<close>: a query may fill a cache, but what the provider publishes, its
  \<open>view\<close>, is left alone. A claim then leaves the view alone as well.\<close>

locale commitment_provider =
  fixes commitments :: "u32 \<Rightarrow> Position \<Rightarrow> 's \<Rightarrow> 'g1 option \<times> 's" and view :: "'s \<Rightarrow> 'v"
  assumes view_query: "view (snd (commitments b pos p)) = view p"
begin

lemma view_query_commitment:
  "query_commitment commitments e b pos s = (r, s') \<Longrightarrow> view (ff_provider s') = view (ff_provider s)"
  using view_query [of b pos "ff_provider s"]
  by (auto simp: query_commitment_def split: prod.splits option.splits)

lemma view_claim:
  "view (ff_provider (snd (claim L P kzg enc commitments deposit cfg orig pre cl cr s))) = view (ff_provider s)"
  by (auto simp: claim_def Let_def split: Origin.splits prod.splits sum.splits if_splits dest!: view_query_commitment)

end

interpretation melo_store: commitment_provider "commitments_from_position L kzg cfg"
    "\<lambda>s. (st_block_number s, st_Metadata s, st_Keys s, st_AppId s, st_Nonces s, st_UnavailableVote s, st_events s)"
  for L :: "('fr, 'g1, 'g2, 'fs, 'fk) kzg_lib" and kzg cfg
  by unfold_locales
    (auto simp: commitments_from_position_def Let_def split: option.splits sum.splits)

end
