(* ===== verification/Space_Props.thy ===== *)
theory Space_Props
  imports Proof_Of_Space
begin

text \<open>
  What the tables of \<open>proof-of-space\<close> hold after a piece is stored, which of the solutions found in them verify, and
  what the verification of a solution does not look at.
\<close>

section \<open>Positions\<close>

lemma u32_mod_2_eq_0: "(x :: u32) mod 2 = 0 \<longleftrightarrow> even (unat x)"
proof -
  have "x mod 2 = 0 \<longleftrightarrow> unat (x mod 2) = 0" by (simp add: unat_eq_0)
  also have "\<dots> \<longleftrightarrow> unat x mod 2 = 0" by (simp add: unat_mod)
  finally show ?thesis by (simp add: even_iff_mod_2_eq_zero)
qed

lemma even_succ_no_wrap:
  assumes "even (unat (x :: u32))"
  shows "unat (x + 1) = unat x + 1"
proof -
  have "unat x < 2 ^ 32" by (rule unat_u32_less)
  moreover have "unat x \<noteq> 2 ^ 32 - 1" using assms by auto
  ultimately show ?thesis by (simp add: unat_word_ariths)
qed

lemma odd_pred:
  assumes "odd (unat (x :: u32))"
  shows "unat (x - 1) = unat x - 1"
proof -
  have "1 \<le> x" using assms by (simp add: word_le_nat_alt) (metis One_nat_def Suc_leI even_zero gr0I)
  then show ?thesis by (simp add: unat_sub)
qed

lemma is_pair_words:
  "YPos_is_pair (YPos_from_u32 x) (YPos_from_u32 y) \<longleftrightarrow>
     (if even (unat x) then odd (unat y) \<and> x + 1 = y else even (unat y) \<and> x - 1 = y)"
  by (simp add: YPos_is_pair_def YPos_from_u32_def u32_mod_2_eq_0)

lemma is_pair_iff:
  "CellMetadata_is_pair m m' \<longleftrightarrow>
     (even (unat (cm_offset m)) \<and> unat (cm_offset m') = unat (cm_offset m) + 1) \<or>
     (even (unat (cm_offset m')) \<and> unat (cm_offset m) = unat (cm_offset m') + 1)"
proof (cases "even (unat (cm_offset m))")
  case True
  have "cm_offset m + 1 = cm_offset m' \<longleftrightarrow> unat (cm_offset m') = unat (cm_offset m) + 1"
    unfolding word_unat_eq_iff [of "cm_offset m + 1"] even_succ_no_wrap [OF True] by (rule eq_commute)
  with True show ?thesis unfolding CellMetadata_is_pair_def is_pair_words by presburger
next
  case False
  then have pos: "0 < unat (cm_offset m)" by (metis even_zero gr0I)
  have "cm_offset m - 1 = cm_offset m' \<longleftrightarrow> unat (cm_offset m) = unat (cm_offset m') + 1"
    unfolding word_unat_eq_iff [of "cm_offset m - 1"] odd_pred [OF False] using pos by linarith
  with False show ?thesis unfolding CellMetadata_is_pair_def is_pair_words by presburger
qed

section \<open>The tables\<close>

text \<open>Client lemmas on any store that keeps the contract of \<open>DasKv\<close>.\<close>

context das_kv
begin

lemma z_save_get:
  assumes "inv db" "codec_documented (pairs_codec P)" "ZValueManager_get P kv db (zv_z m) = Inr ps"
  shows "ZValueManager_get P kv (ZValueManager_save P kv m db) (zv_z m) =
     Inr (if (zv_left m, zv_right m) \<in> set ps then ps else ps @ [(zv_left m, zv_right m)])"
  using assms
  by (auto simp: ZValueManager_get_def ZValueManager_save_def get_set codec_documented_def Let_def ok_or_def
      split: option.splits)

lemma z_save_other:
  assumes "inv db" "k \<noteq> enc_u16 P (zv_z m)"
  shows "kv_get kv (ZValueManager_save P kv m db) k = kv_get kv db k"
  using assms by (simp add: ZValueManager_save_def get_set Let_def)

lemma inv_z_save: "inv db \<Longrightarrow> inv (ZValueManager_save P kv m db)"
  by (simp add: ZValueManager_save_def inv_set Let_def)

end

section \<open>Properties\<close>

text \<open>The two cells of a piece of two segments.\<close>

abbreviation first_cell :: "('fr, 'g1) Piece \<Rightarrow> CellMetadata" where
  "first_cell p \<equiv> \<lparr> cm_piece_metadata = pc_metadata p, cm_offset = 0 \<rparr>"

abbreviation second_cell :: "('fr, 'g1) Piece \<Rightarrow> CellMetadata" where
  "second_cell p \<equiv> \<lparr> cm_piece_metadata = pc_metadata p, cm_offset = 1 \<rparr>"

text \<open>The encodings of the values a farmer stores are decoded again, and the four keys that storing a piece of two cells
  with the same Y value uses are different and, but for the key of the piece, new.\<close>

definition two_cells_fresh ::
  "('fr, 'g1) pos_lib \<Rightarrow> 's DasKv \<Rightarrow> 's \<Rightarrow> ('fr, 'g1) Piece \<Rightarrow> u32 \<Rightarrow> u16 \<Rightarrow> bool" where
  "two_cells_fresh P kv db p y z \<longleftrightarrow>
     decode (piece_codec P) (encode (piece_codec P) p) = Some p \<and>
     decode (cells_codec P) (encode (cells_codec P) [first_cell p]) = Some [first_cell p] \<and>
     decode (pairs_codec P) (encode (pairs_codec P) [(second_cell p, first_cell p)]) = Some [(second_cell p, first_cell p)] \<and>
     distinct [Piece_key P p, key_by_x_pos P (Left 0) y, key_by_x_pos P (Right 1) y, enc_u16 P z] \<and>
     kv_get kv db (key_by_x_pos P (Left 0) y) = None \<and> kv_get kv db (key_by_x_pos P (Right 1) y) = None \<and>
     kv_get kv db (enc_u16 P z) = None"

lemma PieceMetadata_key_eq: "PieceMetadata_key P (pc_metadata p) = Piece_key P p"
  by (simp add: PieceMetadata_key_def Piece_key_def)

context das_kv
begin

lemma save_two_cells:
  assumes "inv db" "pc_segments p = [s0, s1]" "calculate_y L P f s0 = Inr y" "calculate_y L P f s1 = Inr y" "y \<noteq> 0"
    and "two_cells_fresh P kv db p y (calculate_z P s0 s1)"
  shows "\<exists>db'. Piece_save L P kv p f db = (Inr (), db') \<and>
     kv_get kv db' (Piece_key P p) = Some (encode (piece_codec P) p) \<and>
     kv_get kv db' (enc_u16 P (calculate_z P s0 s1)) = Some (encode (pairs_codec P) [(second_cell p, first_cell p)])"
proof -
  let ?K = "Piece_key P p" and ?Y0 = "key_by_x_pos P (Left 0) y" and ?Y1 = "key_by_x_pos P (Right 1) y"
  let ?Z = "enc_u16 P (calculate_z P s0 s1)"
  let ?d0 = "kv_set kv db ?K (encode (piece_codec P) p)"
  let ?d1 = "kv_set kv ?d0 ?Y0 (encode (cells_codec P) [first_cell p])"
  let ?d2 = "kv_set kv ?d1 ?Y1 (encode (cells_codec P) [second_cell p])"
  let ?d3 = "kv_set kv ?d2 ?Z (encode (pairs_codec P) [(second_cell p, first_cell p)])"
  have i: "inv ?d0" "inv ?d1" "inv ?d2" using assms(1) by (simp_all add: inv_set)
  note f = assms(6) [unfolded two_cells_fresh_def]
  have g1: "kv_get kv ?d1 = (kv_get kv db)(?K \<mapsto> encode (piece_codec P) p, ?Y0 \<mapsto> encode (cells_codec P) [first_cell p])"
    using i assms(1) by (simp add: get_set)
  then have g2: "kv_get kv ?d2 = (kv_get kv db)(?K \<mapsto> encode (piece_codec P) p, ?Y0 \<mapsto> encode (cells_codec P) [first_cell p],
      ?Y1 \<mapsto> encode (cells_codec P) [second_cell p])"
    using i by (simp add: get_set)
  then have g3: "kv_get kv ?d3 = (kv_get kv ?d2)(?Z \<mapsto> encode (pairs_codec P) [(second_cell p, first_cell p)])"
    using i by (simp add: get_set)
  have y0: "YPos_from_u32 0 = Left 0" and y1: "YPos_from_u32 1 = Right 1"
    by (simp_all add: YPos_from_u32_def)
  have s0: "YValueManager_save P kv (YValueManager_new (pc_metadata p) 0 y) ?d0 = (Inr (), ?d1)"
    using f assms(1,5) by (auto simp: YValueManager_save_def YValueManager_new_def YValueManager_key_def y0 get_set Let_def)
  have m0: "match_cells P kv (YValueManager_new (pc_metadata p) 0 y) ?d1 = Inr []"
    using f by (auto simp: match_cells_def YValueManager_new_def y0 match_x_pos_def g1)
  have s1: "YValueManager_save P kv (YValueManager_new (pc_metadata p) 1 y) ?d1 = (Inr (), ?d2)"
    using f assms(5) by (auto simp: YValueManager_save_def YValueManager_new_def YValueManager_key_def y1 g1 Let_def)
  have m1: "match_cells P kv (YValueManager_new (pc_metadata p) 1 y) ?d2 = Inr [first_cell p]"
    using f by (auto simp: match_cells_def YValueManager_new_def y1 match_x_pos_def g2 ok_or_def)
  have c: "Piece_get_cell P kv (first_cell p) ?d2 = Inr (Some s0)"
    using f assms(2) by (auto simp: Piece_get_cell_def PieceMetadata_key_eq Piece_cell_def g2)
  have z: "ZValueManager_save P kv (ZValueManager_new P (second_cell p) (first_cell p) s0 s1) ?d2 = ?d3"
    using f by (auto simp: ZValueManager_save_def ZValueManager_new_def g2 Let_def)
  have "Piece_save L P kv p f db = (Inr (), ?d3)"
    using s0 m0 s1 m1 c z assms(2-4)
    by (simp add: Piece_save_def x_values_iterator_def enumerate0_def y0 y1 del: fun_upd_apply)
  then show ?thesis using g2 g3 f by (intro exI [of _ ?d3]) auto
qed

end

text \<open>C34: The pairs found inside one piece are stored the wrong way round. Storing a piece of two cells with the same Y value, not 0,
  into a table that holds nothing yet under the keys of this Y value and of the Z value of the first and the second cell (the four
  keys used being different, and the codecs reading back what they wrote), records under that Z value the second cell as the left
  and the first one as the right cell; the only solution found for it has its cells in this order, and its check of Z
  holds exactly if the Z value does not depend on the order of the cells.\<close>

theorem pairs_of_one_piece_swapped:
  assumes "das_kv kv good" and "good db" and "pc_segments p = [s0, s1]"
    and "calculate_y L P f s0 = Inr y" and "calculate_y L P f s1 = Inr y" and "y \<noteq> 0"
    and "two_cells_fresh P kv db p y (calculate_z P s0 s1)"
  shows "\<exists>db'. Piece_save L P kv p f db = (Inr (), db') \<and>
     (let z = calculate_z P s0 s1;
          sol = Solution_new h f pre (Cell_new (second_cell p) s1) (Cell_new (first_cell p) s0)
      in find_solutions_with_z P kv db' f pre h z = Inr [sol] \<and>
         ZValueManager_verify L P z f (cell_seg (sol_win_cell_left sol)) (cell_seg (sol_win_cell_right sol))
           (cell_metadata (sol_win_cell_left sol)) (cell_metadata (sol_win_cell_right sol)) =
         Inr (calculate_z P s1 s0 = calculate_z P s0 s1))"
proof -
  obtain db' where d: "Piece_save L P kv p f db = (Inr (), db')"
      "kv_get kv db' (Piece_key P p) = Some (encode (piece_codec P) p)"
      "kv_get kv db' (enc_u16 P (calculate_z P s0 s1)) = Some (encode (pairs_codec P) [(second_cell p, first_cell p)])"
    using das_kv.save_two_cells [OF assms] by blast
  note c = assms(7) [unfolded two_cells_fresh_def]
  have cells: "Piece_get_cell P kv (first_cell p) db' = Inr (Some s0)" "Piece_get_cell P kv (second_cell p) db' = Inr (Some s1)"
    using d(2) c assms(3) by (auto simp: Piece_get_cell_def PieceMetadata_key_eq Piece_cell_def word_le_nat_alt)
  have pair: "CellMetadata_is_pair (second_cell p) (first_cell p)" by (simp add: is_pair_iff)
  have "find_solutions_with_z P kv db' f pre h (calculate_z P s0 s1) =
      Inr [Solution_new h f pre (Cell_new (second_cell p) s1) (Cell_new (first_cell p) s0)]"
    using d(3) c cells
    by (simp add: find_solutions_with_z_def ZValueManager_get_def ok_or_def List.map_filter_def solution_of_pair_def)
  then show ?thesis
    using d(1) pair assms(4,5)
    by (auto simp: Solution_new_def Cell_new_def ZValueManager_verify_def Let_def)
qed

text \<open>An instance: the hash of a message is the message, the segments at column 0 and elsewhere have different encodings, and the
  key stream is such that every Y value is 1.\<close>

definition sample_segment :: "u32 \<Rightarrow> (bytes, bytes list) Segment" where
  "sample_segment x =
     \<lparr> position = \<lparr> pos_x = x, pos_y = 0 \<rparr>, content = \<lparr> sd_data = [replicate 32 0], sd_proof = [] \<rparr> \<rparr>"

definition sample_piece :: "(bytes, bytes list) Piece" where
  "sample_piece = Piece_new 9 (Row 3) [sample_segment 0, sample_segment 1]"

definition sample_pos_lib :: "(bytes, bytes list) pos_lib" where
  "sample_pos_lib =
     \<lparr> chacha8 = \<lambda>_. replicate 31 0 @ [1], blake2 = \<lambda>x. x,
       enc_segment = \<lambda>s. if pos_x (position s) = 0 then [1, 2] else [3],
       enc_u32 = u32_to_be_bytes, enc_u16 = \<lambda>_. [0, 0],
       enc_ypos = \<lambda>p. (case p of Left x \<Rightarrow> 0 # u32_to_be_bytes x | Right x \<Rightarrow> 1 # u32_to_be_bytes x),
       enc_metadata = \<lambda>m. u32_to_be_bytes (pm_block_num m) @
          (case pm_pos m of Row x \<Rightarrow> 0 # u32_to_be_bytes x | Column x \<Rightarrow> 1 # u32_to_be_bytes x),
       piece_codec = \<lparr> encode = \<lambda>_. [], decode = \<lambda>_. Some sample_piece \<rparr>,
       cells_codec = \<lparr> encode = \<lambda>_. [], decode = \<lambda>_. Some [first_cell sample_piece] \<rparr>,
       pairs_codec = \<lparr> encode = \<lambda>_. [], decode = \<lambda>_. Some [(second_cell sample_piece, first_cell sample_piece)] \<rparr> \<rparr>"

lemma sample_y:
  "calculate_y sample_lib sample_pos_lib (FarmerId (replicate 32 0)) (sample_segment x) = Inr 1"
proof -
  have "fold_hash (replicate 31 0 @ [1]) = Inr 1"
    by (simp add: fold_hash_def slice_res_def numeral_eq_Suc Let_def u32_from_be_bytes_def)
  then show ?thesis
    by (simp add: calculate_y_def sample_segment_def sample_pos_lib_def sample_lib_def BlsScalar_to_bytes_def length_xor_byte_slices)
qed

lemma sample_z: "calculate_z sample_pos_lib (sample_segment 0) (sample_segment 1) \<noteq> calculate_z sample_pos_lib (sample_segment 1) (sample_segment 0)"
  by (simp add: calculate_z_def sample_pos_lib_def sample_segment_def hash_to_u16_xor_def chunks_step u16_from_be_bytes_def
      get_opt_def)

theorem pairs_of_one_piece_swapped_witness:
  "let f = FarmerId (replicate 32 0); z = calculate_z sample_pos_lib (sample_segment 0) (sample_segment 1);
       db' = snd (Piece_save sample_lib sample_pos_lib MockDb_kv sample_piece f MockDb_new);
       sol = Solution_new [] f (PreCell_new (Row 0) (sample_segment 0)) (Cell_new (second_cell sample_piece) (sample_segment 1))
               (Cell_new (first_cell sample_piece) (sample_segment 0))
   in find_solutions_with_z sample_pos_lib MockDb_kv db' f (PreCell_new (Row 0) (sample_segment 0)) [] z = Inr [sol] \<and>
      ZValueManager_verify sample_lib sample_pos_lib z f (sample_segment 1) (sample_segment 0)
        (second_cell sample_piece) (first_cell sample_piece) = Inr False"
proof -
  have fresh: "two_cells_fresh sample_pos_lib MockDb_kv MockDb_new sample_piece 1
      (calculate_z sample_pos_lib (sample_segment 0) (sample_segment 1))"
    by (simp add: two_cells_fresh_def sample_pos_lib_def sample_piece_def Piece_new_def Piece_key_def key_by_x_pos_def
        MockDb_get_def MockDb_new_def) (simp add: u32_to_be_bytes_def)
  have segs: "pc_segments sample_piece = [sample_segment 0, sample_segment 1]" by (simp add: sample_piece_def Piece_new_def)
  from pairs_of_one_piece_swapped [OF mock_kv.das_kv_axioms TrueI segs sample_y sample_y _ fresh,
      where h = "[]" and pre = "PreCell_new (Row 0) (sample_segment 0)"]
  show ?thesis using sample_z by (auto simp: Solution_new_def Cell_new_def Let_def)
qed

text \<open>C35: The verification of a solution never compares where a cell claims to be with where its segment is. The metadata of the two
  winning cells can be replaced by any others with the same piece indices whose offsets are neighbours, a row
  by a column included, and the verification answers the same, although the segments and the positions in
  them, against which the proofs are checked, stay what they were.\<close>

theorem solution_metadata_unchecked:
  assumes "CellMetadata_is_pair (cell_metadata cl) (cell_metadata cr)" and "CellMetadata_is_pair ml mr"
    and "PiecePosition_to_u32 (pm_pos (cm_piece_metadata ml)) = Cell_piece_index cl"
    and "PiecePosition_to_u32 (pm_pos (cm_piece_metadata mr)) = Cell_piece_index cr"
  shows "Solution_verify L P kzg (Solution_new h f pre (Cell_new ml (cell_seg cl)) (Cell_new mr (cell_seg cr))) pc lc rc lh rh zeros n =
     Solution_verify L P kzg (Solution_new h f pre cl cr) pc lc rc lh rh zeros n"
  using assms
  by (simp add: Solution_verify_def Solution_new_def Cell_new_def validate_win_cell_with_kzg_def validate_win_cell_def
      Cell_piece_index_def ZValueManager_verify_def Cell_verify_kzg_proof_def)

theorem solution_metadata_unchecked_witness:
  "let at = \<lambda>pos i. CellMetadata_new (PieceMetadata_new 9 pos) i; pre = PreCell_new (Row 0) (sample_segment 0);
       sol = \<lambda>ml mr. Solution_new (replicate 32 255) (FarmerId (replicate 32 0)) pre (Cell_new ml (sample_segment 0)) (Cell_new mr (sample_segment 1))
   in Solution_verify sample_lib sample_pos_lib (sample_kzg 4096) (sol (at (Column 3) 77) (at (Column 3) 76)) [] [] [] [] [] 0 1 =
      Solution_verify sample_lib sample_pos_lib (sample_kzg 4096) (sol (at (Row 3) 0) (at (Row 3) 1)) [] [] [] [] [] 0 1"
proof -
  let ?at = "\<lambda>pos i. CellMetadata_new (PieceMetadata_new 9 pos) i"
  let ?cl = "Cell_new (?at (Row 3) 0) (sample_segment 0)" and ?cr = "Cell_new (?at (Row 3) 1) (sample_segment 1)"
  have "CellMetadata_is_pair (cell_metadata ?cl) (cell_metadata ?cr)" "CellMetadata_is_pair (?at (Column 3) 77) (?at (Column 3) 76)"
    by (simp_all add: is_pair_iff CellMetadata_new_def Cell_new_def)
  from solution_metadata_unchecked [OF this, of sample_lib sample_pos_lib "sample_kzg 4096" "replicate 32 255" "FarmerId (replicate 32 0)"
      "PreCell_new (Row 0) (sample_segment 0)" "[]" "[]" "[]" "[]" "[]" 0 1]
  show ?thesis
    by (simp add: Let_def Cell_piece_index_def PiecePosition_to_u32_def CellMetadata_new_def PieceMetadata_new_def) (simp add: Cell_new_def)
qed

text \<open>What the derived encodings document: a record is its fields in order, an enumeration its index and its field.\<close>

definition scale_documented :: "('fr, 'g1) pos_lib \<Rightarrow> bool" where
  "scale_documented P \<longleftrightarrow>
     (\<forall>m. enc_metadata P m = enc_u32 P (pm_block_num m) @
        (case pm_pos m of Row r \<Rightarrow> 0 # enc_u32 P r | Column c \<Rightarrow> 1 # enc_u32 P c)) \<and>
     (\<forall>p. enc_ypos P p = (case p of Left x \<Rightarrow> 0 # enc_u32 P x | Right x \<Rightarrow> 1 # enc_u32 P x))"

text \<open>Pieces and Y values share their keys. The key of the piece of a row and a block is the key of the left cells at that offset
  with that block number as Y value, and the key of the piece of a column that of the right cells; so a piece that
  is stored makes the storing of such a cell panic, unless the bytes of the piece happen to decode as a list of cells.\<close>

theorem piece_and_y_keys_collide:
  assumes "scale_documented P" and "das_kv kv good" and "good db"
    and "YPos_from_u32 i = (case pm_pos (pc_metadata p) of Row r \<Rightarrow> Left r | Column c \<Rightarrow> Right c)"
    and "pm_block_num (pc_metadata p) \<noteq> 0"
    and "decode (cells_codec P) (encode (piece_codec P) p) = None"
  shows "let m = YValueManager_new owner i (pm_block_num (pc_metadata p));
             db' = kv_set kv db (Piece_key P p) (encode (piece_codec P) p)
         in YValueManager_key P m = Piece_key P p \<and> YValueManager_save P kv m db' = (Inl (Panic ''unwrap''), db')"
proof -
  let ?m = "YValueManager_new owner i (pm_block_num (pc_metadata p))"
  have "YValueManager_key P ?m = Piece_key P p"
    using assms(1,4) by (cases "pm_pos (pc_metadata p)")
      (simp_all add: YValueManager_key_def YValueManager_new_def key_by_x_pos_def Piece_key_def scale_documented_def)
  moreover have "yv_y ?m = pm_block_num (pc_metadata p)" by (simp add: YValueManager_new_def)
  ultimately show ?thesis
    using assms(5,6) das_kv.get_set [OF assms(2,3)] by (simp add: YValueManager_save_def Let_def)
qed

theorem piece_and_y_keys_collide_witness:
  "let P = sample_pos_lib\<lparr> cells_codec := \<lparr> encode = \<lambda>_. [], decode = \<lambda>_. None \<rparr> \<rparr>;
       p = Piece_new 9 (Row 4) [sample_segment 0];
       db' = kv_set MockDb_kv MockDb_new (Piece_key P p) (encode (piece_codec P) p)
   in YValueManager_save P MockDb_kv (YValueManager_new (PieceMetadata_new 5 (Row 1)) 4 9) db' = (Inl (Panic ''unwrap''), db')"
proof -
  let ?P = "sample_pos_lib\<lparr> cells_codec := \<lparr> encode = \<lambda>_. [], decode = \<lambda>_. None \<rparr> \<rparr>"
  have "scale_documented ?P"
    by (simp add: scale_documented_def sample_pos_lib_def split: YPos.splits PiecePosition.splits)
  from piece_and_y_keys_collide [where db = MockDb_new and i = 4 and p = "Piece_new 9 (Row 4) [sample_segment 0]"
      and owner = "PieceMetadata_new 5 (Row 1)", OF this mock_kv.das_kv_axioms TrueI]
  show ?thesis by (simp add: Piece_new_def YPos_from_u32_def u32_mod_2_eq_0 Let_def)
qed

end
