(* ===== verification/Fortune_Props.thy ===== *)
theory Fortune_Props
  imports Farmers_Fortune Space_Props
begin

text \<open>
  What \<open>pallet-farmers-fortune\<close> guarantees: who is paid and when, as an invariant of every run of calls and blocks,
  what a successful claim has been checked for, and the segments that make a claim panic.
\<close>

section \<open>One claim\<close>

lemma Solution_new_fields [simp]:
  "sol_block_hash (Solution_new h f pre cl cr) = h" "sol_farmer_id (Solution_new h f pre cl cr) = f"
  "sol_pre_cell (Solution_new h f pre cl cr) = pre" "sol_win_cell_left (Solution_new h f pre cl cr) = cl"
  "sol_win_cell_right (Solution_new h f pre cl cr) = cr"
  by (simp_all add: Solution_new_def)

lemma PreCell_new_fields [simp]: "pre_seg (PreCell_new pos seg) = seg" "PreCell_piece_index (PreCell_new pos seg) = PiecePosition_to_u32 pos"
  by (simp_all add: PreCell_new_def PreCell_piece_index_def)

definition rewarded ::
  "('acc \<Rightarrow> nat \<Rightarrow> 'b \<Rightarrow> 'b) \<Rightarrow> FortuneConfig \<Rightarrow> 'acc \<Rightarrow> 's \<Rightarrow> ('acc, 's, 'b) Fortune \<Rightarrow> ('acc, 's, 'b) Fortune" where
  "rewarded deposit_creating cfg who p s =
     s\<lparr> ff_provider := p,
        ff_ClaimantsForBlock := (ff_ClaimantsForBlock s)(ff_block_number s := ff_ClaimantsForBlock s (ff_block_number s) @ [who]),
        ff_currency := deposit_creating who (RewardAmount cfg) (ff_currency s),
        ff_events := ff_events s @ [RewardClaimed who (RewardAmount cfg)] \<rparr>"

lemma query_commitment_Inr:
  "query_commitment commitments e b pos s = (Inr c, s') \<Longrightarrow>
     \<exists>p. commitments b pos (ff_provider s) = (Some c, p) \<and> s' = s\<lparr> ff_provider := p \<rparr>"
  by (auto simp: query_commitment_def split: prod.splits option.splits)

text \<open>What a claim has passed when it succeeds, with the provider's three states in between.\<close>

lemma claim_success:
  assumes "claim L P kzg enc commitments deposit cfg orig pre cl cr s = (Inr (), s')"
  obtains who pre_commit left_commit right_commit p1 p2 p3 where
    "orig = Signed who" "who \<notin> set (ff_ClaimantsForBlock s (ff_block_number s))"
    "length (ff_ClaimantsForBlock s (ff_block_number s)) < MaxClaimantsPerBlock cfg" "ff_block_number s \<noteq> 0"
    "commitments (ff_block_number s - 1) (position (pre_seg pre)) (ff_provider s) = (Some pre_commit, p1)"
    "commitments (CellMetadata_block_number (cell_metadata cl)) (position (cell_seg cl)) p1 = (Some left_commit, p2)"
    "commitments (CellMetadata_block_number (cell_metadata cr)) (position (cell_seg cr)) p2 = (Some right_commit, p3)"
    "Solution_verify L P kzg (Solution_new (ff_block_hash s (ff_block_number s - 1)) (FarmerId_new P (enc who)) pre cl cr)
       pre_commit left_commit right_commit (ff_block_hash s (CellMetadata_block_number (cell_metadata cl)))
       (ff_block_hash s (CellMetadata_block_number (cell_metadata cr))) PRE_CELL_LEADING_ZEROS 1 = Inr True"
    "s' = rewarded deposit cfg who p3 s"
  using assms
  by (auto simp: claim_def Let_def not_less split: Origin.splits prod.splits sum.splits if_splits
      dest!: query_commitment_Inr) (rule that, auto simp: rewarded_def)

lemma dispatch_claim_cases:
  obtains (failed) e where "dispatch (claim L P kzg enc commitments deposit cfg orig pre cl cr) s = (Inl e, s)"
  | (paid) who p where "dispatch (claim L P kzg enc commitments deposit cfg orig pre cl cr) s = (Inr (), rewarded deposit cfg who p s)"
      "who \<notin> set (ff_ClaimantsForBlock s (ff_block_number s))"
      "length (ff_ClaimantsForBlock s (ff_block_number s)) < MaxClaimantsPerBlock cfg"
proof (cases "claim L P kzg enc commitments deposit cfg orig pre cl cr s")
  case (Pair r s')
  show ?thesis
  proof (cases r)
    case (Inl e)
    then show ?thesis using Pair that(1) by (simp add: dispatch_def)
  next
    case (Inr u)
    with Pair have c: "claim L P kzg enc commitments deposit cfg orig pre cl cr s = (Inr (), s')" by simp
    then obtain who p where "who \<notin> set (ff_ClaimantsForBlock s (ff_block_number s))"
        "length (ff_ClaimantsForBlock s (ff_block_number s)) < MaxClaimantsPerBlock cfg" "s' = rewarded deposit cfg who p s"
      by (auto elim: claim_success)
    with c show ?thesis by (intro that(2)) (simp_all add: dispatch_def)
  qed
qed

section \<open>Runs\<close>

text \<open>A run: calls of \<open>claim\<close>, new blocks, and everything else the chain does, which may change the provider and the balances in any way. The
  number beside the state adds up the money that these other changes made.\<close>

inductive fortune_step ::
  "('fr, 'g1, 'g2, 'fs, 'fk) kzg_lib \<Rightarrow> ('fr, 'g1) pos_lib \<Rightarrow> ('g1, 'g2, 'fs) KZG \<Rightarrow> ('acc \<Rightarrow> bytes)
    \<Rightarrow> (u32 \<Rightarrow> Position \<Rightarrow> 's \<Rightarrow> 'g1 option \<times> 's) \<Rightarrow> ('acc \<Rightarrow> nat \<Rightarrow> 'b \<Rightarrow> 'b) \<Rightarrow> ('b \<Rightarrow> nat) \<Rightarrow> FortuneConfig
    \<Rightarrow> ('acc, 's, 'b) Fortune \<times> nat \<Rightarrow> ('acc, 's, 'b) Fortune \<times> nat \<Rightarrow> bool"
  for L P kzg enc commitments deposit issuance cfg where
  claim: "fortune_step L P kzg enc commitments deposit issuance cfg (s, minted)
            (snd (dispatch (claim L P kzg enc commitments deposit cfg orig pre cl cr) s), minted)"
| block: "ff_block_number s < n \<Longrightarrow>
            fortune_step L P kzg enc commitments deposit issuance cfg (s, minted) (s\<lparr> ff_block_number := n, ff_block_hash := h \<rparr>, minted)"
| other: "fortune_step L P kzg enc commitments deposit issuance cfg (s, minted)
            (s\<lparr> ff_provider := p, ff_currency := b \<rparr>, minted + (issuance b - issuance (ff_currency s)))"

text \<open>\<open>Currency::deposit_creating\<close> documents that it creates at most the amount it is given.\<close>

definition currency_documented :: "('acc \<Rightarrow> nat \<Rightarrow> 'b \<Rightarrow> 'b) \<Rightarrow> ('b \<Rightarrow> nat) \<Rightarrow> bool" where
  "currency_documented deposit issuance \<longleftrightarrow> (\<forall>who amount b. issuance (deposit who amount b) \<le> issuance b + amount)"

definition payouts :: "FortuneConfig \<Rightarrow> (u32 \<Rightarrow> 'acc list) \<Rightarrow> nat \<Rightarrow> 'acc FortuneEvent list" where
  "payouts cfg claimants n = concat (map (\<lambda>b. map (\<lambda>who. RewardClaimed who (RewardAmount cfg)) (claimants (of_nat b))) [0..<Suc n])"

definition fortune_inv ::
  "('b \<Rightarrow> nat) \<Rightarrow> FortuneConfig \<Rightarrow> nat \<Rightarrow> ('acc, 's, 'b) Fortune \<Rightarrow> bool" where
  "fortune_inv issuance cfg i0 s \<longleftrightarrow>
     (\<forall>b. distinct (ff_ClaimantsForBlock s b) \<and> length (ff_ClaimantsForBlock s b) \<le> MaxClaimantsPerBlock cfg) \<and>
     (\<forall>b. ff_block_number s < b \<longrightarrow> ff_ClaimantsForBlock s b = []) \<and>
     ff_events s = payouts cfg (ff_ClaimantsForBlock s) (unat (ff_block_number s)) \<and>
     issuance (ff_currency s) \<le> i0 + RewardAmount cfg * length (ff_events s)"

lemma payouts_cong:
  "(\<And>b. b \<le> n \<Longrightarrow> f (of_nat b) = g (of_nat b)) \<Longrightarrow> payouts cfg f n = payouts cfg g n"
  unfolding payouts_def by (intro arg_cong [where f = concat] map_cong) auto

lemma payouts_push:
  "payouts cfg (f(b := f b @ [who])) (unat b) = payouts cfg f (unat b) @ [RewardClaimed who (RewardAmount cfg)]"
proof -
  have ne: "(of_nat i :: u32) \<noteq> b" if "i < unat b" for i
  proof -
    have "unat (of_nat i :: u32) = i" using that unat_u32_less [of b] by (simp add: unat_of_nat_u32)
    then show ?thesis using that by auto
  qed
  have "map (\<lambda>i. map (\<lambda>w. RewardClaimed w (RewardAmount cfg)) ((f(b := f b @ [who])) (of_nat i))) [0..<unat b] =
      map (\<lambda>i. map (\<lambda>w. RewardClaimed w (RewardAmount cfg)) (f (of_nat i))) [0..<unat b]"
    using ne by (intro map_cong) auto
  from arg_cong [OF this, of concat] show ?thesis by (simp add: payouts_def fun_upd_same del: fun_upd_apply)
qed

lemma payouts_later:
  assumes "\<And>b. n < b \<Longrightarrow> f b = []" and "n < m"
  shows "payouts cfg f (unat m) = payouts cfg f (unat n)"
proof -
  have le: "unat n < unat m" using assms(2) by (simp add: word_less_nat_alt)
  then have "[0..<Suc (unat m)] = [0..<Suc (unat n)] @ [Suc (unat n)..<Suc (unat m)]"
    using upt_add_eq_append [of 0 "Suc (unat n)" "unat m - unat n"] by simp
  moreover have "f (of_nat b) = []" if "b \<in> set [Suc (unat n)..<Suc (unat m)]" for b
    using that unat_u32_less [of m] by (intro assms(1)) (auto simp: word_less_nat_alt unat_of_nat_u32)
  ultimately show ?thesis by (simp add: payouts_def del: upt_Suc)
qed

lemma length_payouts:
  "(\<And>b. length (f b) \<le> k) \<Longrightarrow> length (payouts cfg f n) \<le> k * Suc n"
proof (induction n)
  case (Suc n)
  from add_mono [OF Suc.IH [OF Suc.prems] Suc.prems [of "of_nat (Suc n)"]] show ?case by (simp add: payouts_def)
qed (simp add: payouts_def)

lemma fortune_inv_rewarded:
  assumes "fortune_inv issuance cfg i0 s" and "currency_documented deposit issuance"
    and "who \<notin> set (ff_ClaimantsForBlock s (ff_block_number s))"
    and "length (ff_ClaimantsForBlock s (ff_block_number s)) < MaxClaimantsPerBlock cfg"
  shows "fortune_inv issuance cfg i0 (rewarded deposit cfg who p s)"
proof -
  have "issuance (deposit who (RewardAmount cfg) (ff_currency s)) \<le> issuance (ff_currency s) + RewardAmount cfg"
    using assms(2) by (simp add: currency_documented_def)
  also have "\<dots> \<le> i0 + RewardAmount cfg * length (ff_events s) + RewardAmount cfg"
    using assms(1) unfolding fortune_inv_def by (intro add_right_mono) blast
  finally have "issuance (deposit who (RewardAmount cfg) (ff_currency s)) \<le> i0 + RewardAmount cfg * length (ff_events s) + RewardAmount cfg" .
  moreover have "ff_events s = payouts cfg (ff_ClaimantsForBlock s) (unat (ff_block_number s))"
    using assms(1) by (simp add: fortune_inv_def)
  ultimately show ?thesis
    using assms(1,3,4) by (simp add: fortune_inv_def rewarded_def payouts_push ac_simps)
qed

lemma fortune_inv_step:
  assumes "fortune_step L P kzg enc commitments deposit issuance cfg (s, minted) (s', minted')" and "currency_documented deposit issuance"
    and "fortune_inv issuance cfg (i0 + minted) s"
  shows "fortune_inv issuance cfg (i0 + minted') s'"
  using assms(1)
proof cases
  case (claim orig pre cl cr)
  then show ?thesis using assms(2,3)
    by (cases rule: dispatch_claim_cases [of L P kzg enc commitments deposit cfg orig pre cl cr s])
      (simp_all add: fortune_inv_rewarded)
next
  case (block n h)
  have "payouts cfg (ff_ClaimantsForBlock s) (unat n) = payouts cfg (ff_ClaimantsForBlock s) (unat (ff_block_number s))"
    using assms(3) block by (intro payouts_later) (simp_all add: fortune_inv_def)
  then show ?thesis using assms(3) block by (auto simp: fortune_inv_def)
next
  case (other b p)
  then show ?thesis using assms(3) by (auto simp: fortune_inv_def)
qed

text \<open>C10: Rewards are bounded. In every run that starts without claims, of any length and with any calls, new blocks and changes of the
  balances by the rest of the chain, no account claims twice in a block and no block has more than \<open>MaxClaimantsPerBlock\<close> claimants;
  the rewards paid are, block after block, exactly one reward for each claimant stored; and apart from what the rest of
  the chain made itself, the money in existence grew by at most the reward times the claimants allowed in the blocks so far.\<close>

theorem rewards_bounded:
  assumes "currency_documented deposit issuance"
    and "(fortune_step L P kzg enc commitments deposit issuance cfg)\<^sup>*\<^sup>* (s0, 0) (s, minted)"
    and "ff_ClaimantsForBlock s0 = (\<lambda>_. [])" and "ff_events s0 = []"
  shows "(\<forall>b. distinct (ff_ClaimantsForBlock s b) \<and> length (ff_ClaimantsForBlock s b) \<le> MaxClaimantsPerBlock cfg) \<and>
    ff_events s = payouts cfg (ff_ClaimantsForBlock s) (unat (ff_block_number s)) \<and>
    issuance (ff_currency s) \<le> issuance (ff_currency s0) + minted +
      RewardAmount cfg * (MaxClaimantsPerBlock cfg * Suc (unat (ff_block_number s)))"
proof -
  have "fortune_inv issuance cfg (issuance (ff_currency s0) + minted) s"
    using assms(2)
  proof (induction rule: rtranclp_induct2)
    case refl
    have "payouts cfg (\<lambda>_. []) n = ([] :: 'a FortuneEvent list)" for n by (simp add: payouts_def)
    then show ?case using assms(3,4) by (simp add: fortune_inv_def)
  next
    case (step s m s' m')
    then show ?case using fortune_inv_step assms(1) by blast
  qed
  then have inv: "\<And>b. distinct (ff_ClaimantsForBlock s b)" "\<And>b. length (ff_ClaimantsForBlock s b) \<le> MaxClaimantsPerBlock cfg"
      "ff_events s = payouts cfg (ff_ClaimantsForBlock s) (unat (ff_block_number s))"
      "issuance (ff_currency s) \<le> issuance (ff_currency s0) + minted + RewardAmount cfg * length (ff_events s)"
    unfolding fortune_inv_def by blast+
  have "RewardAmount cfg * length (ff_events s) \<le> RewardAmount cfg * (MaxClaimantsPerBlock cfg * Suc (unat (ff_block_number s)))"
    using length_payouts [OF inv(2)] by (simp add: inv(3))
  with inv(4) have "issuance (ff_currency s) \<le> issuance (ff_currency s0) + minted +
      RewardAmount cfg * (MaxClaimantsPerBlock cfg * Suc (unat (ff_block_number s)))"
    by (rule order_trans [OF _ add_left_mono])
  with inv(1-3) show ?thesis by blast
qed

text \<open>A run with a paid claim: every bit of the block hashes is set, the challenge is 0, and every segment is the zero polynomial's.\<close>

definition lucky_lib :: "(bytes, bytes list) pos_lib" where
  "lucky_lib = sample_pos_lib\<lparr> blake2 := \<lambda>_. replicate 32 255 \<rparr>"

definition zero_commitments :: "u32 \<Rightarrow> Position \<Rightarrow> unit \<Rightarrow> bytes list option \<times> unit" where
  "zero_commitments block_num pos p = (Some [], p)"

definition sample_fortune :: "(nat, unit, nat) Fortune" where
  "sample_fortune =
     \<lparr> ff_block_number = 5, ff_block_hash = \<lambda>_. replicate 32 255, ff_ClaimantsForBlock = \<lambda>_. [], ff_provider = (),
       ff_currency = 1000, ff_events = [] \<rparr>"

definition sample_claim :: "nat Origin \<Rightarrow> (nat, unit, nat) Fortune \<Rightarrow> (FortuneError + unit) \<times> (nat, unit, nat) Fortune" where
  "sample_claim orig = claim sample_lib lucky_lib (sample_kzg 4096) (\<lambda>_. replicate 32 0) zero_commitments (\<lambda>_ amount b. b + amount)
     \<lparr> RewardAmount = 10, MaxClaimantsPerBlock = 3 \<rparr> orig (PreCell_new (Row 0) (sample_segment 0))
     (Cell_new (first_cell sample_piece) (sample_segment 0)) (Cell_new (second_cell sample_piece) (sample_segment 1))"

lemma challenge_0: "hash_to_u16_xor (replicate 32 255) = 0"
  by (simp add: hash_to_u16_xor_def chunks_step u16_from_be_bytes_def numeral_eq_Suc)

lemma all_indices_valid: "i < 8 \<Longrightarrow> is_index_valid (replicate 32 255) i 32 1"
  by (cases "i = 0"; cases "i = 1"; cases "i = 2"; cases "i = 3"; cases "i = 4"; cases "i = 5"; cases "i = 6"; cases "i = 7")
    (simp_all add: is_index_valid_def Let_def)

lemma sample_segment_verifies:
  assumes "k < 64" and "2 * 2 ^ k * t = (4096 :: nat)"
  shows "Segment_verify sample_lib (sample_segment x) (sample_kzg 4096) [] (2 ^ k) = Inr True"
proof -
  have t: "0 < t" using assms(2) by (cases t) simp_all
  have width: "KZG_max_width sample_lib (sample_kzg 4096) = 4096" by (simp add: KZG_max_width_def sample_lib_def sample_kzg_def)
  have "get_kzg_index sample_lib (sample_kzg 4096) (2 ^ k) i 1 = Inr (domain_pos k i * t)" for i
    using assms t width by (intro get_kzg_index_domain_pos) simp_all
  moreover have "domain_pos k i * t \<le> 4096" for i
    using mult_le_mono1 [OF less_imp_le [OF domain_pos_less [OF assms(1), of i]], of t] assms(2) by simp
  moreover have "sample_zero = replicate 32 0" by (simp add: sample_zero_def)
  ultimately show ?thesis
    by (simp add: Segment_verify_def KZG_check_proof_multi_def sample_segment_def Segment_size_def)
      (simp add: sample_lib_def sample_kzg_def get_expanded_roots_of_unity_at_def reverse_bit_order_def)
qed

lemma sample_pre_cell_verifies:
  "PreCell_verify_kzg_proof sample_lib (PreCell_new pos (sample_segment x)) (sample_kzg 4096) [] = Inr True"
  using sample_segment_verifies [of 8 8 x]
  by (simp add: PreCell_verify_kzg_proof_def PreCell_new_def config_defs unwrap_or_false_def)

lemma sample_cell_verifies:
  "Cell_verify_kzg_proof sample_lib (Cell_new m (sample_segment x)) (sample_kzg 4096) [] = Inr True"
  using sample_segment_verifies [of 7 16 x]
  by (simp add: Cell_verify_kzg_proof_def Cell_new_def config_defs unwrap_or_false_def)

lemma lucky_y: "calculate_y sample_lib lucky_lib (FarmerId (replicate 32 0)) (sample_segment x) = Inr 1"
proof -
  have "chacha8 lucky_lib = chacha8 sample_pos_lib" by (simp add: lucky_lib_def)
  then show ?thesis using sample_y [of x] unfolding calculate_y_def by presburger
qed

lemma lucky_z: "calculate_z lucky_lib l r = 0"
  by (simp add: calculate_z_def lucky_lib_def challenge_0)

lemma sample_solution:
  "Solution_verify sample_lib lucky_lib (sample_kzg 4096) (Solution_new (replicate 32 255) (FarmerId (replicate 32 0))
     (PreCell_new (Row 0) (sample_segment 0)) (Cell_new (first_cell sample_piece) (sample_segment 0))
     (Cell_new (second_cell sample_piece) (sample_segment 1))) [] [] [] (replicate 32 255) (replicate 32 255) 0 1 = Inr True"
proof -
  let ?f = "FarmerId (replicate 32 0)"
  have x: "xor_byte_slices (replicate 32 0) (replicate 32 255) = replicate 32 255"
    by (simp add: xor_byte_slices_def Let_def numeral_eq_Suc)
  have pre: "check_pre_cell lucky_lib (sample_segment 0) ?f 0"
    by (simp add: check_pre_cell_def lucky_lib_def x validate_leading_zeros_def)
  have z: "ZValueManager_verify sample_lib lucky_lib 0 ?f (sample_segment 0) (sample_segment 1)
      \<lparr> cm_piece_metadata = m, cm_offset = 0 \<rparr> \<lparr> cm_piece_metadata = m, cm_offset = 1 \<rparr> = Inr True" for m
    by (simp add: ZValueManager_verify_def lucky_y lucky_z is_pair_iff)
  have "validate_win_cell sample_lib lucky_lib (Solution_new (replicate 32 255) ?f pc
      (Cell_new (first_cell sample_piece) (sample_segment 0)) (Cell_new (second_cell sample_piece) (sample_segment 1)))
      (replicate 32 255) (replicate 32 255) 1 0 = Inr True" for pc
    by (simp add: validate_win_cell_def Solution_new_def Cell_new_def Cell_piece_index_def z all_indices_valid [unfolded One_nat_def]
        sample_piece_def Piece_new_def PiecePosition_to_u32_def)
  then show ?thesis
    using pre sample_pre_cell_verifies sample_cell_verifies
    by (simp add: Solution_verify_def Let_def Solution_is_index_valid_def x get_challenge_def challenge_0 all_indices_valid [unfolded One_nat_def]
        PiecePosition_to_u32_def
        validate_win_cell_with_kzg_def and_then_def)
qed

lemma sample_claim_paid:
  "sample_claim (Signed 7) sample_fortune =
     (Inr (), sample_fortune\<lparr> ff_ClaimantsForBlock := (\<lambda>_. [])(5 := [7]), ff_currency := 1010, ff_events := [RewardClaimed 7 10] \<rparr>)"
proof -
  have id: "FarmerId_new lucky_lib (replicate 32 0) = FarmerId (replicate 32 0)"
    by (simp add: FarmerId_new_def list_all_iff)
  show ?thesis
    using sample_solution
    by (simp add: sample_claim_def claim_def sample_fortune_def Let_def query_commitment_def zero_commitments_def id
        PRE_CELL_LEADING_ZEROS_def)
qed

theorem rewards_bounded_witness:
  "let s1 = snd (dispatch (sample_claim (Signed 7)) sample_fortune);
       s = s1\<lparr> ff_provider := (), ff_currency := ff_currency s1 + 500, ff_block_number := 6, ff_block_hash := \<lambda>_. [] \<rparr>
   in ff_events s = payouts \<lparr> RewardAmount = 10, MaxClaimantsPerBlock = 3 \<rparr> (ff_ClaimantsForBlock s) 6 \<and>
      ff_ClaimantsForBlock s 5 = [7] \<and> distinct (ff_ClaimantsForBlock s 5) \<and> ff_currency s \<le> 1000 + 500 + 10 * (3 * 7)"
proof -
  let ?cfg = "\<lparr> RewardAmount = 10, MaxClaimantsPerBlock = 3 \<rparr>" and ?deposit = "\<lambda>(_ :: nat) amount b :: nat. b + amount"
  let ?step = "fortune_step sample_lib lucky_lib (sample_kzg 4096) (\<lambda>_. replicate 32 0) zero_commitments ?deposit id ?cfg"
  let ?s1 = "snd (dispatch (sample_claim (Signed 7)) sample_fortune)"
  let ?s2 = "?s1\<lparr> ff_provider := (), ff_currency := ff_currency ?s1 + 500 \<rparr>"
  let ?s3 = "?s2\<lparr> ff_block_number := 6, ff_block_hash := \<lambda>_. [] \<rparr>"
  have "?step (sample_fortune, 0) (?s1, 0)" unfolding sample_claim_def by (rule fortune_step.claim)
  moreover have "?step (?s1, 0) (?s2, 500)"
    using fortune_step.other [of sample_lib lucky_lib "sample_kzg 4096" "\<lambda>_. replicate 32 0" zero_commitments ?deposit id ?cfg ?s1 0
        "ff_currency ?s1 + 500" "()"] by simp
  moreover have "?step (?s2, 500) (?s3, 500)"
    by (rule fortune_step.block, simp add: dispatch_def sample_claim_paid) (simp add: sample_fortune_def)
  ultimately have "?step\<^sup>*\<^sup>* (sample_fortune, 0) (?s3, 500)" by (meson converse_rtranclp_into_rtranclp rtranclp.rtrancl_refl)
  moreover have "currency_documented ?deposit id" by (simp add: currency_documented_def)
  ultimately show ?thesis
    using rewards_bounded [of ?deposit id sample_lib lucky_lib "sample_kzg 4096" "\<lambda>_. replicate 32 0" zero_commitments ?cfg
        sample_fortune ?s3 500]
    by (simp add: Let_def dispatch_def sample_claim_paid) (simp add: sample_fortune_def)
qed

section \<open>What a paid claim has shown\<close>

text \<open>C11: A claim pays only for a verified solution, and a failed claim changes nothing. With the submissions' pallet as the provider,
  a claim either fails and leaves the state, the provider's cache included, as it was, or it is signed by an account that
  has not claimed in this block; its solution verifies against the hash of the previous block and the commitments
  the pallet stores for the three positions; exactly one reward is paid and recorded; and nothing the provider
  publishes has changed.\<close>

theorem paid_claim_verified:
  "case dispatch (claim L P kzg enc (commitments_from_position L kzg scfg) deposit cfg orig pre cl cr) s of
     (Inl e, s') \<Rightarrow> s' = s
   | (Inr u, s') \<Rightarrow>
       (\<exists>who pre_commit left_commit right_commit p1 p2 p3.
          orig = Signed who \<and> who \<notin> set (ff_ClaimantsForBlock s (ff_block_number s)) \<and>
          length (ff_ClaimantsForBlock s (ff_block_number s)) < MaxClaimantsPerBlock cfg \<and> ff_block_number s \<noteq> 0 \<and>
          commitments_from_position L kzg scfg (ff_block_number s - 1) (position (pre_seg pre)) (ff_provider s) = (Some pre_commit, p1) \<and>
          commitments_from_position L kzg scfg (CellMetadata_block_number (cell_metadata cl)) (position (cell_seg cl)) p1 = (Some left_commit, p2) \<and>
          commitments_from_position L kzg scfg (CellMetadata_block_number (cell_metadata cr)) (position (cell_seg cr)) p2 = (Some right_commit, p3) \<and>
          Solution_verify L P kzg (Solution_new (ff_block_hash s (ff_block_number s - 1)) (FarmerId_new P (enc who)) pre cl cr)
            pre_commit left_commit right_commit (ff_block_hash s (CellMetadata_block_number (cell_metadata cl)))
            (ff_block_hash s (CellMetadata_block_number (cell_metadata cr))) PRE_CELL_LEADING_ZEROS 1 = Inr True \<and>
          s' = rewarded deposit cfg who p3 s) \<and>
       st_Metadata (ff_provider s') = st_Metadata (ff_provider s) \<and> st_UnavailableVote (ff_provider s') = st_UnavailableVote (ff_provider s) \<and>
       st_Nonces (ff_provider s') = st_Nonces (ff_provider s) \<and> st_AppId (ff_provider s') = st_AppId (ff_provider s)"
proof -
  let ?claim = "claim L P kzg enc (commitments_from_position L kzg scfg) deposit cfg orig pre cl cr"
  obtain r s' where c: "?claim s = (r, s')" by (cases "?claim s")
  let ?view = "\<lambda>s. (st_block_number s, st_Metadata s, st_Keys s, st_AppId s, st_Nonces s, st_UnavailableVote s, st_events s)"
  have "?view (ff_provider (snd (?claim s))) = ?view (ff_provider s)" by (rule melo_store.view_claim)
  then have view: "st_Metadata (ff_provider s') = st_Metadata (ff_provider s) \<and> st_UnavailableVote (ff_provider s') = st_UnavailableVote (ff_provider s) \<and>
       st_Nonces (ff_provider s') = st_Nonces (ff_provider s) \<and> st_AppId (ff_provider s') = st_AppId (ff_provider s)"
    using c by simp
  show ?thesis
  proof (cases r)
    case (Inl e)
    then show ?thesis using c by (simp add: dispatch_def)
  next
    case (Inr u)
    with c have d: "dispatch ?claim s = (Inr (), s')" and p: "?claim s = (Inr (), s')" by (simp_all add: dispatch_def)
    from p show ?thesis unfolding d prod.case sum.case by (rule claim_success) (use view in blast)
  qed
qed

section \<open>Empty segments\<close>

lemma empty_segment_verify:
  "sd_data (content seg) = [] \<Longrightarrow> Segment_verify L seg kzg c n = Inl (Panic ''attempt to divide by zero'')"
  by (simp add: Segment_verify_def KZG_check_proof_multi_def get_kzg_index_def Segment_size_def wrap64_def)

text \<open>C40: An empty segment crashes the runtime. The check that would refuse a segment without data is never made on a claim, and the index
  of its proof divides by its length; so a signed claim that reaches the check of its first cell, which needs
  no valid proof, stored data or matching pair, only a commitment at each position and a set bit, panics when that
  cell's segment is empty instead of failing with an error.\<close>

theorem empty_segment_panics:
  assumes "\<And>m. length (blake2 P m) = 32"
    and "who \<notin> set (ff_ClaimantsForBlock s (ff_block_number s))"
    and "length (ff_ClaimantsForBlock s (ff_block_number s)) < MaxClaimantsPerBlock cfg" and "ff_block_number s \<noteq> 0"
    and "commitments (ff_block_number s - 1) (position (pre_seg pre)) (ff_provider s) = (Some c1, p1)"
    and "commitments (CellMetadata_block_number (cell_metadata cl)) (position (cell_seg cl)) p1 = (Some c2, p2)"
    and "commitments (CellMetadata_block_number (cell_metadata cr)) (position (cell_seg cr)) p2 = (Some c3, p3)"
    and "Solution_is_index_valid (FarmerId_new P (enc who)) (ff_block_hash s (ff_block_number s - 1)) (unat (PreCell_piece_index pre)) 32 1"
    and "sd_data (content (pre_seg pre)) = []"
  shows "fst (claim L P kzg enc commitments deposit cfg (Signed who) pre cl cr s) = Inl (Panicked (Panic ''attempt to divide by zero''))"
proof -
  have "length (farmer_hash (FarmerId_new P (enc who))) = 32" using assms(1) by (simp add: FarmerId_new_def)
  then have "check_pre_cell P (pre_seg pre) (FarmerId_new P (enc who)) 0"
    using assms(1) length_xor_byte_slices [of "farmer_hash (FarmerId_new P (enc who))" "blake2 P (enc_segment P (pre_seg pre))"]
    by (auto simp: check_pre_cell_def validate_leading_zeros_def)
  then have "Solution_verify L P kzg (Solution_new (ff_block_hash s (ff_block_number s - 1)) (FarmerId_new P (enc who)) pre cl cr)
      c1 c2 c3 lh rh 0 1 = Inl (Panic ''attempt to divide by zero'')" for lh rh
    using assms(8)
    by (simp add: empty_segment_verify [OF assms(9)] Solution_verify_def PreCell_verify_kzg_proof_def unwrap_or_false_def and_then_def)
  then show ?thesis
    using assms(2-7) by (simp add: claim_def Let_def query_commitment_def PRE_CELL_LEADING_ZEROS_def)
qed

theorem empty_segment_panics_witness:
  "fst (claim sample_lib lucky_lib (sample_kzg 4096) (\<lambda>_. [1]) zero_commitments (\<lambda>_ amount b. b + amount)
     \<lparr> RewardAmount = 10, MaxClaimantsPerBlock = 3 \<rparr> (Signed 7)
     (PreCell_new (Row 0) \<lparr> position = \<lparr> pos_x = 0, pos_y = 0 \<rparr>, content = \<lparr> sd_data = [], sd_proof = [] \<rparr> \<rparr>)
     (Cell_new (first_cell sample_piece) (sample_segment 0)) (Cell_new (second_cell sample_piece) (sample_segment 1))
     (sample_fortune\<lparr> ff_block_hash := \<lambda>_. replicate 32 0 \<rparr>)) = Inl (Panicked (Panic ''attempt to divide by zero''))"
proof (rule empty_segment_panics)
  have "FarmerId_new lucky_lib [1] = FarmerId (replicate 32 255)" by (simp add: FarmerId_new_def lucky_lib_def)
  moreover have "xor_byte_slices (replicate 32 255) (replicate 32 0) = replicate 32 255"
    by (simp add: xor_byte_slices_def Let_def numeral_eq_Suc)
  ultimately show "Solution_is_index_valid (FarmerId_new lucky_lib [1])
      (ff_block_hash (sample_fortune\<lparr> ff_block_hash := \<lambda>_. replicate 32 0 \<rparr>) (ff_block_number (sample_fortune\<lparr> ff_block_hash := \<lambda>_. replicate 32 0 \<rparr>) - 1))
      (unat (PreCell_piece_index (PreCell_new (Row 0) \<lparr> position = \<lparr> pos_x = 0, pos_y = 0 \<rparr>, content = \<lparr> sd_data = [], sd_proof = [] \<rparr> \<rparr>))) 32 1"
    by (simp add: Solution_is_index_valid_def PiecePosition_to_u32_def all_indices_valid [unfolded One_nat_def])
qed (simp_all add: lucky_lib_def sample_fortune_def zero_commitments_def PreCell_new_def)

end
