(* ===== verification/Executive.thy ===== *)
theory Executive
  imports Header_Ext
begin

text \<open>
  The executive of \<open>frame-executive-ext\<close>: how a block is authored, imported and checked around the hooks of the pallets.
  The system pallet, the pallets' hooks and the extrinsics are the fields of a record of operations on the
  state of the chain; a panic of the source is a failure of the model.
\<close>

section \<open>What the executive is given\<close>

datatype DispatchClass = Normal | Operational | Mandatory

datatype TransactionSource = InBlock | Local | External

datatype TryStateSelect = SelectNone | SelectAll | SelectRoundRobin u32 | SelectOnly "bytes list"

record ('s, 'x, 'k, 'h, 'd, 'w, 'v, 'i, 'e, 't, 'g1) runtime =
  reset_events :: "'s \<Rightarrow> 's"
  last_runtime_upgrade :: "'s \<Rightarrow> 'v option"
  put_last_runtime_upgrade :: "'v \<Rightarrow> 's \<Rightarrow> 's"
  was_upgraded :: "'v \<Rightarrow> 'v \<Rightarrow> bool"
  current_version :: 'v
  custom_on_runtime_upgrade :: "'s \<Rightarrow> 'w \<times> 's"
  pallets_on_runtime_upgrade :: "'s \<Rightarrow> 'w \<times> 's"
  sys_initialize :: "u32 \<Rightarrow> 'h \<Rightarrow> 'd list \<Rightarrow> 's \<Rightarrow> 's"
  on_initialize :: "u32 \<Rightarrow> 's \<Rightarrow> 'w \<times> 's"
  weight_zero :: 'w
  saturating_add :: "'w \<Rightarrow> 'w \<Rightarrow> 'w"
  saturating_sub :: "'w \<Rightarrow> 'w \<Rightarrow> 'w"
  all_gt :: "'w \<Rightarrow> 'w \<Rightarrow> bool"
  base_block :: 'w
  max_block :: 'w
  block_weight_total :: "'s \<Rightarrow> 'w"
  register_extra_weight_unchecked :: "'w \<Rightarrow> DispatchClass \<Rightarrow> 's \<Rightarrow> 's"
  note_finished_initialize :: "'s \<Rightarrow> 's"
  note_finished_extrinsics :: "'s \<Rightarrow> 's"
  block_hash :: "'s \<Rightarrow> u32 \<Rightarrow> 'h"
  insert_block_hash :: "u32 \<Rightarrow> 'h \<Rightarrow> 's \<Rightarrow> 's"
  block_number :: "'s \<Rightarrow> u32"
  ensure_inherents_are_first :: "('h, 'd list) Header \<times> 'x list \<Rightarrow> nat + unit"
  on_idle :: "u32 \<Rightarrow> 'w \<Rightarrow> 's \<Rightarrow> 'w \<times> 's"
  pallets_on_finalize :: "u32 \<Rightarrow> 's \<Rightarrow> 's"
  xt_encode :: "'x \<Rightarrow> bytes"
  xt_check :: "'x \<Rightarrow> 's \<Rightarrow> 't + 'k"
  xt_unchecked :: "'x \<Rightarrow> 's \<Rightarrow> 't + 'k"
  note_extrinsic :: "bytes \<Rightarrow> 's \<Rightarrow> 's"
  get_dispatch_info :: "'k \<Rightarrow> 'i"
  dispatch_class :: "'i \<Rightarrow> DispatchClass"
  xt_apply :: "'k \<Rightarrow> 'i \<Rightarrow> nat \<Rightarrow> 's \<Rightarrow> (('t + ('e + unit)) \<times> 's) res"
  xt_validate :: "TransactionSource \<Rightarrow> 'k \<Rightarrow> 'i \<Rightarrow> nat \<Rightarrow> 's \<Rightarrow> 't + unit"
  note_applied_extrinsic :: "'e + unit \<Rightarrow> 'i \<Rightarrow> 's \<Rightarrow> 's"
  bad_mandatory :: 't
  mandatory_validation :: 't
  validity_error_str :: "'t \<Rightarrow> string"
  sys_finalize :: "'s \<Rightarrow> ('h, 'd list) Header \<times> 's"
  runtime_commit_list_last :: "'s \<Rightarrow> 'g1 list \<times> AppLookup list"
  is_pre_runtime :: "'d \<Rightarrow> bool"
  header_hash :: "('h, 'd list) Header \<Rightarrow> 'h"
  pallets_offchain_worker :: "u32 \<Rightarrow> 's \<Rightarrow> 's"
  try_state :: "u32 \<Rightarrow> TryStateSelect \<Rightarrow> 's \<Rightarrow> string + unit"
  try_on_runtime_upgrade :: "bool \<Rightarrow> 's \<Rightarrow> (string + 'w) \<times> 's"

section \<open>Starting a block\<close>

definition execute_on_runtime_upgrade ::
  "('s, 'x, 'k, 'h, 'd, 'w, 'v, 'i, 'e, 't, 'g1) runtime \<Rightarrow> 's \<Rightarrow> 'w \<times> 's" where
  "execute_on_runtime_upgrade R s =
     (let (w1, s1) = custom_on_runtime_upgrade R s; (w2, s2) = pallets_on_runtime_upgrade R s1
      in (saturating_add R w1 w2, s2))"

definition extract_pre_digest ::
  "('s, 'x, 'k, 'h, 'd, 'w, 'v, 'i, 'e, 't, 'g1) runtime \<Rightarrow> ('h, 'd list) Header \<Rightarrow> 'd list" where
  "extract_pre_digest R header = filter (is_pre_runtime R) (hdr_digest header)"

definition runtime_upgraded ::
  "('s, 'x, 'k, 'h, 'd, 'w, 'v, 'i, 'e, 't, 'g1) runtime \<Rightarrow> 's \<Rightarrow> bool \<times> 's" where
  "runtime_upgraded R s =
     (if (case last_runtime_upgrade R s of None \<Rightarrow> True | Some v \<Rightarrow> was_upgraded R v (current_version R))
      then (True, put_last_runtime_upgrade R (current_version R) s) else (False, s))"

definition initialize_block_impl ::
  "('s, 'x, 'k, 'h, 'd, 'w, 'v, 'i, 'e, 't, 'g1) runtime \<Rightarrow> u32 \<Rightarrow> 'h \<Rightarrow> 'd list \<Rightarrow> 's \<Rightarrow> 's" where
  "initialize_block_impl R n parent_hash digest s =
     (let s1 = reset_events R s;
          (upgraded, s2) = runtime_upgraded R s1;
          (weight, s3) = (if upgraded
             then (let (w, s') = execute_on_runtime_upgrade R s2 in (saturating_add R (weight_zero R) w, s'))
             else (weight_zero R, s2));
          s4 = sys_initialize R n parent_hash digest s3;
          (w, s5) = on_initialize R n s4;
          weight = saturating_add R weight w;
          weight = saturating_add R weight (base_block R);
          s6 = register_extra_weight_unchecked R weight Mandatory s5
      in note_finished_initialize R s6)"

definition initialize_block ::
  "('s, 'x, 'k, 'h, 'd, 'w, 'v, 'i, 'e, 't, 'g1) runtime \<Rightarrow> ('h, 'd list) Header \<Rightarrow> 's \<Rightarrow> 's" where
  "initialize_block R header s =
     (let digests = extract_pre_digest R header
      in initialize_block_impl R (hdr_number header) (hdr_parent_hash header) digests s)"

definition initial_checks ::
  "('s, 'x, 'k, 'h, 'd, 'w, 'v, 'i, 'e, 't, 'g1) runtime \<Rightarrow> ('h, 'd list) Header \<times> 'x list \<Rightarrow> 's \<Rightarrow> unit res" where
  "initial_checks R block s =
     (let header = fst block; n = hdr_number header in
      if \<not> (n > 0 \<and> block_hash R s (n - 1) = hdr_parent_hash header) then Inl (Panic ''Parent hash should be valid.'')
      else case ensure_inherents_are_first R block of
             Inl _ \<Rightarrow> Inl (Panic ''Invalid inherent position for extrinsic at index'')
           | Inr _ \<Rightarrow> Inr ())"

section \<open>Extrinsics\<close>

definition apply_extrinsic ::
  "('s, 'x, 'k, 'h, 'd, 'w, 'v, 'i, 'e, 't, 'g1) runtime \<Rightarrow> 'x \<Rightarrow> 's \<Rightarrow> (('t + ('e + unit)) \<times> 's) res" where
  "apply_extrinsic R uxt s =
     (let encoded = xt_encode R uxt; encoded_len = length encoded in
      case xt_check R uxt s of
        Inl t \<Rightarrow> Inr (Inl t, s)
      | Inr xt \<Rightarrow>
          let s1 = note_extrinsic R encoded s; dispatch_info = get_dispatch_info R xt in
          case xt_apply R xt dispatch_info encoded_len s1 of
            Inl f \<Rightarrow> Inl f
          | Inr (Inl t, s2) \<Rightarrow> Inr (Inl t, s2)
          | Inr (Inr r, s2) \<Rightarrow>
              if \<not> isl r \<or> dispatch_class R dispatch_info \<noteq> Mandatory
              then Inr (Inr r, note_applied_extrinsic R r dispatch_info s2)
              else Inr (Inl (bad_mandatory R), s2))"

fun apply_extrinsics ::
  "('s, 'x, 'k, 'h, 'd, 'w, 'v, 'i, 'e, 't, 'g1) runtime \<Rightarrow> 'x list \<Rightarrow> 's \<Rightarrow> 's res" where
  "apply_extrinsics R [] s = Inr s"
| "apply_extrinsics R (x # xs) s =
     (case apply_extrinsic R x s of
        Inl f \<Rightarrow> Inl f
      | Inr (Inl t, _) \<Rightarrow> Inl (Panic (validity_error_str R t))
      | Inr (Inr _, s') \<Rightarrow> apply_extrinsics R xs s')"

definition validate_transaction ::
  "('s, 'x, 'k, 'h, 'd, 'w, 'v, 'i, 'e, 't, 'g1) runtime \<Rightarrow> TransactionSource \<Rightarrow> 'x \<Rightarrow> 'h \<Rightarrow> 's
    \<Rightarrow> ('t + unit) \<times> 's" where
  "validate_transaction R source uxt parent s =
     (let s1 = sys_initialize R (block_number R s + 1) parent [] s; encoded_len = length (xt_encode R uxt) in
      case xt_check R uxt s1 of
        Inl t \<Rightarrow> (Inl t, s1)
      | Inr xt \<Rightarrow>
          let dispatch_info = get_dispatch_info R xt in
          if dispatch_class R dispatch_info = Mandatory then (Inl (mandatory_validation R), s1)
          else (xt_validate R source xt dispatch_info encoded_len s1, s1))"

section \<open>Ending a block\<close>

definition idle_and_finalize_hook ::
  "('s, 'x, 'k, 'h, 'd, 'w, 'v, 'i, 'e, 't, 'g1) runtime \<Rightarrow> u32 \<Rightarrow> 's \<Rightarrow> 's" where
  "idle_and_finalize_hook R n s =
     (let remaining_weight = saturating_sub R (max_block R) (block_weight_total R s);
          s1 = (if all_gt R remaining_weight (weight_zero R)
                then (let (used_weight, s') = on_idle R n remaining_weight s
                      in register_extra_weight_unchecked R used_weight Mandatory s')
                else s)
      in pallets_on_finalize R n s1)"

definition ext_finalize ::
  "('fr, 'g1, 'g2, 'fs, 'fk) kzg_lib \<Rightarrow> ('s, 'x, 'k, 'h, 'd, 'w, 'v, 'i, 'e, 't, 'g1) runtime \<Rightarrow> 's
    \<Rightarrow> ('h, 'd list) Header \<times> 's" where
  "ext_finalize L R s =
     (let (header, s') = sys_finalize R s in (SystemExt_finalize L header (runtime_commit_list_last R s'), s'))"

definition finalize_block ::
  "('fr, 'g1, 'g2, 'fs, 'fk) kzg_lib \<Rightarrow> ('s, 'x, 'k, 'h, 'd, 'w, 'v, 'i, 'e, 't, 'g1) runtime \<Rightarrow> 's
    \<Rightarrow> ('h, 'd list) Header \<times> 's" where
  "finalize_block L R s =
     (let s1 = note_finished_extrinsics R s; n = block_number R s1
      in ext_finalize L R (idle_and_finalize_hook R n s1))"

definition execute_extrinsics_with_book_keeping ::
  "('s, 'x, 'k, 'h, 'd, 'w, 'v, 'i, 'e, 't, 'g1) runtime \<Rightarrow> 'x list \<Rightarrow> u32 \<Rightarrow> 's \<Rightarrow> 's res" where
  "execute_extrinsics_with_book_keeping R extrinsics n s =
     res_map (\<lambda>s1. idle_and_finalize_hook R n (note_finished_extrinsics R s1)) (apply_extrinsics R extrinsics s)"

definition final_checks ::
  "('fr, 'g1, 'g2, 'fs, 'fk) kzg_lib \<Rightarrow> ('s, 'x, 'k, 'h, 'd, 'w, 'v, 'i, 'e, 't, 'g1) runtime \<Rightarrow> ('h, 'd list) Header \<Rightarrow> 's
    \<Rightarrow> 's res" where
  "final_checks L R header s =
     (let (new_header, s') = ext_finalize L R s in
      if length (hdr_digest header) \<noteq> length (hdr_digest new_header)
      then Inl (Panic ''Number of digest items must match that calculated.'')
      else if \<not> list_all (\<lambda>(header_item, computed_item). header_item = computed_item) (zip (hdr_digest header) (hdr_digest new_header))
      then Inl (Panic ''Digest item must match that calculated.'')
      else if hdr_state_root header \<noteq> hdr_state_root new_header then Inl (Panic ''Storage root must match that calculated.'')
      else if hdr_extrinsics_root header \<noteq> hdr_extrinsics_root new_header then Inl (Panic ''Transaction trie root must be valid.'')
      else Inr s')"

definition execute_block ::
  "('fr, 'g1, 'g2, 'fs, 'fk) kzg_lib \<Rightarrow> ('s, 'x, 'k, 'h, 'd, 'w, 'v, 'i, 'e, 't, 'g1) runtime \<Rightarrow> ('h, 'd list) Header \<times> 'x list
    \<Rightarrow> 's \<Rightarrow> 's res" where
  "execute_block L R block s =
     (let s1 = initialize_block R (fst block) s in
      res_bind (initial_checks R block s1) (\<lambda>_.
      let (header, extrinsics) = block in
      res_bind (execute_extrinsics_with_book_keeping R extrinsics (hdr_number header) s1) (\<lambda>s2.
      final_checks L R header s2)))"

definition executive_offchain_worker ::
  "('s, 'x, 'k, 'h, 'd, 'w, 'v, 'i, 'e, 't, 'g1) runtime \<Rightarrow> ('h, 'd list) Header \<Rightarrow> 's \<Rightarrow> 's" where
  "executive_offchain_worker R header s =
     (let s1 = sys_initialize R (hdr_number header) (hdr_parent_hash header) (hdr_digest header) s;
          s2 = insert_block_hash R (hdr_number header) (header_hash R header) s1
      in pallets_offchain_worker R (hdr_number header) s2)"

section \<open>Trial runs\<close>

definition try_apply_extrinsic ::
  "('s, 'x, 'k, 'h, 'd, 'w, 'v, 'i, 'e, 't, 'g1) runtime \<Rightarrow> bool \<Rightarrow> 'x \<Rightarrow> 's \<Rightarrow> (('t + ('e + unit)) \<times> 's) res" where
  "try_apply_extrinsic R signature_check uxt s =
     (let encoded = xt_encode R uxt; encoded_len = length encoded in
      case (if signature_check then xt_check R uxt s else xt_unchecked R uxt s) of
        Inl t \<Rightarrow> Inr (Inl t, s)
      | Inr xt \<Rightarrow>
          let s1 = note_extrinsic R encoded s; dispatch_info = get_dispatch_info R xt in
          case xt_apply R xt dispatch_info encoded_len s1 of
            Inl f \<Rightarrow> Inl f
          | Inr (Inl t, s2) \<Rightarrow> Inr (Inl t, s2)
          | Inr (Inr r, s2) \<Rightarrow> Inr (Inr r, note_applied_extrinsic R r dispatch_info s2))"

fun try_apply_extrinsics ::
  "('s, 'x, 'k, 'h, 'd, 'w, 'v, 'i, 'e, 't, 'g1) runtime \<Rightarrow> bool \<Rightarrow> 'x list \<Rightarrow> 's \<Rightarrow> 's res" where
  "try_apply_extrinsics R signature_check [] s = Inr s"
| "try_apply_extrinsics R signature_check (x # xs) s =
     (case try_apply_extrinsic R signature_check x s of
        Inl f \<Rightarrow> Inl f
      | Inr (Inl t, s') \<Rightarrow> Inr s'
      | Inr (Inr _, s') \<Rightarrow> try_apply_extrinsics R signature_check xs s')"

definition try_execute_block ::
  "('fr, 'g1, 'g2, 'fs, 'fk) kzg_lib \<Rightarrow> ('s, 'x, 'k, 'h, 'd, 'w, 'v, 'i, 'e, 't, 'g1) runtime \<Rightarrow> ('h, 'd list) Header \<times> 'x list
    \<Rightarrow> bool \<Rightarrow> bool \<Rightarrow> TryStateSelect \<Rightarrow> 's \<Rightarrow> ('w \<times> 's) res" where
  "try_execute_block L R block state_root_check signature_check select s =
     (let s1 = initialize_block R (fst block) s in
      res_bind (initial_checks R block s1) (\<lambda>_.
      let (header, extrinsics) = block in
      res_bind (try_apply_extrinsics R signature_check extrinsics s1) (\<lambda>s2.
      let s3 = idle_and_finalize_hook R (hdr_number header) (note_finished_extrinsics R s2) in
      case try_state R (hdr_number header) select s3 of
        Inl e \<Rightarrow> Inl (Err e)
      | Inr _ \<Rightarrow>
          let (new_header, s4) = ext_finalize L R s3 in
          if \<not> list_all (\<lambda>(header_item, computed_item). header_item = computed_item) (zip (hdr_digest header) (hdr_digest new_header))
          then Inl (Panic ''Digest item must match that calculated.'')
          else if state_root_check \<and> hdr_state_root header \<noteq> hdr_state_root new_header
          then Inl (Panic ''Storage root must match that calculated.'')
          else if hdr_extrinsics_root header \<noteq> hdr_extrinsics_root new_header then Inl (Panic ''Transaction trie root must be valid.'')
          else Inr (block_weight_total R s4, s4))))"

definition try_runtime_upgrade ::
  "('s, 'x, 'k, 'h, 'd, 'w, 'v, 'i, 'e, 't, 'g1) runtime \<Rightarrow> bool \<Rightarrow> bool \<Rightarrow> 's \<Rightarrow> ('w \<times> 's) res" where
  "try_runtime_upgrade R checks_try_state checks_pre_and_post s =
     (case (if checks_try_state then try_state R (block_number R s) SelectAll s else Inr ()) of
        Inl e \<Rightarrow> Inl (Err e)
      | Inr _ \<Rightarrow>
          (case try_on_runtime_upgrade R checks_pre_and_post s of
             (Inl e, _) \<Rightarrow> Inl (Err e)
           | (Inr weight, s1) \<Rightarrow>
               (case (if checks_try_state then try_state R (block_number R s1) SelectAll s1 else Inr ()) of
                  Inl e \<Rightarrow> Inl (Err e)
                | Inr _ \<Rightarrow> Inr (weight, s1))))"

section \<open>Authoring and importing\<close>

text \<open>
  What the system pallet documents of a block under construction: \<open>info\<close>, the number, the parent and the pre-runtime digest,
  is what \<open>initialize\<close> was given, no hook or extrinsic changes it, the header is finalised with it, and the
  hash of the parent is stored.
\<close>

definition keeps :: "('s \<Rightarrow> 'a) \<Rightarrow> ('s \<Rightarrow> 's) \<Rightarrow> bool" where
  "keeps view f \<longleftrightarrow> (\<forall>s. view (f s) = view s)"

definition initialize_documented ::
  "('s, 'x, 'k, 'h, 'd, 'w, 'v, 'i, 'e, 't, 'g1) runtime \<Rightarrow> ('s \<Rightarrow> u32 \<times> 'h \<times> 'd list) \<Rightarrow> bool" where
  "initialize_documented R info \<longleftrightarrow>
     (\<forall>n p d s. (list_all (is_pre_runtime R) d \<longrightarrow> info (sys_initialize R n p d s) = (n, p, d)) \<and> (0 < n \<longrightarrow> block_hash R (sys_initialize R n p d s) (n - 1) = p)) \<and>
     (\<forall>n. keeps info (\<lambda>s. snd (on_initialize R n s)) \<and> keeps (block_hash R) (\<lambda>s. snd (on_initialize R n s))) \<and>
     (\<forall>w c. keeps info (register_extra_weight_unchecked R w c) \<and> keeps (block_hash R) (register_extra_weight_unchecked R w c)) \<and>
     keeps info (note_finished_initialize R) \<and> keeps (block_hash R) (note_finished_initialize R)"

definition frame_system_documented ::
  "('s, 'x, 'k, 'h, 'd, 'w, 'v, 'i, 'e, 't, 'g1) runtime \<Rightarrow> ('s \<Rightarrow> u32 \<times> 'h \<times> 'd list) \<Rightarrow> bool" where
  "frame_system_documented R info \<longleftrightarrow>
     initialize_documented R info \<and>
     (\<forall>x. keeps info (note_extrinsic R x)) \<and> (\<forall>r i. keeps info (note_applied_extrinsic R r i)) \<and>
     (\<forall>xt i l s o' s'. xt_apply R xt i l s = Inr (o', s') \<longrightarrow> info s' = info s) \<and>
     keeps info (note_finished_extrinsics R) \<and> (\<forall>n w. keeps info (\<lambda>s. snd (on_idle R n w s))) \<and>
     (\<forall>n. keeps info (pallets_on_finalize R n)) \<and> (\<forall>s. block_number R s = fst (info s)) \<and>
     (\<forall>s. let h = fst (sys_finalize R s) in info s = (hdr_number h, hdr_parent_hash h, filter (is_pre_runtime R) (hdr_digest h)))"

lemma keepsD: "keeps view f \<Longrightarrow> view (f s) = view s"
  by (simp add: keeps_def)

lemma initialize_block_documented:
  assumes "initialize_documented R info"
  shows "info (initialize_block R H s) = (hdr_number H, hdr_parent_hash H, extract_pre_digest R H)"
    and "0 < hdr_number H \<Longrightarrow> block_hash R (initialize_block R H s) (hdr_number H - 1) = hdr_parent_hash H"
  using assms
  by (auto simp: initialize_documented_def initialize_block_def initialize_block_impl_def extract_pre_digest_def list_all_iff
      Let_def keeps_def case_prod_beta)

lemma info_apply_extrinsic:
  "frame_system_documented R info \<Longrightarrow> apply_extrinsic R x s = Inr (r, s') \<Longrightarrow> info s' = info s"
  by (auto simp: frame_system_documented_def apply_extrinsic_def Let_def keeps_def split: sum.splits if_splits)

lemma info_apply_extrinsics:
  "frame_system_documented R info \<Longrightarrow> apply_extrinsics R xs s = Inr s' \<Longrightarrow> info s' = info s"
  by (induction xs arbitrary: s) (auto split: sum.splits prod.splits dest: info_apply_extrinsic)

lemma info_idle_and_finalize_hook:
  "frame_system_documented R info \<Longrightarrow> info (idle_and_finalize_hook R n s) = info s"
  by (auto simp: frame_system_documented_def initialize_documented_def idle_and_finalize_hook_def Let_def keeps_def
      case_prod_beta)

lemma ext_finalize_fields:
  "ext_finalize L R s = (H, s') \<Longrightarrow> frame_system_documented R info \<Longrightarrow>
     info s = (hdr_number H, hdr_parent_hash H, extract_pre_digest R H)"
  by (auto simp: ext_finalize_def frame_system_documented_def extract_pre_digest_def SystemExt_finalize_def Header_new_ext_def
      Header_set_extension_def Let_def split: prod.splits)

lemma final_checks_own_header: "ext_finalize L R s = (H, s') \<Longrightarrow> final_checks L R H s = Inr s'"
  by (auto simp: final_checks_def list_all_iff set_zip)

text \<open>C9: An authored block is imported exactly when it is not the genesis and its inherents come first. When a block is initialised with a header,
  all its extrinsics are applied and it is finalised, the executive takes the finalised header with these extrinsics on the same
  parent state and ends in the very state the author ended in; of all the checks of the import only two can fail on
  such a block, each with its panic: that its number is above 0, and the position of the inherents, which the author's side of the executive
  does not check.\<close>

theorem authored_block_imports:
  assumes "frame_system_documented R info"
    and "apply_extrinsics R xs (initialize_block R H0 s) = Inr s2" and "finalize_block L R s2 = (H, s3)"
  shows "execute_block L R (H, xs) s =
     (if hdr_number H0 = 0 then Inl (Panic ''Parent hash should be valid.'')
      else case ensure_inherents_are_first R (H, xs) of
             Inl _ \<Rightarrow> Inl (Panic ''Invalid inherent position for extrinsic at index'')
           | Inr _ \<Rightarrow> Inr s3)"
proof -
  let ?s1 = "initialize_block R H0 s" and ?s2' = "note_finished_extrinsics R s2"
  have init: "initialize_documented R info" using assms(1) by (simp add: frame_system_documented_def)
  have i2: "info ?s2' = info s2" and n: "block_number R ?s2' = fst (info ?s2')"
    using assms(1) by (auto simp: frame_system_documented_def keeps_def)
  have info2: "info ?s2' = (hdr_number H0, hdr_parent_hash H0, extract_pre_digest R H0)"
    using i2 info_apply_extrinsics [OF assms(1,2)] initialize_block_documented(1) [OF init] by simp
  let ?s4 = "idle_and_finalize_hook R (hdr_number H0) ?s2'"
  have fin: "ext_finalize L R ?s4 = (H, s3)" using assms(3) n info2 by (simp add: finalize_block_def)
  have "info ?s4 = (hdr_number H, hdr_parent_hash H, extract_pre_digest R H)"
    by (rule ext_finalize_fields [OF fin assms(1)])
  then have same: "hdr_number H = hdr_number H0" "hdr_parent_hash H = hdr_parent_hash H0" "extract_pre_digest R H = extract_pre_digest R H0"
    using info_idle_and_finalize_hook [OF assms(1)] info2 by simp_all
  then have start: "initialize_block R H s = ?s1" by (simp add: initialize_block_def)
  have "initial_checks R (H, xs) ?s1 =
      (if hdr_number H0 = 0 then Inl (Panic ''Parent hash should be valid.'')
       else case ensure_inherents_are_first R (H, xs) of
              Inl _ \<Rightarrow> Inl (Panic ''Invalid inherent position for extrinsic at index'') | Inr _ \<Rightarrow> Inr ())"
    using initialize_block_documented(2) [OF init, of H0 s] same by (simp add: initial_checks_def word_gt_0)
  moreover have "execute_extrinsics_with_book_keeping R xs (hdr_number H) ?s1 = Inr ?s4"
    using assms(2) same by (simp add: execute_extrinsics_with_book_keeping_def)
  ultimately show ?thesis
    using start final_checks_own_header [OF fin] by (simp add: execute_block_def split: sum.split)
qed

text \<open>A runtime: its state is the header's information, the block hashes and a value, an extrinsic changes the value, and the state root
  is a number computed from the value.\<close>

definition demo_runtime ::
  "(nat \<Rightarrow> 'p \<Rightarrow> 'p) \<Rightarrow> ('p \<Rightarrow> nat) \<Rightarrow> ('p \<Rightarrow> 'g1 list \<times> AppLookup list)
    \<Rightarrow> ((u32 \<times> nat \<times> nat list) \<times> (u32 \<Rightarrow> nat) \<times> 'p, nat, nat, nat, nat, nat, nat, unit, unit, unit, 'g1) runtime" where
  "demo_runtime change root commits =
     \<lparr> reset_events = id, last_runtime_upgrade = \<lambda>_. Some 0, put_last_runtime_upgrade = \<lambda>_ s. s, was_upgraded = \<lambda>_ _. False,
       current_version = 0, custom_on_runtime_upgrade = \<lambda>s. (0, s), pallets_on_runtime_upgrade = \<lambda>s. (0, s),
       sys_initialize = \<lambda>n p d s. ((n, p, d), (fst (snd s))(n - 1 := p), snd (snd s)),
       on_initialize = \<lambda>_ s. (1, s), weight_zero = 0, saturating_add = (+), saturating_sub = (-), all_gt = (>),
       base_block = 1, max_block = 100, block_weight_total = \<lambda>_. 2, register_extra_weight_unchecked = \<lambda>_ _ s. s,
       note_finished_initialize = id, note_finished_extrinsics = id, block_hash = \<lambda>s. fst (snd s),
       insert_block_hash = \<lambda>n h s. (fst s, (fst (snd s))(n := h), snd (snd s)), block_number = \<lambda>s. fst (fst s),
       ensure_inherents_are_first = \<lambda>_. Inr (), on_idle = \<lambda>_ _ s. (0, s), pallets_on_finalize = \<lambda>_ s. s,
       xt_encode = \<lambda>_. [], xt_check = \<lambda>x _. Inr x, xt_unchecked = \<lambda>x _. Inr x, note_extrinsic = \<lambda>_ s. s,
       get_dispatch_info = \<lambda>_. (), dispatch_class = \<lambda>_. Normal,
       xt_apply = \<lambda>x _ _ s. Inr (Inr (Inr ()), (fst s, fst (snd s), change x (snd (snd s)))),
       xt_validate = \<lambda>_ _ _ _ _. Inr (), note_applied_extrinsic = \<lambda>_ _ s. s, bad_mandatory = (), mandatory_validation = (),
       validity_error_str = \<lambda>_. [],
       sys_finalize = \<lambda>s. (Header_new (fst (fst s)) 7 (root (snd (snd s))) (fst (snd (fst s)))
          (snd (snd (fst s)) @ [99]), s),
       runtime_commit_list_last = \<lambda>s. commits (snd (snd s)), is_pre_runtime = \<lambda>d. d < 10, header_hash = hdr_state_root,
       pallets_offchain_worker = \<lambda>_ s. s, try_state = \<lambda>_ _ _. Inr (), try_on_runtime_upgrade = \<lambda>_ s. (Inr 0, s) \<rparr>"

definition demo_info :: "(u32 \<times> nat \<times> nat list) \<times> 'q \<Rightarrow> u32 \<times> nat \<times> nat list" where
  "demo_info s = (fst (fst s), fst (snd (fst s)), filter (\<lambda>d. d < 10) (snd (snd (fst s))))"

lemma demo_documented: "frame_system_documented (demo_runtime change root commits) demo_info"
  by (simp add: frame_system_documented_def initialize_documented_def demo_runtime_def demo_info_def keeps_def Header_new_def
      list_all_iff)

lemma demo_start:
  "initialize_block (demo_runtime change root commits) (Header_new n 0 0 p d) s =
     ((n, p, filter (\<lambda>d. d < 10) d), (fst (snd s))(n - 1 := p), snd (snd s))"
  by (simp add: initialize_block_def initialize_block_impl_def runtime_upgraded_def demo_runtime_def Header_new_def
      extract_pre_digest_def)

lemma demo_extrinsics:
  "apply_extrinsics (demo_runtime change root commits) xs s = Inr (fst s, fst (snd s), fold change xs (snd (snd s)))"
  by (induction xs arbitrary: s) (simp_all add: apply_extrinsic_def demo_runtime_def)

lemma demo_finalize:
  "finalize_block L (demo_runtime change root commits) ((n, p, d), hs, v) =
     (SystemExt_finalize L (Header_new n 7 (root v) p (d @ [99])) (commits v), (n, p, d), hs, v)"
  by (simp add: finalize_block_def idle_and_finalize_hook_def ext_finalize_def demo_runtime_def)

theorem authored_block_imports_witness:
  "let R = demo_runtime (+) id (\<lambda>v. ([], [])); s = ((4, 3, []), \<lambda>_. 0, 20);
       H = SystemExt_finalize sample_lib (Header_new 5 7 25 8 [1, 99]) ([], [])
   in execute_block sample_lib R (H, [2, 3]) s = Inr ((5, 8, [1]), (\<lambda>_. 0)(4 := 8), 25)"
proof -
  let ?R = "demo_runtime (+) id (\<lambda>v. ([] :: bytes list list, []))" and ?H0 = "Header_new 5 0 0 8 [1 :: nat]"
  let ?s = "((4 :: u32, 3 :: nat, [] :: nat list), \<lambda>_ :: u32. 0 :: nat, 20 :: nat)"
  have "apply_extrinsics ?R [2, 3] (initialize_block ?R ?H0 ?s) = Inr ((5, 8, [1]), (\<lambda>_. 0)(4 := 8), 25)"
    unfolding demo_extrinsics demo_start by simp
  from authored_block_imports [OF demo_documented this, of sample_lib] show ?thesis
    by (simp add: Let_def demo_finalize) (simp add: Header_new_def demo_runtime_def)
qed

text \<open>C36: The extension of a header is never checked. Importing a block does the same for every extension its header may carry: when
  a block is accepted, it is accepted with any list of commitments and lookups in the place of those the
  runtime computes, although the checks claim to compare the header with the calculated one.\<close>

theorem header_extension_unchecked:
  assumes "\<And>H H' xs. ensure_inherents_are_first R (H, xs) = ensure_inherents_are_first R (H', xs)"
  shows "execute_block L R (H\<lparr> hdr_extension := forged \<rparr>, xs) s = execute_block L R (H, xs) s"
proof -
  have "initialize_block R (H\<lparr> hdr_extension := forged \<rparr>) s = initialize_block R H s"
    by (simp add: initialize_block_def extract_pre_digest_def)
  moreover have "initial_checks R (H\<lparr> hdr_extension := forged \<rparr>, xs) s1 = initial_checks R (H, xs) s1" for s1
    using assms [of "H\<lparr> hdr_extension := forged \<rparr>" xs H] by (simp add: initial_checks_def Let_def)
  moreover have "final_checks L R (H\<lparr> hdr_extension := forged \<rparr>) = final_checks L R H"
    by (simp add: fun_eq_iff final_checks_def case_prod_beta)
  ultimately show ?thesis by (simp add: execute_block_def)
qed

theorem header_extension_unchecked_witness:
  "let R = demo_runtime (+) id (\<lambda>v. ([], [])); s = ((4, 3, []), \<lambda>_. 0, 20);
       H = SystemExt_finalize sample_lib (Header_new 5 7 25 8 [1, 99]) ([], []);
       forged = HeaderExtension_new (replicate 48 1) [\<lparr> al_app_id = 1, al_nonce = 1, al_count = 1 \<rparr>]
   in execute_block sample_lib R (H\<lparr> hdr_extension := forged \<rparr>, [2, 3]) s = execute_block sample_lib R (H, [2, 3]) s"
  unfolding Let_def by (rule header_extension_unchecked) (simp add: demo_runtime_def)

end
