(* ===== verification/Das_Network.thy ===== *)
theory Das_Network
  imports Prelude
begin

text \<open>
  The crate \<open>das-network\<close>: the worker that owns the libp2p swarm, its commands and its events (worker.rs, shared.rs), and the service
  through which the rest of the node asks it (service.rs). A one-shot channel is a number; what its receiver gets, a result or the
  news that the sender was dropped, is recorded in the field \<open>dn_replies\<close>.
\<close>

section \<open>The swarm (libp2p)\<close>

text \<open>Peers, addresses and query identifiers are opaque; the operations of the swarm the worker calls are a record.\<close>

type_synonym PeerId = bytes
type_synonym Multiaddr = string
type_synonym QueryId = nat
type_synonym chan = nat

record KadRecord =
  rec_key :: bytes
  rec_value :: bytes

datatype Quorum = One | Majority | All | N nat

datatype Protocol = P2p bytes | OtherProtocol

record 'k swarm_lib =
  addr_parse :: "string \<Rightarrow> Multiaddr option"
  addr_protocols :: "Multiaddr \<Rightarrow> Protocol list"
  peer_from_multihash :: "bytes \<Rightarrow> PeerId option"
  kad_add_address :: "PeerId \<Rightarrow> Multiaddr \<Rightarrow> 'k \<Rightarrow> 'k"
  kad_remove_address :: "PeerId \<Rightarrow> Multiaddr \<Rightarrow> 'k \<Rightarrow> 'k"
  kad_remove_peer :: "PeerId \<Rightarrow> 'k \<Rightarrow> 'k"
  kad_bootstrap :: "'k \<Rightarrow> (string + QueryId) \<times> 'k"
  kad_get_record :: "bytes \<Rightarrow> 'k \<Rightarrow> QueryId \<times> 'k"
  kad_put_record :: "KadRecord \<Rightarrow> Quorum \<Rightarrow> 'k \<Rightarrow> (string + QueryId) \<times> 'k"
  store_remove :: "bytes \<Rightarrow> 'k \<Rightarrow> 'k"
  swarm_listen_on :: "Multiaddr \<Rightarrow> 'k \<Rightarrow> (string + unit) \<times> 'k"
  mdns_has_node :: "PeerId \<Rightarrow> 'k \<Rightarrow> bool"

section \<open>Commands and configuration (shared.rs, service.rs)\<close>

datatype Command =
    StartListening Multiaddr chan
  | AddAddress PeerId Multiaddr chan
  | Stream chan
  | Bootstrap chan
  | GetKadRecord bytes chan
  | PutKadRecord KadRecord Quorum chan
  | RemoveRecords "bytes list" chan

record DasNetworkConfig =
  listen_addr :: string
  listen_port :: u16
  bootstrap_nodes :: "string list"
  max_retries :: nat
  retry_delay :: nat
  bootstrap_timeout :: nat
  parallel_limit :: nat

definition DasNetworkConfig_default :: DasNetworkConfig where
  "DasNetworkConfig_default =
     \<lparr> listen_addr = ''0.0.0.0'', listen_port = 4417, bootstrap_nodes = [], max_retries = 3, retry_delay = 5, bootstrap_timeout = 60,
       parallel_limit = 10 \<rparr>"

section \<open>Metrics (worker.rs)\<close>

text \<open>The Prometheus registry is a parameter: registering a collector under a name succeeds or fails.\<close>

record Metrics =
  mt_publish :: u64
  mt_requests :: u64
  mt_requests_total :: "string \<Rightarrow> u64"
  mt_requests_pending :: u64
  mt_dht_event_received :: "string \<Rightarrow> u64"

definition Metrics_register :: "(string \<Rightarrow> 'r \<Rightarrow> (string + unit) \<times> 'r) \<Rightarrow> 'r \<Rightarrow> (string + Metrics) \<times> 'r" where
  "Metrics_register register r =
     (case register ''das_network_publish_total'' r of (Inl e, r1) \<Rightarrow> (Inl e, r1) | (Inr _, r1) \<Rightarrow>
     (case register ''das_network_requests_total'' r1 of (Inl e, r2) \<Rightarrow> (Inl e, r2) | (Inr _, r2) \<Rightarrow>
     (case register ''das_network_requests_total'' r2 of (Inl e, r3) \<Rightarrow> (Inl e, r3) | (Inr _, r3) \<Rightarrow>
     (case register ''das_network_requests_pending'' r3 of (Inl e, r4) \<Rightarrow> (Inl e, r4) | (Inr _, r4) \<Rightarrow>
     (case register ''das_network_dht_event_received_total'' r4 of (Inl e, r5) \<Rightarrow> (Inl e, r5) | (Inr _, r5) \<Rightarrow>
        (Inr \<lparr> mt_publish = 0, mt_requests = 0, mt_requests_total = \<lambda>_. 0, mt_requests_pending = 0,
               mt_dht_event_received = \<lambda>_. 0 \<rparr>, r5))))))"

section \<open>The worker (worker.rs)\<close>

definition MAX_RETRIES :: u8 where "MAX_RETRIES = 3"

datatype QueryResultSender = PutRecordSender chan | GetRecordSender chan | BootstrapSender chan

datatype reply = Done "string + unit" | Records "string + KadRecord list"

text \<open>What a receiver gets: the value sent, or the cancellation when the sender is dropped unused.\<close>

datatype outcome = Sent reply | Canceled

record 'k DasNetwork =
  dn_swarm :: 'k
  dn_output_senders :: "chan list"
  dn_query_id_receivers :: "QueryId \<rightharpoonup> QueryResultSender"
  dn_pending_routing :: "PeerId \<rightharpoonup> QueryResultSender"
  dn_retry_counts :: "PeerId \<rightharpoonup> u8"
  dn_metrics :: "Metrics option"
  dn_known_addresses :: "(PeerId \<times> string list) list"
  dn_replies :: "chan \<rightharpoonup> outcome"

fun chan_of :: "QueryResultSender \<Rightarrow> chan" where
  "chan_of (PutRecordSender c) = c"
| "chan_of (GetRecordSender c) = c"
| "chan_of (BootstrapSender c) = c"

definition send :: "chan \<Rightarrow> reply \<Rightarrow> 'k DasNetwork \<Rightarrow> 'k DasNetwork" where
  "send c r w = w\<lparr> dn_replies := (dn_replies w)(c \<mapsto> Sent r) \<rparr>"

definition drop_sender :: "QueryResultSender option \<Rightarrow> 'k DasNetwork \<Rightarrow> 'k DasNetwork" where
  "drop_sender msg w = (case msg of None \<Rightarrow> w | Some s \<Rightarrow> w\<lparr> dn_replies := (dn_replies w)(chan_of s \<mapsto> Canceled) \<rparr>)"

text \<open>\<open>handle_send!\<close>: a sender of another kind than the result is dropped.\<close>

definition handle_send_get :: "QueryResultSender option \<Rightarrow> string + KadRecord list \<Rightarrow> 'k DasNetwork \<Rightarrow> 'k DasNetwork" where
  "handle_send_get msg r w = (case msg of Some (GetRecordSender c) \<Rightarrow> send c (Records r) w | _ \<Rightarrow> drop_sender msg w)"

definition handle_send_put :: "QueryResultSender option \<Rightarrow> string + unit \<Rightarrow> 'k DasNetwork \<Rightarrow> 'k DasNetwork" where
  "handle_send_put msg r w = (case msg of Some (PutRecordSender c) \<Rightarrow> send c (Done r) w | _ \<Rightarrow> drop_sender msg w)"

definition handle_send_bootstrap :: "QueryResultSender option \<Rightarrow> string + unit \<Rightarrow> 'k DasNetwork \<Rightarrow> 'k DasNetwork" where
  "handle_send_bootstrap msg r w = (case msg of Some (BootstrapSender c) \<Rightarrow> send c (Done r) w | _ \<Rightarrow> drop_sender msg w)"

definition remove_receiver :: "QueryId \<Rightarrow> 'k DasNetwork \<Rightarrow> QueryResultSender option \<times> 'k DasNetwork" where
  "remove_receiver q w =
     (dn_query_id_receivers w q, w\<lparr> dn_query_id_receivers := (dn_query_id_receivers w)(q := None) \<rparr>)"

definition insert_receiver :: "QueryId \<Rightarrow> QueryResultSender \<Rightarrow> 'k DasNetwork \<Rightarrow> 'k DasNetwork" where
  "insert_receiver q s w =
     drop_sender (dn_query_id_receivers w q) (w\<lparr> dn_query_id_receivers := (dn_query_id_receivers w)(q \<mapsto> s) \<rparr>)"

definition insert_pending :: "PeerId \<Rightarrow> QueryResultSender \<Rightarrow> 'k DasNetwork \<Rightarrow> 'k DasNetwork" where
  "insert_pending p s w =
     drop_sender (dn_pending_routing w p) (w\<lparr> dn_pending_routing := (dn_pending_routing w)(p \<mapsto> s) \<rparr>)"

definition on_swarm :: "('k \<Rightarrow> 'k) \<Rightarrow> 'k DasNetwork \<Rightarrow> 'k DasNetwork" where
  "on_swarm f w = w\<lparr> dn_swarm := f (dn_swarm w) \<rparr>"

definition count_metrics :: "(Metrics \<Rightarrow> Metrics) \<Rightarrow> 'k DasNetwork \<Rightarrow> 'k DasNetwork" where
  "count_metrics f w = w\<lparr> dn_metrics := map_option f (dn_metrics w) \<rparr>"

subsection \<open>Start\<close>

fun find_peer :: "'k swarm_lib \<Rightarrow> Protocol list \<Rightarrow> PeerId option" where
  "find_peer K [] = None"
| "find_peer K (OtherProtocol # ps) = find_peer K ps"
| "find_peer K (P2p h # ps) = (case peer_from_multihash K h of Some p \<Rightarrow> Some p | None \<Rightarrow> find_peer K ps)"

fun push_known :: "PeerId \<Rightarrow> string \<Rightarrow> (PeerId \<times> string list) list \<Rightarrow> (PeerId \<times> string list) list" where
  "push_known p a [] = [(p, [a])]"
| "push_known p a ((p', as) # rest) = (if p' = p then (p', as @ [a]) # rest else (p', as) # push_known p a rest)"

fun add_bootstrap_nodes ::
  "'k swarm_lib \<Rightarrow> string list \<Rightarrow> 'k \<times> (PeerId \<times> string list) list \<Rightarrow> 'k \<times> (PeerId \<times> string list) list" where
  "add_bootstrap_nodes K [] s = s"
| "add_bootstrap_nodes K (addr # addrs) (k, known) =
     add_bootstrap_nodes K addrs
       (case addr_parse K addr of
          None \<Rightarrow> (k, known)
        | Some multiaddr \<Rightarrow>
            (case find_peer K (addr_protocols K multiaddr) of
               None \<Rightarrow> (k, known)
             | Some peer_id \<Rightarrow> (kad_add_address K peer_id multiaddr k, push_known peer_id addr known)))"

text \<open>\<open>format!("/ip4/{}/tcp/{}", ..)\<close> with the port in decimal.\<close>

fun decimal :: "nat \<Rightarrow> string" where
  "decimal n = (if n < 10 then [char_of (48 + n)] else decimal (n div 10) @ [char_of (48 + n mod 10)])"

declare decimal.simps [simp del]

definition listen_format :: "DasNetworkConfig \<Rightarrow> string" where
  "listen_format config = ''/ip4/'' @ listen_addr config @ ''/tcp/'' @ decimal (unat (listen_port config))"

definition DasNetwork_new ::
  "'k swarm_lib \<Rightarrow> (string \<Rightarrow> 'r \<Rightarrow> (string + unit) \<times> 'r) \<Rightarrow> 'k \<Rightarrow> 'r option \<Rightarrow> DasNetworkConfig
    \<Rightarrow> 'k DasNetwork res" where
  "DasNetwork_new K register swarm prometheus_registry config =
     (let (swarm1, known) = add_bootstrap_nodes K (bootstrap_nodes config) (swarm, []) in
      case addr_parse K (listen_format config) of
        None \<Rightarrow> Inl (Panic ''unwrap'')
      | Some a \<Rightarrow>
          Inr \<lparr> dn_swarm = snd (swarm_listen_on K a swarm1), dn_output_senders = [], dn_query_id_receivers = Map.empty,
                dn_pending_routing = Map.empty, dn_retry_counts = Map.empty,
                dn_metrics = (case prometheus_registry of
                   None \<Rightarrow> None
                 | Some r \<Rightarrow> (case fst (Metrics_register register r) of Inr m \<Rightarrow> Some m | Inl _ \<Rightarrow> None)),
                dn_known_addresses = known, dn_replies = Map.empty \<rparr>)"

text \<open>\<open>create\<close> and \<open>default\<close> (lib.rs): the swarm is built by libp2p from the keypair and the protocol name; the service keeps the limit of
  parallel requests. By default the registry is a new one.\<close>

definition network_create ::
  "'k swarm_lib \<Rightarrow> (string \<Rightarrow> 'r \<Rightarrow> (string + unit) \<times> 'r) \<Rightarrow> ('kp \<Rightarrow> string \<Rightarrow> string + 'k) \<Rightarrow> 'kp \<Rightarrow> string \<Rightarrow> 'r option \<Rightarrow> DasNetworkConfig
    \<Rightarrow> (nat \<times> 'k DasNetwork) res" where
  "network_create K register build_swarm keypair protocol_version prometheus_registry config =
     (case build_swarm keypair (''/melodot-das/'' @ protocol_version) of
        Inl e \<Rightarrow> Inl (Err e)
      | Inr swarm \<Rightarrow> res_map (Pair (parallel_limit config)) (DasNetwork_new K register swarm prometheus_registry config))"

definition DAS_NETWORK_VERSION :: string where "DAS_NETWORK_VERSION = ''0.0.1''"

definition network_default ::
  "'k swarm_lib \<Rightarrow> (string \<Rightarrow> 'r \<Rightarrow> (string + unit) \<times> 'r) \<Rightarrow> ('kp \<Rightarrow> string \<Rightarrow> string + 'k) \<Rightarrow> 'kp \<Rightarrow> 'r \<Rightarrow> DasNetworkConfig option \<Rightarrow> 'kp option
    \<Rightarrow> (nat \<times> 'k DasNetwork) res" where
  "network_default K register build_swarm generate_ed25519 new_registry config keypair =
     network_create K register build_swarm (case keypair of Some kp \<Rightarrow> kp | None \<Rightarrow> generate_ed25519) DAS_NETWORK_VERSION (Some new_registry)
       (case config of Some c \<Rightarrow> c | None \<Rightarrow> DasNetworkConfig_default)"

definition run_start :: "'k swarm_lib \<Rightarrow> 'k DasNetwork \<Rightarrow> 'k DasNetwork" where
  "run_start K w =
     (if dn_known_addresses w = [] then w
      else on_swarm (snd \<circ> kad_bootstrap K)
             (on_swarm (fold (\<lambda>(peer_id, addrs). fold (\<lambda>addr k.
                  case addr_parse K addr of Some a \<Rightarrow> kad_add_address K peer_id a k | None \<Rightarrow> k) addrs) (dn_known_addresses w)) w))"

subsection \<open>Events\<close>

datatype ConnectionError = IO | Handler | OtherConnectionError

datatype GetRecordResult = FoundRecord KadRecord | FinishedWithNoAdditionalRecord | GetRecordErr string

datatype QueryResult =
    GetRecordResult GetRecordResult
  | PutRecordResult "string + unit"
  | BootstrapResult "string + nat"
  | OtherResult

datatype KademliaEvent =
    RoutingUpdated PeerId
  | OutboundQueryProgressed QueryId QueryResult
  | OtherKademliaEvent

datatype SwarmEvent =
    KademliaEv KademliaEvent
  | IdentifyReceived PeerId "Multiaddr list"
  | MdnsDiscovered "(PeerId \<times> Multiaddr) list"
  | MdnsExpired "(PeerId \<times> Multiaddr) list"
  | ConnectionClosed PeerId "ConnectionError option"
  | OtherSwarmEvent

definition handle_retry_connection :: "'k swarm_lib \<Rightarrow> PeerId \<Rightarrow> 'k DasNetwork \<Rightarrow> 'k DasNetwork" where
  "handle_retry_connection K peer_id w =
     (let retry_count = (case dn_retry_counts w peer_id of Some n \<Rightarrow> n | None \<Rightarrow> 0) in
      if retry_count < MAX_RETRIES
      then w\<lparr> dn_retry_counts := (dn_retry_counts w)(peer_id \<mapsto> retry_count + 1) \<rparr>
      else on_swarm (kad_remove_peer K peer_id) (w\<lparr> dn_retry_counts := (dn_retry_counts w)(peer_id := None) \<rparr>))"

definition get_record_reply :: "GetRecordResult \<Rightarrow> string + KadRecord list" where
  "get_record_reply r =
     (case r of
        FoundRecord rc \<Rightarrow> Inr [rc]
      | FinishedWithNoAdditionalRecord \<Rightarrow> Inl ''No record found.''
      | GetRecordErr e \<Rightarrow> Inl e)"

fun handle_kademlia_event :: "KademliaEvent \<Rightarrow> 'k DasNetwork \<Rightarrow> 'k DasNetwork" where
  "handle_kademlia_event (RoutingUpdated peer) w =
     handle_send_bootstrap (dn_pending_routing w peer) (Inr ())
       (w\<lparr> dn_pending_routing := (dn_pending_routing w)(peer := None) \<rparr>)"
| "handle_kademlia_event (OutboundQueryProgressed q (GetRecordResult r)) w =
     (let (msg, w1) = remove_receiver q w in handle_send_get msg (get_record_reply r) w1)"
| "handle_kademlia_event (OutboundQueryProgressed q (PutRecordResult r)) w =
     (let (msg, w1) = remove_receiver q w in handle_send_put msg r w1)"
| "handle_kademlia_event (OutboundQueryProgressed q (BootstrapResult r)) w =
     (case r of
        Inr num_remaining \<Rightarrow>
          if num_remaining = 0
          then let (msg, w1) = remove_receiver q w in handle_send_bootstrap msg (Inr ()) w1
          else w
      | Inl e \<Rightarrow> let (msg, w1) = remove_receiver q w in handle_send_bootstrap msg (Inl e) w1)"
| "handle_kademlia_event (OutboundQueryProgressed q OtherResult) w = w"
| "handle_kademlia_event OtherKademliaEvent w = w"

definition handle_identify_event :: "'k swarm_lib \<Rightarrow> PeerId \<Rightarrow> Multiaddr list \<Rightarrow> 'k DasNetwork \<Rightarrow> 'k DasNetwork" where
  "handle_identify_event K peer_id listen_addrs w = on_swarm (fold (kad_add_address K peer_id) listen_addrs) w"

definition count_event :: "string \<Rightarrow> 'k DasNetwork \<Rightarrow> 'k DasNetwork" where
  "count_event label = count_metrics (\<lambda>m. m\<lparr> mt_dht_event_received := (mt_dht_event_received m)(label := mt_dht_event_received m label + 1) \<rparr>)"

definition closed_label :: "ConnectionError option \<Rightarrow> string" where
  "closed_label cause =
     (case cause of Some IO \<Rightarrow> ''connection_closed_io'' | Some Handler \<Rightarrow> ''connection_closed_handler'' | _ \<Rightarrow> ''connection_closed_other'')"

fun swarm_event_body :: "'k swarm_lib \<Rightarrow> SwarmEvent \<Rightarrow> 'k DasNetwork \<Rightarrow> 'k DasNetwork" where
  "swarm_event_body K (KademliaEv e) w = handle_kademlia_event e w"
| "swarm_event_body K (IdentifyReceived peer_id addrs) w = handle_identify_event K peer_id addrs w"
| "swarm_event_body K (MdnsDiscovered peers) w = on_swarm (fold (\<lambda>(peer_id, address). kad_add_address K peer_id address) peers) w"
| "swarm_event_body K (MdnsExpired peers) w =
     on_swarm (fold (\<lambda>(peer_id, address) k. if mdns_has_node K peer_id k then k else kad_remove_address K peer_id address k) peers) w"
| "swarm_event_body K (ConnectionClosed peer_id cause) w =
     (let w1 = count_event (closed_label cause) w in
      case cause of
        Some IO \<Rightarrow> handle_retry_connection K peer_id w1
      | Some Handler \<Rightarrow> handle_retry_connection K peer_id w1
      | _ \<Rightarrow> w1)"
| "swarm_event_body K OtherSwarmEvent w = w"

definition handle_swarm_event :: "'k swarm_lib \<Rightarrow> SwarmEvent \<Rightarrow> 'k DasNetwork \<Rightarrow> 'k DasNetwork" where
  "handle_swarm_event K e w = swarm_event_body K e (count_event ''event_received'' w)"

subsection \<open>Commands\<close>

definition count_request :: "'k DasNetwork \<Rightarrow> 'k DasNetwork" where
  "count_request =
     count_metrics (\<lambda>m. m\<lparr> mt_requests := mt_requests m + 1 + 1, mt_requests_pending := mt_requests_pending m + 1 \<rparr>)"

definition count_listening :: "string + unit \<Rightarrow> 'k DasNetwork \<Rightarrow> 'k DasNetwork" where
  "count_listening r =
     (let label = (case r of Inr _ \<Rightarrow> ''start_listening_success'' | Inl _ \<Rightarrow> ''start_listening_failure'') in
      count_metrics (\<lambda>m. m\<lparr> mt_requests_total := (mt_requests_total m)(label := mt_requests_total m label + 1) \<rparr>))"

fun command_body :: "'k swarm_lib \<Rightarrow> Command \<Rightarrow> 'k DasNetwork \<Rightarrow> 'k DasNetwork" where
  "command_body K (StartListening addr sender) w =
     (let (result, k1) = swarm_listen_on K addr (dn_swarm w);
          w1 = count_listening result (w\<lparr> dn_swarm := k1 \<rparr>);
          (result2, k2) = swarm_listen_on K addr (dn_swarm w1)
      in send sender (Done result2) (w1\<lparr> dn_swarm := k2 \<rparr>))"
| "command_body K (AddAddress peer_id peer_addr sender) w =
     insert_pending peer_id (BootstrapSender sender) (on_swarm (kad_add_address K peer_id peer_addr) w)"
| "command_body K (Stream sender) w = w\<lparr> dn_output_senders := dn_output_senders w @ [sender] \<rparr>"
| "command_body K (Bootstrap sender) w =
     (case kad_bootstrap K (dn_swarm w) of
        (Inr q, k) \<Rightarrow> insert_receiver q (BootstrapSender sender) (w\<lparr> dn_swarm := k \<rparr>)
      | (Inl _, k) \<Rightarrow> drop_sender (Some (BootstrapSender sender)) (w\<lparr> dn_swarm := k \<rparr>))"
| "command_body K (GetKadRecord key sender) w =
     (let (q, k) = kad_get_record K key (dn_swarm w) in insert_receiver q (GetRecordSender sender) (w\<lparr> dn_swarm := k \<rparr>))"
| "command_body K (PutKadRecord rc quorum sender) w =
     (let w1 = count_metrics (\<lambda>m. m\<lparr> mt_publish := mt_publish m + 1 + 1 \<rparr>) w in
      case kad_put_record K rc quorum (dn_swarm w1) of
        (Inr q, k) \<Rightarrow> insert_receiver q (PutRecordSender sender) (w1\<lparr> dn_swarm := k \<rparr>)
      | (Inl _, k) \<Rightarrow> drop_sender (Some (PutRecordSender sender)) (w1\<lparr> dn_swarm := k \<rparr>))"
| "command_body K (RemoveRecords record_keys sender) w =
     send sender (Done (Inr ())) (on_swarm (fold (store_remove K) record_keys) w)"

definition handle_command :: "'k swarm_lib \<Rightarrow> Command \<Rightarrow> 'k DasNetwork \<Rightarrow> 'k DasNetwork" where
  "handle_command K command w = command_body K command (count_request w)"

text \<open>The loop of \<open>run\<close> takes events of the swarm and commands in any order.\<close>

datatype worker_input = Ev SwarmEvent | Cmd Command

fun handle_input :: "'k swarm_lib \<Rightarrow> worker_input \<Rightarrow> 'k DasNetwork \<Rightarrow> 'k DasNetwork" where
  "handle_input K (Ev e) w = handle_swarm_event K e w"
| "handle_input K (Cmd c) w = handle_command K c w"

definition run_loop :: "'k swarm_lib \<Rightarrow> worker_input list \<Rightarrow> 'k DasNetwork \<Rightarrow> 'k DasNetwork" where
  "run_loop K inputs w = fold (handle_input K) inputs w"

section \<open>The service (service.rs)\<close>

text \<open>A call sends its command with a new channel and waits for the outcome; \<open>inputs\<close> is what the worker takes after the command
  until the caller goes on. The result is \<open>None\<close> while the channel has no outcome.\<close>

definition await_unit :: "string \<Rightarrow> chan \<Rightarrow> 'k DasNetwork \<Rightarrow> (string + unit) option" where
  "await_unit context c w =
     (case dn_replies w c of
        None \<Rightarrow> None
      | Some (Sent (Done r)) \<Rightarrow> Some r
      | Some _ \<Rightarrow> Some (Inl context))"

definition await_records :: "string \<Rightarrow> chan \<Rightarrow> 'k DasNetwork \<Rightarrow> (string + KadRecord list) option" where
  "await_records context c w =
     (case dn_replies w c of
        None \<Rightarrow> None
      | Some (Sent (Records r)) \<Rightarrow> Some r
      | Some _ \<Rightarrow> Some (Inl context))"

definition start_listening ::
  "'k swarm_lib \<Rightarrow> Multiaddr \<Rightarrow> chan \<Rightarrow> worker_input list \<Rightarrow> 'k DasNetwork \<Rightarrow> (string + unit) option \<times> 'k DasNetwork" where
  "start_listening K addr c inputs w =
     (let w' = run_loop K (Cmd (StartListening addr c) # inputs) w in (await_unit ''Failed receiving start listening response'' c w', w'))"

definition add_address ::
  "'k swarm_lib \<Rightarrow> PeerId \<Rightarrow> Multiaddr \<Rightarrow> chan \<Rightarrow> worker_input list \<Rightarrow> 'k DasNetwork \<Rightarrow> (string + unit) option \<times> 'k DasNetwork" where
  "add_address K peer_id peer_addr c inputs w =
     (let w' = run_loop K (Cmd (AddAddress peer_id peer_addr c) # inputs) w in (await_unit ''Failed receiving add address response'' c w', w'))"

definition service_remove_records ::
  "'k swarm_lib \<Rightarrow> bytes list \<Rightarrow> chan \<Rightarrow> worker_input list \<Rightarrow> 'k DasNetwork \<Rightarrow> (string + unit) option \<times> 'k DasNetwork" where
  "service_remove_records K record_keys c inputs w =
     (let w' = run_loop K (Cmd (RemoveRecords record_keys c) # inputs) w in (await_unit ''Failed receiving remove records response'' c w', w'))"

definition get_kad_record ::
  "'k swarm_lib \<Rightarrow> bytes \<Rightarrow> chan \<Rightarrow> worker_input list \<Rightarrow> 'k DasNetwork \<Rightarrow> (string + KadRecord list) option \<times> 'k DasNetwork" where
  "get_kad_record K key c inputs w =
     (let w' = run_loop K (Cmd (GetKadRecord key c) # inputs) w in (await_records ''Failed receiving get record response'' c w', w'))"

definition put_kad_record ::
  "'k swarm_lib \<Rightarrow> KadRecord \<Rightarrow> Quorum \<Rightarrow> chan \<Rightarrow> worker_input list \<Rightarrow> 'k DasNetwork \<Rightarrow> (string + unit) option \<times> 'k DasNetwork" where
  "put_kad_record K rc quorum c inputs w =
     (let w' = run_loop K (Cmd (PutKadRecord rc quorum c) # inputs) w in (await_unit ''Failed receiving put record response'' c w', w'))"

definition values_of :: "string + KadRecord list \<Rightarrow> string + bytes list" where
  "values_of r = map_sum id (map rec_value) r"

definition get_value ::
  "'k swarm_lib \<Rightarrow> bytes \<Rightarrow> chan \<Rightarrow> worker_input list \<Rightarrow> 'k DasNetwork \<Rightarrow> (string + bytes list) option \<times> 'k DasNetwork" where
  "get_value K key c inputs w = map_prod (map_option values_of) id (get_kad_record K key c inputs w)"

definition put_value ::
  "'k swarm_lib \<Rightarrow> bytes \<Rightarrow> bytes \<Rightarrow> chan \<Rightarrow> worker_input list \<Rightarrow> 'k DasNetwork \<Rightarrow> (string + unit) option \<times> 'k DasNetwork" where
  "put_value K key v c inputs w = put_kad_record K \<lparr> rec_key = key, rec_value = v \<rparr> All c inputs w"

text \<open>\<open>join_all\<close> sends every command before it waits for the outcomes; each request comes with its channel and with what the worker takes
  after its command and before the next one.\<close>

definition request_all :: "'k swarm_lib \<Rightarrow> ('a \<Rightarrow> chan \<Rightarrow> Command) \<Rightarrow> ('a \<times> chan \<times> worker_input list) list \<Rightarrow> worker_input list" where
  "request_all K mk reqs = concat (map (\<lambda>(a, c, inputs). Cmd (mk a c) # inputs) reqs)"

definition all_some :: "'a option list \<Rightarrow> 'a list option" where
  "all_some xs = (if None \<in> set xs then None else Some (map the xs))"

definition get_chunk ::
  "'k swarm_lib \<Rightarrow> (bytes \<times> chan \<times> worker_input list) list \<Rightarrow> 'k DasNetwork \<Rightarrow> bytes list option list option \<times> 'k DasNetwork" where
  "get_chunk K chunk w =
     (let w' = run_loop K (request_all K GetKadRecord chunk) w;
          chunk_results = map (\<lambda>(_, c, _). map_option values_of (await_records ''Failed receiving get record response'' c w')) chunk
      in (map_option (map (\<lambda>res. case res of Inr v \<Rightarrow> Some v | Inl _ \<Rightarrow> None)) (all_some chunk_results), w'))"

fun get_values_loop ::
  "'k swarm_lib \<Rightarrow> (bytes \<times> chan \<times> worker_input list) list list \<Rightarrow> 'k DasNetwork \<Rightarrow> bytes list option list option \<times> 'k DasNetwork" where
  "get_values_loop K [] w = (Some [], w)"
| "get_values_loop K (chunk # rest) w =
     (case get_chunk K chunk w of
        (None, w1) \<Rightarrow> (None, w1)
      | (Some rs, w1) \<Rightarrow> map_prod (map_option ((@) rs)) id (get_values_loop K rest w1))"

definition get_values ::
  "'k swarm_lib \<Rightarrow> nat \<Rightarrow> (bytes \<times> chan \<times> worker_input list) list \<Rightarrow> 'k DasNetwork \<Rightarrow> bytes list option list res option \<times> 'k DasNetwork" where
  "get_values K limit reqs w =
     (if limit = 0 then (Some (Inl (Panic ''chunk size must be non-zero'')), w)
      else map_prod (map_option Inr) id (get_values_loop K (chunks limit reqs) w))"

definition put_values ::
  "'k swarm_lib \<Rightarrow> ((bytes \<times> bytes) \<times> chan \<times> worker_input list) list \<Rightarrow> 'k DasNetwork \<Rightarrow> (string + unit) option \<times> 'k DasNetwork" where
  "put_values K reqs w =
     (let w' = run_loop K (request_all K (\<lambda>(key, v). PutKadRecord \<lparr> rec_key = key, rec_value = v \<rparr> All) reqs) w;
          results = map (\<lambda>(_, c, _). await_unit ''Failed receiving put record response'' c w') reqs
      in (map_option (\<lambda>_. Inr ()) (all_some results), w'))"

end
