(* ===== verification/Network_Props.thy ===== *)
theory Network_Props
  imports Das_Network
begin

text \<open>
  What the network worker guarantees to its callers: every request keeps its channel in exactly one place until it is answered once, and
  the answer is the first result of its query.
\<close>

section \<open>Where a channel waits\<close>

text \<open>A sender is kept for a query or for a peer whose address is being added.\<close>

definition place :: "'k DasNetwork \<Rightarrow> QueryId + PeerId \<Rightarrow> QueryResultSender option" where
  "place w x = (case x of Inl q \<Rightarrow> dn_query_id_receivers w q | Inr p \<Rightarrow> dn_pending_routing w p)"

definition spots :: "'k DasNetwork \<Rightarrow> chan \<Rightarrow> (QueryId + PeerId) set" where
  "spots w c = {x. map_option chan_of (place w x) = Some c}"

text \<open>Every channel of \<open>I\<close> waits at exactly one place or has its outcome; other channels are unknown to the worker.\<close>

definition accounted_chan :: "chan set \<Rightarrow> 'k DasNetwork \<Rightarrow> chan \<Rightarrow> bool" where
  "accounted_chan I w c \<longleftrightarrow>
     (if c \<in> I \<and> dn_replies w c = None then \<exists>x. spots w c = {x} else spots w c = {}) \<and> (c \<notin> I \<longrightarrow> dn_replies w c = None)"

definition accounted :: "chan set \<Rightarrow> 'k DasNetwork \<Rightarrow> bool" where
  "accounted I w \<longleftrightarrow> (\<forall>c. accounted_chan I w c)"

text \<open>The one-shot channel of a command.\<close>

fun cmd_chan :: "Command \<Rightarrow> chan option" where
  "cmd_chan (StartListening _ c) = Some c"
| "cmd_chan (AddAddress _ _ c) = Some c"
| "cmd_chan (Stream _) = None"
| "cmd_chan (Bootstrap c) = Some c"
| "cmd_chan (GetKadRecord _ c) = Some c"
| "cmd_chan (PutKadRecord _ _ c) = Some c"
| "cmd_chan (RemoveRecords _ c) = Some c"

fun input_chans :: "worker_input list \<Rightarrow> chan list" where
  "input_chans [] = []"
| "input_chans (Ev _ # is) = input_chans is"
| "input_chans (Cmd cmd # is) = (case cmd_chan cmd of None \<Rightarrow> input_chans is | Some c \<Rightarrow> c # input_chans is)"

definition fresh_inputs :: "chan set \<Rightarrow> worker_input list \<Rightarrow> bool" where
  "fresh_inputs I is \<longleftrightarrow> distinct (input_chans is) \<and> set (input_chans is) \<inter> I = {}"

text \<open>Two workers that agree on places and replies.\<close>

definition same_channels :: "'k DasNetwork \<Rightarrow> 'k DasNetwork \<Rightarrow> bool" where
  "same_channels w w' \<longleftrightarrow> dn_query_id_receivers w' = dn_query_id_receivers w \<and> dn_pending_routing w' = dn_pending_routing w \<and>
     dn_replies w' = dn_replies w"

lemma same_channels_updates [simp]:
  "same_channels w (on_swarm f w)" "same_channels w (count_metrics g w)" "same_channels w (w\<lparr> dn_swarm := k \<rparr>)"
  "same_channels w (w\<lparr> dn_retry_counts := rc \<rparr>)" "same_channels w (w\<lparr> dn_output_senders := os \<rparr>)" "same_channels w w"
  "same_channels w (on_swarm f (w\<lparr> dn_retry_counts := rc \<rparr>))"
  by (simp_all add: same_channels_def on_swarm_def count_metrics_def)

lemma same_channels_trans [trans]: "same_channels w w1 \<Longrightarrow> same_channels w1 w2 \<Longrightarrow> same_channels w w2"
  by (simp add: same_channels_def)

lemma same_channels_place: "same_channels w w' \<Longrightarrow> place w' = place w"
  by (auto simp: same_channels_def place_def fun_eq_iff split: sum.split)

lemma same_channels_accounted: "same_channels w w' \<Longrightarrow> accounted I w' \<longleftrightarrow> accounted I w"
  by (simp add: accounted_def accounted_chan_def spots_def same_channels_place) (simp add: same_channels_def)

section \<open>One step\<close>

text \<open>The three moves of a channel: it is answered at once, it is put at a place, whose old sender is dropped, or it leaves its
  place with an outcome.\<close>

definition answered_new :: "chan \<Rightarrow> outcome \<Rightarrow> 'k DasNetwork \<Rightarrow> 'k DasNetwork \<Rightarrow> bool" where
  "answered_new c out w w' \<longleftrightarrow> place w' = place w \<and> dn_replies w' = (dn_replies w)(c \<mapsto> out)"

definition placed_new :: "QueryId + PeerId \<Rightarrow> QueryResultSender \<Rightarrow> 'k DasNetwork \<Rightarrow> 'k DasNetwork \<Rightarrow> bool" where
  "placed_new x s w w' \<longleftrightarrow> place w' = (place w)(x \<mapsto> s) \<and>
     dn_replies w' = (case place w x of None \<Rightarrow> dn_replies w | Some t \<Rightarrow> (dn_replies w)(chan_of t \<mapsto> Canceled))"

definition released :: "QueryId + PeerId \<Rightarrow> (QueryResultSender \<Rightarrow> outcome) \<Rightarrow> 'k DasNetwork \<Rightarrow> 'k DasNetwork \<Rightarrow> bool" where
  "released x out w w' \<longleftrightarrow> place w' = (place w)(x := None) \<and>
     dn_replies w' = (case place w x of None \<Rightarrow> dn_replies w | Some t \<Rightarrow> (dn_replies w)(chan_of t \<mapsto> out t))"

lemma spots_place: "place w x = Some t \<Longrightarrow> x \<in> spots w c \<longleftrightarrow> c = chan_of t"
  "place w x = None \<Longrightarrow> x \<notin> spots w c"
  by (auto simp: spots_def)

lemma spots_moved:
  "place w' = (place w)(x \<mapsto> s) \<Longrightarrow> spots w' c = spots w c - {x} \<union> (if c = chan_of s then {x} else {})"
  "place w' = (place w)(x := None) \<Longrightarrow> spots w' c = spots w c - {x}"
  by (auto simp: spots_def)

lemma accountedD:
  assumes "accounted I w"
  shows "c \<notin> I \<Longrightarrow> spots w c = {} \<and> dn_replies w c = None"
    and "c \<in> I \<Longrightarrow> dn_replies w c = None \<Longrightarrow> \<exists>x. spots w c = {x}"
    and "dn_replies w c \<noteq> None \<Longrightarrow> c \<in> I \<and> spots w c = {}"
    and "place w x = Some t \<Longrightarrow> chan_of t \<in> I \<and> dn_replies w (chan_of t) = None \<and> spots w (chan_of t) = {x}"
proof -
  have a: "accounted_chan I w c" for c using assms by (simp add: accounted_def)
  show "c \<notin> I \<Longrightarrow> spots w c = {} \<and> dn_replies w c = None"
    and "c \<in> I \<Longrightarrow> dn_replies w c = None \<Longrightarrow> \<exists>x. spots w c = {x}"
    and "dn_replies w c \<noteq> None \<Longrightarrow> c \<in> I \<and> spots w c = {}"
    using a [of c] by (auto simp: accounted_chan_def split: if_splits)
  assume "place w x = Some t"
  then have "x \<in> spots w (chan_of t)" by (simp add: spots_place)
  with a [of "chan_of t"] show "chan_of t \<in> I \<and> dn_replies w (chan_of t) = None \<and> spots w (chan_of t) = {x}"
    by (auto simp: accounted_chan_def split: if_splits)
qed

lemma accounted_answered_new:
  assumes "accounted I w" and "c \<notin> I" and "answered_new c out w w'"
  shows "accounted (insert c I) w'"
  unfolding accounted_def
proof
  fix d
  have "spots w' d = spots w d" "dn_replies w' = (dn_replies w)(c \<mapsto> out)" using assms(3) by (simp_all add: answered_new_def spots_def)
  then show "accounted_chan (insert c I) w' d"
    using accountedD(1) [OF assms(1,2)] assms(1)
    by (cases "d = c") (auto simp: accounted_chan_def accounted_def)
qed

lemma accounted_placed_new:
  assumes "accounted I w" and "chan_of s \<notin> I" and "placed_new x s w w'"
  shows "accounted (insert (chan_of s) I) w'"
  unfolding accounted_def
proof
  fix d
  have sp: "spots w' d = spots w d - {x} \<union> (if d = chan_of s then {x} else {})"
    using assms(3) by (intro spots_moved(1)) (simp add: placed_new_def)
  note new = accountedD(1) [OF assms(1,2)]
  show "accounted_chan (insert (chan_of s) I) w' d"
  proof (cases "place w x")
    case None
    with assms(3) have "dn_replies w' = dn_replies w" by (simp add: placed_new_def)
    moreover have "spots w d - {x} = spots w d" using spots_place(2) [OF None] by blast
    ultimately show ?thesis using sp new assms(1) by (auto simp: accounted_chan_def accounted_def)
  next
    case (Some t)
    with assms(3) have r: "dn_replies w' = (dn_replies w)(chan_of t \<mapsto> Canceled)" by (simp add: placed_new_def)
    note t = accountedD(4) [OF assms(1) Some]
    have "d \<noteq> chan_of t \<Longrightarrow> spots w d - {x} = spots w d" using spots_place(1) [OF Some] by blast
    then show ?thesis using sp r new t assms(1,2)
      by (cases "d = chan_of t"; cases "d = chan_of s") (auto simp: accounted_chan_def accounted_def)
  qed
qed

lemma accounted_released:
  assumes "accounted I w" and "released x out w w'"
  shows "accounted I w'"
  unfolding accounted_def
proof
  fix d
  have sp: "spots w' d = spots w d - {x}" using assms(2) by (intro spots_moved(2)) (simp add: released_def)
  show "accounted_chan I w' d"
  proof (cases "place w x")
    case None
    with assms(2) have "dn_replies w' = dn_replies w" by (simp add: released_def)
    moreover have "spots w d - {x} = spots w d" using spots_place(2) [OF None] by blast
    ultimately show ?thesis using sp assms(1) by (auto simp: accounted_chan_def accounted_def)
  next
    case (Some t)
    with assms(2) have r: "dn_replies w' = (dn_replies w)(chan_of t \<mapsto> out t)" by (simp add: released_def)
    note t = accountedD(4) [OF assms(1) Some]
    have "d \<noteq> chan_of t \<Longrightarrow> spots w d - {x} = spots w d" using spots_place(1) [OF Some] by blast
    then show ?thesis using sp r t assms(1)
      by (cases "d = chan_of t") (auto simp: accounted_chan_def accounted_def)
  qed
qed

subsection \<open>Which move a step makes\<close>

definition get_out :: "string + KadRecord list \<Rightarrow> QueryResultSender \<Rightarrow> outcome" where
  "get_out r s = (case s of GetRecordSender _ \<Rightarrow> Sent (Records r) | _ \<Rightarrow> Canceled)"

definition put_out :: "string + unit \<Rightarrow> QueryResultSender \<Rightarrow> outcome" where
  "put_out r s = (case s of PutRecordSender _ \<Rightarrow> Sent (Done r) | _ \<Rightarrow> Canceled)"

definition bootstrap_out :: "string + unit \<Rightarrow> QueryResultSender \<Rightarrow> outcome" where
  "bootstrap_out r s = (case s of BootstrapSender _ \<Rightarrow> Sent (Done r) | _ \<Rightarrow> Canceled)"

fun result_out :: "QueryResult \<Rightarrow> (QueryResultSender \<Rightarrow> outcome) option" where
  "result_out (GetRecordResult r) = Some (get_out (get_record_reply r))"
| "result_out (PutRecordResult r) = Some (put_out r)"
| "result_out (BootstrapResult (Inr n)) = (if n = 0 then Some (bootstrap_out (Inr ())) else None)"
| "result_out (BootstrapResult (Inl e)) = Some (bootstrap_out (Inl e))"
| "result_out OtherResult = None"

fun release_of :: "SwarmEvent \<Rightarrow> ((QueryId + PeerId) \<times> (QueryResultSender \<Rightarrow> outcome)) option" where
  "release_of (KademliaEv (RoutingUpdated p)) = Some (Inr p, bootstrap_out (Inr ()))"
| "release_of (KademliaEv (OutboundQueryProgressed q r)) = map_option (Pair (Inl q)) (result_out r)"
| "release_of _ = None"

lemma place_query_upd: "place (w\<lparr> dn_query_id_receivers := (dn_query_id_receivers w)(q := v) \<rparr>) = (place w)(Inl q := v)"
  by (auto simp: place_def fun_eq_iff split: sum.split)

lemma place_pending_upd: "place (w\<lparr> dn_pending_routing := (dn_pending_routing w)(p := v) \<rparr>) = (place w)(Inr p := v)"
  by (auto simp: place_def fun_eq_iff split: sum.split)

lemma place_replies [simp]: "place (w\<lparr> dn_replies := r \<rparr>) = place w"
  by (simp add: place_def fun_eq_iff split: sum.split)

lemma place_Inl [simp]: "place w (Inl q) = dn_query_id_receivers w q"
  and place_Inr [simp]: "place w (Inr p) = dn_pending_routing w p"
  by (simp_all add: place_def)

lemmas handle_send_defs = handle_send_get_def handle_send_put_def handle_send_bootstrap_def send_def drop_sender_def
  get_out_def put_out_def bootstrap_out_def

lemma released_query:
  "released (Inl q) (get_out r) w (handle_send_get (fst (remove_receiver q w)) r (snd (remove_receiver q w)))"
  "released (Inl q) (put_out u) w (handle_send_put (fst (remove_receiver q w)) u (snd (remove_receiver q w)))"
  "released (Inl q) (bootstrap_out u) w (handle_send_bootstrap (fst (remove_receiver q w)) u (snd (remove_receiver q w)))"
  by (auto simp: released_def remove_receiver_def handle_send_defs place_query_upd split: option.split QueryResultSender.split)

lemma released_pending:
  "released (Inr p) (bootstrap_out u) w
     (handle_send_bootstrap (dn_pending_routing w p) u (w\<lparr> dn_pending_routing := (dn_pending_routing w)(p := None) \<rparr>))"
  by (auto simp: released_def handle_send_defs place_pending_upd split: option.split QueryResultSender.split)

lemma placed_receiver: "placed_new (Inl q) s w (insert_receiver q s w)"
  by (auto simp: placed_new_def insert_receiver_def drop_sender_def place_query_upd split: option.split)

lemma placed_pending: "placed_new (Inr p) s w (insert_pending p s w)"
  by (auto simp: placed_new_def insert_pending_def drop_sender_def place_pending_upd split: option.split)

lemma same_channels_moves:
  assumes "same_channels w w1"
  shows "released x out w1 w' \<longleftrightarrow> released x out w w'" "placed_new x s w1 w' \<longleftrightarrow> placed_new x s w w'"
    "answered_new c outc w1 w' \<longleftrightarrow> answered_new c outc w w'" "same_channels w1 w' \<longleftrightarrow> same_channels w w'"
proof -
  have r: "dn_replies w1 = dn_replies w" using assms by (simp add: same_channels_def)
  show "released x out w1 w' \<longleftrightarrow> released x out w w'" "placed_new x s w1 w' \<longleftrightarrow> placed_new x s w w'"
    "answered_new c outc w1 w' \<longleftrightarrow> answered_new c outc w w'"
    unfolding released_def placed_new_def answered_new_def same_channels_place [OF assms] r by (rule refl)+
  show "same_channels w1 w' \<longleftrightarrow> same_channels w w'" using assms by (simp add: same_channels_def)
qed

lemma kademlia_event_moves:
  "case release_of (KademliaEv e) of
     None \<Rightarrow> same_channels w (handle_kademlia_event e w)
   | Some (x, out) \<Rightarrow> released x out w (handle_kademlia_event e w)"
proof (cases e)
  case (OutboundQueryProgressed q r)
  then show ?thesis
  proof (cases r)
    case (BootstrapResult b)
    then show ?thesis using OutboundQueryProgressed by (cases b) (simp_all add: case_prod_beta Let_def released_query)
  qed (simp_all add: case_prod_beta Let_def released_query)
qed (simp_all add: released_pending)

lemma swarm_event_moves:
  "case release_of e of
     None \<Rightarrow> same_channels w (handle_swarm_event K e w)
   | Some (x, out) \<Rightarrow> released x out w (handle_swarm_event K e w)"
proof -
  let ?w = "count_event ''event_received'' w"
  have c: "same_channels v (count_event l v)" for l and v :: "'a DasNetwork" by (simp add: count_event_def)
  show ?thesis
  proof (cases e)
    case (KademliaEv k)
    then show ?thesis using kademlia_event_moves [where e = k and w = ?w] same_channels_moves [OF c]
      by (auto simp: handle_swarm_event_def split: option.splits)
  next
    case (ConnectionClosed p cause)
    have r: "same_channels v (handle_retry_connection K p v)" for v by (simp add: handle_retry_connection_def Let_def)
    have l: "same_channels w (count_event l ?w)" for l by (rule same_channels_trans [OF c c])
    from ConnectionClosed show ?thesis
      by (auto simp: handle_swarm_event_def Let_def l same_channels_trans [OF l r] split: option.split ConnectionError.split)
  qed (simp_all add: handle_swarm_event_def handle_identify_event_def c same_channels_trans [OF c same_channels_updates(1)])
qed

text \<open>What a command does with its channel.\<close>

fun command_ok :: "'k swarm_lib \<Rightarrow> Command \<Rightarrow> 'k DasNetwork \<Rightarrow> 'k DasNetwork \<Rightarrow> bool" where
  "command_ok K (GetKadRecord key c) w w' \<longleftrightarrow> placed_new (Inl (fst (kad_get_record K key (dn_swarm w)))) (GetRecordSender c) w w'"
| "command_ok K (Stream _) w w' \<longleftrightarrow> same_channels w w'"
| "command_ok K (PutKadRecord rc quorum c) w w' \<longleftrightarrow>
     (case fst (kad_put_record K rc quorum (dn_swarm w)) of
        Inr q \<Rightarrow> placed_new (Inl q) (PutRecordSender c) w w'
      | Inl _ \<Rightarrow> answered_new c Canceled w w')"
| "command_ok K (Bootstrap c) w w' \<longleftrightarrow>
     (case fst (kad_bootstrap K (dn_swarm w)) of
        Inr q \<Rightarrow> placed_new (Inl q) (BootstrapSender c) w w'
      | Inl _ \<Rightarrow> answered_new c Canceled w w')"
| "command_ok K (AddAddress p _ c) w w' \<longleftrightarrow> placed_new (Inr p) (BootstrapSender c) w w'"
| "command_ok K (StartListening _ c) w w' \<longleftrightarrow> (\<exists>r. answered_new c (Sent (Done r)) w w')"
| "command_ok K (RemoveRecords _ c) w w' \<longleftrightarrow> answered_new c (Sent (Done (Inr ()))) w w'"

lemma answered_send: "answered_new c (Sent r) w (send c r w)"
  "answered_new c Canceled w (drop_sender (Some (PutRecordSender c)) w)" "answered_new c Canceled w (drop_sender (Some (BootstrapSender c)) w)"
  by (simp_all add: answered_new_def send_def drop_sender_def)

lemma swarm_count [simp]: "dn_swarm (count_metrics f w) = dn_swarm w" "dn_swarm (count_request w) = dn_swarm w"
  "dn_swarm (count_event l w) = dn_swarm w" "dn_swarm (count_listening r w) = dn_swarm w"
  by (simp_all add: count_metrics_def count_request_def count_event_def count_listening_def Let_def)

lemma same_channels_count [simp]: "same_channels w (count_request w)" "same_channels w (count_listening r w)"
  by (simp_all add: count_request_def count_listening_def Let_def)

lemma moved:
  assumes "same_channels w w1"
  shows "placed_new (Inl q) s w (insert_receiver q s w1)" "placed_new (Inr p) s w (insert_pending p s w1)"
    "answered_new c (Sent r) w (send c r w1)" "answered_new c Canceled w (drop_sender (Some (PutRecordSender c)) w1)"
    "answered_new c Canceled w (drop_sender (Some (BootstrapSender c)) w1)"
  using same_channels_moves(2,3) [OF assms] placed_receiver placed_pending answered_send by blast+

lemma command_moves: "command_ok K cmd w (handle_command K cmd w)"
proof -
  let ?w = "count_request w"
  have m: "same_channels w (?w\<lparr> dn_swarm := k \<rparr>)" "same_channels w (on_swarm g ?w)" "same_channels w ?w" for k g
    by (rule same_channels_trans [of _ ?w]; simp)+
  show ?thesis
  proof (cases cmd)
    case (StartListening a c)
    obtain r1 k1 where l1: "swarm_listen_on K a (dn_swarm w) = (r1, k1)" by (cases "swarm_listen_on K a (dn_swarm w)")
    obtain r2 k2 where l2: "swarm_listen_on K a k1 = (r2, k2)" by (cases "swarm_listen_on K a k1")
    let ?v = "(count_listening r1 (?w\<lparr> dn_swarm := k1 \<rparr>))\<lparr> dn_swarm := k2 \<rparr>"
    have "same_channels (?w\<lparr> dn_swarm := k1 \<rparr>) ?v" by (rule same_channels_trans [of _ "count_listening r1 (?w\<lparr> dn_swarm := k1 \<rparr>)"]) simp_all
    with m(1) have v: "same_channels w ?v" by (rule same_channels_trans)
    have "answered_new c (Sent (Done r2)) w (send c (Done r2) ?v)" by (rule moved(3) [OF v])
    then show ?thesis using StartListening l1 l2 by (auto simp: handle_command_def)
  next
    case (AddAddress p a c)
    then show ?thesis by (simp add: handle_command_def moved [OF m(2)] placed_pending)
  next
    case (Bootstrap c)
    then show ?thesis by (auto simp: handle_command_def moved [OF m(1)] placed_receiver answered_send split: prod.split sum.split)
  next
    case (GetKadRecord key c)
    then show ?thesis by (auto simp: handle_command_def Let_def moved [OF m(1)] placed_receiver split: prod.split)
  next
    case (PutKadRecord rc quorum c)
    have f: "same_channels w (count_metrics f ?w)" for f by (rule same_channels_trans [OF m(3)]) simp
    have v: "same_channels w ((count_metrics f ?w)\<lparr> dn_swarm := k \<rparr>)" for f k by (rule same_channels_trans [OF f [of f]]) simp
    show ?thesis using PutKadRecord
      by (auto simp: handle_command_def Let_def moved [OF v] placed_receiver answered_send split: prod.split sum.split)
  next
    case (Stream c)
    have "same_channels w (?w\<lparr> dn_output_senders := os \<rparr>)" for os by (rule same_channels_trans [OF m(3)]) simp
    with Stream show ?thesis by (simp add: handle_command_def)
  next
    case (RemoveRecords ks c)
    then show ?thesis by (simp add: handle_command_def moved [OF m(2)] answered_send)
  qed
qed

section \<open>The worker as a machine\<close>

text \<open>\<open>I\<close> holds the channels of the commands so far, \<open>G\<close> those of the requests for records.\<close>

fun get_chan :: "Command \<Rightarrow> chan set" where
  "get_chan (GetKadRecord _ c) = {c}"
| "get_chan _ = {}"

inductive worker_reach ::
  "'k swarm_lib \<Rightarrow> (string \<Rightarrow> 'r \<Rightarrow> (string + unit) \<times> 'r) \<Rightarrow> chan set \<Rightarrow> chan set \<Rightarrow> 'k DasNetwork \<Rightarrow> bool"
  for K register where
    start: "DasNetwork_new K register swarm registry config = Inr w \<Longrightarrow> worker_reach K register {} {} (run_start K w)"
  | event: "worker_reach K register I G w \<Longrightarrow> worker_reach K register I G (handle_swarm_event K e w)"
  | command: "worker_reach K register I G w \<Longrightarrow> set_option (cmd_chan cmd) \<inter> I = {} \<Longrightarrow>
      worker_reach K register (set_option (cmd_chan cmd) \<union> I) (get_chan cmd \<union> G) (handle_command K cmd w)"

definition is_get :: "QueryResultSender \<Rightarrow> bool" where
  "is_get s = (case s of GetRecordSender _ \<Rightarrow> True | _ \<Rightarrow> False)"

definition reply_ok :: "bool \<Rightarrow> outcome \<Rightarrow> bool" where
  "reply_ok g out \<longleftrightarrow>
     (case out of
        Canceled \<Rightarrow> True
      | Sent (Records r) \<Rightarrow> g \<and> (\<forall>rs. r = Inr rs \<longrightarrow> length rs = 1)
      | Sent (Done _) \<Rightarrow> \<not> g)"

definition typed :: "chan set \<Rightarrow> 'k DasNetwork \<Rightarrow> bool" where
  "typed G w \<longleftrightarrow> (\<forall>x s. place w x = Some s \<longrightarrow> (chan_of s \<in> G \<longleftrightarrow> is_get s)) \<and>
     (\<forall>c out. dn_replies w c = Some out \<longrightarrow> reply_ok (c \<in> G) out)"

definition retry_ok :: "'k DasNetwork \<Rightarrow> bool" where
  "retry_ok w \<longleftrightarrow> (\<forall>p n. dn_retry_counts w p = Some n \<longrightarrow> n \<le> MAX_RETRIES)"

lemma typed_same: "same_channels w w' \<Longrightarrow> typed G w' \<longleftrightarrow> typed G w"
  by (simp add: typed_def same_channels_place) (simp add: same_channels_def)

lemma typed_released:
  assumes "typed G w" and "released x out w w'" and "\<And>s. reply_ok (is_get s) (out s)"
  shows "typed G w'"
  using assms by (auto simp: typed_def released_def split: option.splits if_splits)

lemma typed_placed_new:
  assumes "typed G w" "accounted I w" and "chan_of s \<notin> I" and "placed_new x s w w'" and "G \<subseteq> I"
  shows "typed (if is_get s then insert (chan_of s) G else G) w'"
proof -
  have old: "chan_of t \<noteq> chan_of s" if "place w y = Some t" for y t using accountedD(4) [OF assms(2) that] assms(3) by auto
  have new: "dn_replies w (chan_of s) = None" using accountedD(1) [OF assms(2,3)] by simp
  have p: "place w' = (place w)(x \<mapsto> s)" using assms(4) by (simp add: placed_new_def)
  have r: "dn_replies w' c = Some out \<Longrightarrow> out = Canceled \<or> dn_replies w c = Some out" for c out
    using assms(4) by (auto simp: placed_new_def split: option.splits if_splits)
  show ?thesis
    unfolding typed_def
  proof (intro conjI allI impI)
    fix y t assume y: "place w' y = Some t"
    show "chan_of t \<in> (if is_get s then insert (chan_of s) G else G) \<longleftrightarrow> is_get t"
    proof (cases "y = x")
      case True
      then have "t = s" using y p by simp
      moreover have "chan_of s \<notin> G \<or> is_get s" using assms(3,5) by blast
      ultimately show ?thesis by auto
    next
      case False
      then show ?thesis using y p old assms(1) by (auto simp: typed_def)
    qed
  next
    fix c out assume c: "dn_replies w' c = Some out"
    show "reply_ok (c \<in> (if is_get s then insert (chan_of s) G else G)) out"
    proof (cases "out = Canceled")
      case False
      with r [OF c] new have "dn_replies w c = Some out" "c \<noteq> chan_of s" by auto
      then show ?thesis using assms(1) by (simp add: typed_def)
    qed (simp add: reply_ok_def)
  qed
qed

lemma typed_answered_new:
  assumes "typed G w" "accounted I w" and "c \<notin> I" and "answered_new c out w w'" and "G \<subseteq> I" and "reply_ok False out"
  shows "typed G w'"
proof -
  have "c \<notin> G" using assms(3,5) by blast
  then show ?thesis using assms(1,4,6) by (auto simp: typed_def answered_new_def split: if_splits)
qed

definition worker_inv :: "chan set \<Rightarrow> chan set \<Rightarrow> 'k DasNetwork \<Rightarrow> bool" where
  "worker_inv I G w \<longleftrightarrow> accounted I w \<and> G \<subseteq> I \<and> typed G w \<and> retry_ok w"

lemma out_ok: "reply_ok (is_get s) (get_out (get_record_reply r) s)" "reply_ok (is_get s) (put_out u s)"
  "reply_ok (is_get s) (bootstrap_out u s)"
  by (auto simp: reply_ok_def is_get_def get_out_def put_out_def bootstrap_out_def get_record_reply_def
      split: QueryResultSender.split GetRecordResult.split)

lemma release_ok: "release_of e = Some (x, out) \<Longrightarrow> reply_ok (is_get s) (out s)"
proof (induction e rule: release_of.induct)
  case (2 q r)
  then show ?case by (cases r rule: result_out.cases) (auto simp: out_ok split: if_splits)
qed (auto simp: out_ok)

lemma retry_kept [simp]:
  "dn_retry_counts (count_event l w) = dn_retry_counts w" "dn_retry_counts (on_swarm f w) = dn_retry_counts w"
  "dn_retry_counts (send c r w) = dn_retry_counts w" "dn_retry_counts (drop_sender m w) = dn_retry_counts w"
  "dn_retry_counts (count_request w) = dn_retry_counts w" "dn_retry_counts (count_listening b w) = dn_retry_counts w"
  "dn_retry_counts (insert_receiver q sd w) = dn_retry_counts w" "dn_retry_counts (insert_pending p sd w) = dn_retry_counts w"
  "dn_retry_counts (count_metrics g w) = dn_retry_counts w"
  by (simp_all add: count_event_def count_metrics_def on_swarm_def send_def drop_sender_def count_request_def count_listening_def
      Let_def insert_receiver_def insert_pending_def split: option.split)

lemma retry_command: "dn_retry_counts (handle_command K cmd w) = dn_retry_counts w"
  by (cases cmd) (simp_all add: handle_command_def Let_def case_prod_beta split: sum.split)

lemma retry_kademlia: "dn_retry_counts (handle_kademlia_event e w) = dn_retry_counts w"
  by (induction e w rule: handle_kademlia_event.induct)
    (simp_all add: handle_send_get_def handle_send_put_def handle_send_bootstrap_def remove_receiver_def Let_def
      split: option.split QueryResultSender.split sum.split)

lemma retry_ok_event: "retry_ok w \<Longrightarrow> retry_ok (handle_swarm_event K e w)"
proof -
  assume ok: "retry_ok w"
  have step: "n + 1 \<le> MAX_RETRIES" if "n < MAX_RETRIES" for n using that by (simp add: MAX_RETRIES_def word_less_nat_alt word_le_nat_alt unat_word_ariths)
  have retry: "retry_ok v \<Longrightarrow> retry_ok (handle_retry_connection K p v)" for p and v :: "'a DasNetwork"
    using step by (auto simp: retry_ok_def handle_retry_connection_def Let_def split: option.splits if_splits)
  have counted: "retry_ok (count_event m (count_event l w))" for l m using ok by (simp add: retry_ok_def)
  show ?thesis
  proof (cases e)
    case (ConnectionClosed p cause)
    then show ?thesis
      by (auto simp: handle_swarm_event_def Let_def counted retry [OF counted] split: option.split ConnectionError.split)
  qed (use ok in \<open>simp_all add: handle_swarm_event_def handle_identify_event_def retry_ok_def retry_kademlia\<close>)
qed

lemma worker_inv_event: "worker_inv I G w \<Longrightarrow> worker_inv I G (handle_swarm_event K e w)"
proof -
  assume inv: "worker_inv I G w"
  have "accounted I (handle_swarm_event K e w) \<and> typed G (handle_swarm_event K e w)"
  proof (cases "release_of e")
    case None
    then have "same_channels w (handle_swarm_event K e w)" using swarm_event_moves [where e = e and w = w and K = K] by simp
    then show ?thesis using inv by (simp add: worker_inv_def same_channels_accounted typed_same)
  next
    case (Some xo)
    obtain x out where xo: "xo = (x, out)" by (cases xo)
    then have r: "released x out w (handle_swarm_event K e w)" using Some swarm_event_moves [where e = e and w = w and K = K] by simp
    then show ?thesis using inv accounted_released typed_released [OF _ r] release_ok [OF Some [unfolded xo]] by (auto simp: worker_inv_def)
  qed
  then show ?thesis using inv retry_ok_event by (auto simp: worker_inv_def)
qed

lemma worker_inv_command:
  assumes "worker_inv I G w" and "set_option (cmd_chan cmd) \<inter> I = {}"
  shows "worker_inv (set_option (cmd_chan cmd) \<union> I) (get_chan cmd \<union> G) (handle_command K cmd w)"
proof -
  let ?w = "handle_command K cmd w"
  note moves = command_moves [where K = K and cmd = cmd and w = w]
  have inv: "accounted I w" "G \<subseteq> I" "typed G w" using assms(1) by (simp_all add: worker_inv_def)
  have answered: "accounted (insert c I) ?w \<and> typed G ?w" if "c \<notin> I" "answered_new c out w ?w" "reply_ok False out" for c out
    using accounted_answered_new [OF inv(1) that(1,2)] typed_answered_new [OF inv(3,1) that(1,2) inv(2) that(3)] by simp
  have placed: "accounted (insert (chan_of t) I) ?w \<and> typed (if is_get t then insert (chan_of t) G else G) ?w"
    if "chan_of t \<notin> I" "placed_new x t w ?w" for x t
    using accounted_placed_new [OF inv(1) that] typed_placed_new [OF inv(3,1) that inv(2)] by simp
  have "accounted (set_option (cmd_chan cmd) \<union> I) ?w \<and> typed (get_chan cmd \<union> G) ?w"
  proof (cases cmd)
    case (Stream c)
    then have "same_channels w ?w" using moves by simp
    then show ?thesis using inv by (simp add: same_channels_accounted typed_same) (simp add: Stream)
  next
    case (StartListening a c)
    then obtain r where r: "answered_new c (Sent (Done r)) w ?w" using moves by auto
    show ?thesis using StartListening assms(2) answered [OF _ r] by (simp add: reply_ok_def)
  next
    case (AddAddress p a c)
    then show ?thesis using moves assms(2) placed [of "BootstrapSender c" "Inr p"] by (simp add: is_get_def)
  next
    case (Bootstrap c)
    then show ?thesis using moves assms(2) placed [of "BootstrapSender c"] answered [of c Canceled]
      by (auto simp: is_get_def reply_ok_def split: sum.splits)
  next
    case (GetKadRecord key c)
    then show ?thesis using moves assms(2) placed [of "GetRecordSender c"] by (simp add: is_get_def)
  next
    case (PutKadRecord rc quorum c)
    then show ?thesis using moves assms(2) placed [of "PutRecordSender c"] answered [of c Canceled]
      by (auto simp: is_get_def reply_ok_def split: sum.splits)
  next
    case (RemoveRecords ks c)
    then show ?thesis using moves assms(2) answered [of c "Sent (Done (Inr ()))"] by (simp add: reply_ok_def)
  qed
  moreover have "get_chan cmd \<subseteq> set_option (cmd_chan cmd)" by (cases cmd) auto
  ultimately show ?thesis using assms(1) by (auto simp: worker_inv_def retry_ok_def retry_command)
qed

lemma worker_inv_start: "DasNetwork_new K register swarm registry config = Inr w \<Longrightarrow> worker_inv {} {} (run_start K w)"
  by (auto simp: DasNetwork_new_def run_start_def on_swarm_def worker_inv_def accounted_def accounted_chan_def spots_def place_def typed_def
      retry_ok_def Let_def case_prod_beta split: option.splits sum.splits)

lemma worker_reach_inv: "worker_reach K register I G w \<Longrightarrow> worker_inv I G w"
  by (induction rule: worker_reach.induct) (simp_all add: worker_inv_start worker_inv_event worker_inv_command)

section \<open>An outcome is final\<close>

lemma replies_event:
  assumes "accounted I w" and "dn_replies w c = Some out"
  shows "dn_replies (handle_swarm_event K e w) c = Some out"
proof (cases "release_of e")
  case None
  then show ?thesis using swarm_event_moves [where e = e and w = w and K = K] assms(2) by (simp add: same_channels_def)
next
  case (Some xo)
  obtain x f where "xo = (x, f)" by (cases xo)
  then have r: "released x f w (handle_swarm_event K e w)" using Some swarm_event_moves [where e = e and w = w and K = K] by simp
  show ?thesis
  proof (cases "place w x")
    case None
    then show ?thesis using r assms(2) by (simp add: released_def)
  next
    case (Some t)
    have "chan_of t \<noteq> c" using accountedD(4) [OF assms(1) Some] assms(2) by auto
    then show ?thesis using r Some assms(2) by (simp add: released_def)
  qed
qed

lemma replies_command:
  assumes "accounted I w" and "dn_replies w c = Some out" and "set_option (cmd_chan cmd) \<inter> I = {}"
  shows "dn_replies (handle_command K cmd w) c = Some out"
proof -
  let ?w = "handle_command K cmd w"
  note moves = command_moves [where K = K and cmd = cmd and w = w]
  have I: "c \<in> I" using accountedD(3) [OF assms(1)] assms(2) by auto
  have placed: "dn_replies ?w c = Some out" if "placed_new x s w ?w" for x s
  proof (cases "place w x")
    case (Some t)
    have "chan_of t \<noteq> c" using accountedD(4) [OF assms(1) Some] assms(2) by auto
    then show ?thesis using that Some assms(2) by (simp add: placed_new_def)
  qed (use that assms(2) in \<open>simp add: placed_new_def\<close>)
  have answered: "dn_replies ?w c = Some out" if "answered_new d o' w ?w" "d \<notin> I" for d o'
    using that I assms(2) by (auto simp: answered_new_def)
  show ?thesis using moves assms(2,3) placed answered
    by (cases cmd) (auto simp: same_channels_def split: sum.splits)
qed

fun get_chans :: "worker_input list \<Rightarrow> chan set" where
  "get_chans [] = {}"
| "get_chans (Ev _ # is) = get_chans is"
| "get_chans (Cmd cmd # is) = get_chan cmd \<union> get_chans is"

lemma run_loop_simps [simp]:
  "run_loop K [] w = w" "run_loop K (Ev e # is) w = run_loop K is (handle_swarm_event K e w)"
  "run_loop K (Cmd cmd # is) w = run_loop K is (handle_command K cmd w)"
  "run_loop K (is @ is') w = run_loop K is' (run_loop K is w)"
  by (simp_all add: run_loop_def)

lemma input_chans_Cmd: "set (input_chans (Cmd cmd # is)) = set_option (cmd_chan cmd) \<union> set (input_chans is)"
  by (simp split: option.split)

lemma fresh_inputs_simps [simp]:
  "fresh_inputs I []" "fresh_inputs I (Ev e # is) \<longleftrightarrow> fresh_inputs I is"
  "fresh_inputs I (Cmd cmd # is) \<longleftrightarrow> set_option (cmd_chan cmd) \<inter> I = {} \<and> fresh_inputs (set_option (cmd_chan cmd) \<union> I) is"
  by (auto simp: fresh_inputs_def split: option.splits)

lemma input_chans_append: "input_chans (is @ is') = input_chans is @ input_chans is'"
  by (induction "is" rule: input_chans.induct) (auto split: option.split)

lemma fresh_inputs_append: "fresh_inputs I (is @ is') \<longleftrightarrow> fresh_inputs I is \<and> fresh_inputs (set (input_chans is) \<union> I) is'"
  by (auto simp: fresh_inputs_def input_chans_append)

lemma run_loop_inv:
  "worker_inv I G w \<Longrightarrow> fresh_inputs I is \<Longrightarrow> worker_inv (set (input_chans is) \<union> I) (get_chans is \<union> G) (run_loop K is w)"
proof (induction "is" arbitrary: I G w)
  case (Cons i "is")
  show ?case
  proof (cases i)
    case (Ev e)
    then show ?thesis using Cons.IH [OF worker_inv_event [OF Cons.prems(1)]] Cons.prems(2) by simp
  next
    case (Cmd cmd)
    then show ?thesis using Cons.IH [OF worker_inv_command [OF Cons.prems(1)]] Cons.prems(2)
      by (simp add: input_chans_Cmd Un_ac del: input_chans.simps)
  qed
qed simp

lemma run_loop_replies:
  "worker_inv I G w \<Longrightarrow> fresh_inputs I is \<Longrightarrow> dn_replies w c = Some out \<Longrightarrow> dn_replies (run_loop K is w) c = Some out"
proof (induction "is" arbitrary: I G w)
  case (Cons i "is")
  have acc: "accounted I w" using Cons.prems(1) by (simp add: worker_inv_def)
  show ?case
  proof (cases i)
    case (Ev e)
    then show ?thesis using Cons.IH [OF worker_inv_event [OF Cons.prems(1)]] Cons.prems(2) replies_event [OF acc Cons.prems(3)] by simp
  next
    case (Cmd cmd)
    then show ?thesis using Cons.IH [OF worker_inv_command [OF Cons.prems(1)]] Cons.prems(2) replies_command [OF acc Cons.prems(3)] by simp
  qed
qed simp

lemma Collect_singleton: "\<exists>x. Collect P = {x} \<Longrightarrow> \<exists>!x. P x"
proof -
  assume "\<exists>x. Collect P = {x}"
  then obtain x where "Collect P = {x}" by blast
  then have "P y \<longleftrightarrow> y = x" for y by (simp add: set_eq_iff)
  then show ?thesis by (intro ex1I [of _ x]) simp_all
qed

text \<open>C17: No request to the network worker is lost or answered twice. In every state the worker reaches, by any commands and any events of the
  swarm, the channel of each command so far either waits at exactly one place, a query or a peer, or has its outcome and
  waits nowhere; an outcome never changes later; a request for records is answered with one record, an error or a
  cancellation and every other request with none; and no peer has more than three failed connections counted.\<close>

theorem worker_answers_once:
  assumes "worker_reach K register I G w"
  shows "(\<forall>c. if c \<in> I \<and> dn_replies w c = None then \<exists>!x. map_option chan_of (place w x) = Some c
            else \<forall>x. map_option chan_of (place w x) \<noteq> Some c) \<and>
     dom (dn_replies w) \<subseteq> I \<and>
     (\<forall>c out inputs. dn_replies w c = Some out \<longrightarrow> fresh_inputs I inputs \<longrightarrow> dn_replies (run_loop K inputs w) c = Some out) \<and>
     (\<forall>c rs. dn_replies w c = Some (Sent (Records rs)) \<longrightarrow> c \<in> G \<and> (\<forall>l. rs = Inr l \<longrightarrow> length l = 1)) \<and>
     (\<forall>c\<in>G. \<forall>r. dn_replies w c \<noteq> Some (Sent (Done r))) \<and>
     (\<forall>p n. dn_retry_counts w p = Some n \<longrightarrow> n \<le> 3)"
proof -
  have inv: "worker_inv I G w" using assms by (rule worker_reach_inv)
  then have a: "accounted_chan I w c" and t: "typed G w" and r: "retry_ok w" for c by (simp_all add: worker_inv_def accounted_def)
  have one: "if c \<in> I \<and> dn_replies w c = None then \<exists>!x. map_option chan_of (place w x) = Some c
            else \<forall>x. map_option chan_of (place w x) \<noteq> Some c" for c
  proof (cases "c \<in> I \<and> dn_replies w c = None")
    case True
    then have "\<exists>x. spots w c = {x}" using a [of c] by (simp add: accounted_chan_def)
    then have "\<exists>!x. map_option chan_of (place w x) = Some c" unfolding spots_def by (rule Collect_singleton)
    with True show ?thesis by (simp only: if_True simp_thms)
  next
    case False
    then have "spots w c = {}" using a [of c] unfolding accounted_chan_def by (simp only: if_False)
    then have "\<forall>x. map_option chan_of (place w x) \<noteq> Some c" unfolding spots_def by blast
    then show ?thesis unfolding if_not_P [OF False] .
  qed
  have dom: "dom (dn_replies w) \<subseteq> I" using accountedD(3) inv by (fastforce simp: worker_inv_def)
  have records: "c \<in> G \<and> (\<forall>l. rs = Inr l \<longrightarrow> length l = 1)" if "dn_replies w c = Some (Sent (Records rs))" for c rs
  proof -
    have "reply_ok (c \<in> G) (Sent (Records rs))" using t that by (simp add: typed_def)
    then show ?thesis by (simp add: reply_ok_def)
  qed
  have no_done: "dn_replies w c \<noteq> Some (Sent (Done r))" if "c \<in> G" for c r
  proof
    assume "dn_replies w c = Some (Sent (Done r))"
    then have "reply_ok (c \<in> G) (Sent (Done r))" using t by (simp add: typed_def)
    with that show False by (simp add: reply_ok_def)
  qed
  have retry: "n \<le> 3" if "dn_retry_counts w p = Some n" for p n using r that by (simp add: retry_ok_def MAX_RETRIES_def)
  show ?thesis by (intro conjI allI impI ballI one dom records no_done retry run_loop_replies [OF inv])
qed

text \<open>A swarm that numbers its queries.\<close>

definition counting_swarm :: "nat swarm_lib" where
  "counting_swarm =
     \<lparr> addr_parse = Some, addr_protocols = (\<lambda>_. []), peer_from_multihash = Some, kad_add_address = (\<lambda>_ _ k. k), kad_remove_address = (\<lambda>_ _ k. k),
       kad_remove_peer = (\<lambda>_ k. k), kad_bootstrap = (\<lambda>k. (Inr k, Suc k)), kad_get_record = (\<lambda>_ k. (k, Suc k)),
       kad_put_record = (\<lambda>_ _ k. (Inr k, Suc k)), store_remove = (\<lambda>_ k. k), swarm_listen_on = (\<lambda>_ k. (Inr (), k)), mdns_has_node = (\<lambda>_ _. False) \<rparr>"

definition counting_worker :: "nat DasNetwork" where
  "counting_worker =
     \<lparr> dn_swarm = 0, dn_output_senders = [], dn_query_id_receivers = Map.empty, dn_pending_routing = Map.empty, dn_retry_counts = Map.empty,
       dn_metrics = None, dn_known_addresses = [], dn_replies = Map.empty \<rparr>"

lemma counting_worker_reached: "worker_reach counting_swarm (\<lambda>_ r. (Inr (), r)) {} {} counting_worker"
proof -
  have "DasNetwork_new counting_swarm (\<lambda>_ r. (Inr (), r)) 0 None DasNetworkConfig_default = Inr counting_worker"
    by (simp add: DasNetwork_new_def DasNetworkConfig_default_def counting_swarm_def counting_worker_def)
  from worker_reach.start [OF this] show ?thesis by (simp add: run_start_def counting_worker_def)
qed

text \<open>A request for a record waits at its query until the record is found.\<close>

theorem worker_answers_once_witness:
  "(\<exists>!x. map_option chan_of (place (handle_command counting_swarm (GetKadRecord [1] 0) counting_worker) x) = Some 0) \<and>
   dn_replies (run_loop counting_swarm [Ev (KademliaEv (OutboundQueryProgressed 0 OtherResult))]
     (handle_swarm_event counting_swarm (KademliaEv (OutboundQueryProgressed 0 (GetRecordResult (FoundRecord \<lparr> rec_key = [1], rec_value = [7] \<rparr>))))
       (handle_command counting_swarm (GetKadRecord [1] 0) counting_worker))) 0 =
     Some (Sent (Records (Inr [\<lparr> rec_key = [1], rec_value = [7] \<rparr>])))"
proof -
  let ?e = "KademliaEv (OutboundQueryProgressed 0 (GetRecordResult (FoundRecord \<lparr> rec_key = [1], rec_value = [7] \<rparr>)))"
  let ?w = "handle_command counting_swarm (GetKadRecord [1] 0) counting_worker"
  have reach: "worker_reach counting_swarm (\<lambda>_ r. (Inr (), r)) {0} {0} ?w"
    using worker_reach.command [OF counting_worker_reached, of "GetKadRecord [1] 0"] by simp
  have receiver: "dn_query_id_receivers ?w = [0 \<mapsto> GetRecordSender 0]" "dn_replies ?w = Map.empty"
    by (simp_all add: handle_command_def counting_swarm_def counting_worker_def insert_receiver_def drop_sender_def count_request_def count_metrics_def)
  then have "dn_replies (handle_swarm_event counting_swarm ?e ?w) 0 = Some (Sent (Records (Inr [\<lparr> rec_key = [1], rec_value = [7] \<rparr>])))"
    using swarm_event_moves [where e = ?e and w = ?w and K = counting_swarm] by (simp add: released_def get_out_def get_record_reply_def)
  then show ?thesis
    using worker_answers_once [OF reach, THEN conjunct1, rule_format, of 0] receiver(2)
      worker_answers_once [OF worker_reach.event [OF reach, of ?e], THEN conjunct2, THEN conjunct2, THEN conjunct1, rule_format, of 0 _
        "[Ev (KademliaEv (OutboundQueryProgressed 0 OtherResult))]"]
    by (simp add: fresh_inputs_def)
qed

end
