(* ===== verification/Extend_Col.thy ===== *)
theory Extend_Col
  imports Erasure "HOL-Library.Multiset"
begin

text \<open>
  The extension of a column of segments (\<open>crates/melo-erasure-coding/src/extend_col.rs\<close>).
\<close>

section \<open>Extension of a column (extend\_col.rs)\<close>

definition extend_segments_col ::
  "('fr, 'g1, 'g2, 'fs, 'fk) kzg_lib \<Rightarrow> 'fs \<Rightarrow> ('fr, 'g1) Segment list \<Rightarrow> ('fr, 'g1) Segment list res" where
  "extend_segments_col L fs segments =
     (let k = length segments in
      if k = 0 then Inr []
      else
        let x = pos_x (position (segments ! 0));
            segment_size = Segment_size (segments ! 0) in
        if list_ex (\<lambda>s. pos_x (position s) \<noteq> x) segments
        then Inl (Err ''segments are not from the same column'')
        else if \<not> is_power_of_two k \<or> \<not> is_power_of_two segment_size
        then Inl (Err ''number of segments and segment size must be powers of two'')
        else
          let mut_segments = sort_key (\<lambda>s. pos_y (position s)) segments;
              kept = map snd (filter (\<lambda>(i, s). pos_x (position s) = x \<and> i = unat (pos_y (position s)) \<and>
                                               Segment_size s = segment_size) (enumerate0 mut_segments));
              proofs = map (\<lambda>s. sd_proof (content s)) kept;
              sorted_rows = concat (map (\<lambda>s. sd_data (content s)) kept) in
          if length sorted_rows \<noteq> k * segment_size
          then Inl (Err ''mismatch in the number of elements after sorting'')
          else res_bind (extend_fs_g1 L fs proofs) (\<lambda>extended_proofs.
               res_bind (traverse (\<lambda>i. extend L fs (step_by segment_size (drop i sorted_rows))) [0..<segment_size])
                 (\<lambda>extended_cols.
               traverse (\<lambda>(i, proof).
                   res_map (\<lambda>dat. \<lparr> position = \<lparr> pos_x = x, pos_y = of_nat (i + k) \<rparr>,
                                   content = \<lparr> sd_data = dat, sd_proof = proof \<rparr> \<rparr>)
                     (traverse (\<lambda>col. index_res col i) extended_cols))
                 (enumerate0 (step_by 2 (drop 1 extended_proofs))))))"

section \<open>Properties\<close>

lemma step_by_blocks:
  assumes "\<And>b. b \<in> set bs \<Longrightarrow> length b = w" and "j < w"
  shows "step_by w (drop j (concat bs)) = map (\<lambda>b. b ! j) bs"
proof -
  have w: "0 < w" using assms(2) by simp
  have len: "length (concat bs) = length bs * w" using assms(1) by (rule length_concat_const)
  show ?thesis
  proof (rule nth_equalityI)
    show "length (step_by w (drop j (concat bs))) = length (map (\<lambda>b. b ! j) bs)"
    proof (cases "bs = []")
      case False
      then have "length bs * w - j + w - 1 = (w - 1 - j) + length bs * w" using assms(2) by (cases bs) auto
      also have "\<dots> div w = length bs + (w - 1 - j) div w" using w by (intro div_mult_self1) simp
      finally have "(length bs * w - j + w - 1) div w = length bs" using w by simp
      then show ?thesis using len w by (simp add: length_step_by)
    qed simp
    fix i
    assume "i < length (step_by w (drop j (concat bs)))"
    then have i: "i < length bs" using \<open>length (step_by w (drop j (concat bs))) = length (map (\<lambda>b. b ! j) bs)\<close> by simp
    then have "i * w + j < length bs * w"
      using assms(2) by (metis Suc_leI add.commute add_less_cancel_right less_le_trans mult_Suc mult_le_mono1 nat_add_left_cancel_less)
    then have lt: "i * w < length (drop j (concat bs))" using len by simp
    have "step_by w (drop j (concat bs)) ! i = concat bs ! (i * w + j)"
      using nth_step_by [OF w lt] lt by (simp add: add.commute)
    then show "step_by w (drop j (concat bs)) ! i = map (\<lambda>b. b ! j) bs ! i"
      using nth_concat_const [of bs w i j] assms i by simp
  qed
qed

text \<open>C20: A column of segments in any order is extended by as many segments below it: same column,
  rows numbered on from the last one, and in every one the data are the corresponding entries of the
  extension of each scalar column and the proof is the odd-indexed entry of the extended proofs. The
  order in which the segments were given does not matter.\<close>

theorem extend_segments_col_correct:
  assumes "0 < k" and "is_power_of_two k" and "is_power_of_two sz" and "k \<le> 2 ^ 32"
    and "mset segments = mset (map R [0..<k])"
    and "\<forall>i < k. position (R i) = \<lparr> pos_x = x, pos_y = of_nat i \<rparr> \<and> length (sd_data (content (R i))) = sz"
    and "extend_fs_g1 L fs (map (\<lambda>i. sd_proof (content (R i))) [0..<k]) = Inr eps" and "length eps = 2 * k"
    and "\<forall>j < sz. extend L fs (map (\<lambda>i. sd_data (content (R i)) ! j) [0..<k]) = Inr (E j) \<and> length (E j) = k"
  shows "extend_segments_col L fs segments =
     Inr (map (\<lambda>i. \<lparr> position = \<lparr> pos_x = x, pos_y = of_nat (i + k) \<rparr>,
                     content = \<lparr> sd_data = map (\<lambda>j. E j ! i) [0..<sz], sd_proof = eps ! (2 * i + 1) \<rparr> \<rparr>) [0..<k])"
proof -
  have sz: "0 < sz" using assms(3) by (rule is_power_of_two_pos)
  have len: "length segments = k" using arg_cong [OF assms(5), of size] by simp
  have set: "set segments = R ` {..<k}" using arg_cong [OF assms(5), of set_mset] by (simp add: atLeast0LessThan)
  have each: "pos_x (position s) = x \<and> Segment_size s = sz" if "s \<in> set segments" for s
    using that set assms(6) by (auto simp: Segment_size_def)
  have first: "segments ! 0 \<in> set segments" using len assms(1) by (intro nth_mem) simp
  have y: "unat (pos_y (position (R i))) = i" if "i < k" for i
    using that assms(4,6) by (simp add: less_le_trans)
  have "inj_on (\<lambda>s. pos_y (position s)) (set segments)"
    using y set by (auto intro!: inj_onI) (metis)
  moreover have "sorted (map (\<lambda>s. pos_y (position s)) (map R [0..<k]))"
    using y assms(6) by (auto simp: sorted_iff_nth_mono word_le_nat_alt)
  ultimately have sorted: "sort_key (\<lambda>s. pos_y (position s)) segments = map R [0..<k]"
    using assms(5) by (intro sort_key_inj_key_eq) auto
  have kept: "filter (\<lambda>(i, s). pos_x (position s) = x \<and> i = unat (pos_y (position s)) \<and> Segment_size s = sz)
      (enumerate0 (map R [0..<k])) = enumerate0 (map R [0..<k])"
    using y assms(6) by (intro filter_True) (auto simp: set_enumerate0 Segment_size_def)
  let ?D = "map (\<lambda>i. sd_data (content (R i))) [0..<k]"
  have D: "\<And>b. b \<in> set ?D \<Longrightarrow> length b = sz" using assms(6) by auto
  have lenD: "length (concat ?D) = k * sz" using length_concat_const [of ?D sz] D by simp
  have col: "step_by sz (drop j (concat ?D)) = map (\<lambda>i. sd_data (content (R i)) ! j) [0..<k]" if "j < sz" for j
    using step_by_blocks [of ?D sz j] D that by (simp add: comp_def)
  have cols: "traverse (\<lambda>j. extend L fs (step_by sz (drop j (concat ?D)))) [0..<sz] = Inr (map E [0..<sz])"
    using assms(9) col by (intro traverse_all_Inr) simp
  have odds: "length (step_by 2 (drop 1 eps)) = k" "\<And>i. i < k \<Longrightarrow> step_by 2 (drop 1 eps) ! i = eps ! (2 * i + 1)"
    using assms(1,8) nth_step_by [of 2 _ "drop 1 eps"] by (auto simp: length_step_by mult.commute)
  have out: "traverse (\<lambda>(i, proof).
         res_map (\<lambda>dat. \<lparr> position = \<lparr> pos_x = x, pos_y = of_nat (i + k) \<rparr>, content = \<lparr> sd_data = dat, sd_proof = proof \<rparr> \<rparr>)
           (traverse (\<lambda>col. index_res col i) (map E [0..<sz]))) (enumerate0 (step_by 2 (drop 1 eps)))
     = Inr (map (\<lambda>i. \<lparr> position = \<lparr> pos_x = x, pos_y = of_nat (i + k) \<rparr>,
              content = \<lparr> sd_data = map (\<lambda>j. E j ! i) [0..<sz], sd_proof = eps ! (2 * i + 1) \<rparr> \<rparr>) [0..<k])"
  proof -
    have "traverse (\<lambda>col. index_res col i) (map E [0..<sz]) = Inr (map (\<lambda>j. E j ! i) [0..<sz])" if "i < k" for i
      using assms(9) that by (simp add: traverse_Inr_iff)
    then show ?thesis using odds by (subst traverse_Inr_iff) simp
  qed
  show ?thesis
    using len assms(1-3,7) each first sorted kept lenD cols out
      map_snd_enumerate0 [of "\<lambda>s. sd_data (content s)" "map R [0..<k]"]
      map_snd_enumerate0 [of "\<lambda>s. sd_proof (content s)" "map R [0..<k]"]
    by (simp add: extend_segments_col_def Let_def list_ex_iff comp_def)
qed

theorem extend_segments_col_correct_witness:
  "extend_segments_col sample_lib 4096 [Segment_new \<lparr> pos_x = 5, pos_y = 0 \<rparr> [[1], [2]] [[3]]] =
     Inr [Segment_new \<lparr> pos_x = 5, pos_y = 1 \<rparr> [[1], [2]] [[3]]]"
  using extend_segments_col_correct [of 1 2 "[Segment_new \<lparr> pos_x = 5, pos_y = 0 \<rparr> [[1], [2]] [[3]]]"
      "\<lambda>_. Segment_new \<lparr> pos_x = 5, pos_y = 0 \<rparr> [[1], [2]] [[3]]" 5 sample_lib 4096 "[[[3]], [[3]]]"
      "\<lambda>j. [[[1], [2]] ! j]"]
  by (simp add: Segment_new_def is_power_of_two.simps extend_fs_g1_def extend_def sample_lib_def resize_def
      numeral_2_eq_2)

end
