(* ===== verification/Daser.thy ===== *)
theory Daser
  imports Reliability Extend_Col Sidecar Das_Network
begin

text \<open>
  The crate \<open>daser\<close>: the keys under which segments are kept in the network, fetching and checking them (network.rs), the
  sampling client with its database (client.rs), and what it does on new transactions, best blocks and finalised
  blocks (tx\_pool\_handler.rs). The client is written for the four operations of
  the network service it calls, with that service on a distributed hash table as their instance; a function that may panic gives a failure.
\<close>

section \<open>What the client is given\<close>

record 'n das_net =
  net_get_value :: "'n \<Rightarrow> bytes \<Rightarrow> string + bytes list"
  net_get_values :: "'n \<Rightarrow> bytes list \<Rightarrow> string + bytes list option list"
  net_put_values :: "'n \<Rightarrow> (bytes \<times> bytes) list \<Rightarrow> (string + unit) \<times> 'n"
  net_remove_records :: "'n \<Rightarrow> bytes list \<Rightarrow> (string + unit) \<times> 'n"

text \<open>The service of das-network once its requests are answered: the hash table, a parameter, answers a lookup with its first result and a put with
  success or failure. \<open>put_values\<close> discards the results of the puts.\<close>

record 'd kad_dht =
  dht_get :: "bytes \<Rightarrow> 'd \<Rightarrow> GetRecordResult"
  dht_put :: "KadRecord \<Rightarrow> Quorum \<Rightarrow> 'd \<Rightarrow> (string + unit) \<times> 'd"
  dht_remove :: "bytes \<Rightarrow> 'd \<Rightarrow> 'd"

fun put_all :: "'d kad_dht \<Rightarrow> (bytes \<times> bytes) list \<Rightarrow> 'd \<Rightarrow> (string + unit) list \<times> 'd" where
  "put_all H [] d = ([], d)"
| "put_all H ((key, v) # kvs) d =
     (let (r, d1) = dht_put H \<lparr> rec_key = key, rec_value = v \<rparr> All d; (rs, d2) = put_all H kvs d1 in (r # rs, d2))"

definition service_net :: "'d kad_dht \<Rightarrow> 'd das_net" where
  "service_net H =
     \<lparr> net_get_value = \<lambda>d key. values_of (get_record_reply (dht_get H key d)),
       net_get_values = \<lambda>d record_keys. Inr (map (\<lambda>key. case values_of (get_record_reply (dht_get H key d)) of Inr v \<Rightarrow> Some v | Inl _ \<Rightarrow> None) record_keys),
       net_put_values = \<lambda>d kvs. (Inr (), snd (put_all H kvs d)),
       net_remove_records = \<lambda>d record_keys. (Inr (), fold (dht_remove H) record_keys d) \<rparr>"

text \<open>The hash table as a map from keys to values.\<close>

definition map_dht :: "(bytes \<rightharpoonup> bytes) kad_dht" where
  "map_dht =
     \<lparr> dht_get = \<lambda>key d. (case d key of Some v \<Rightarrow> FoundRecord \<lparr> rec_key = key, rec_value = v \<rparr> | None \<Rightarrow> FinishedWithNoAdditionalRecord),
       dht_put = \<lambda>rc _ d. (Inr (), d(rec_key rc \<mapsto> rec_value rc)), dht_remove = \<lambda>key d. d(key := None) \<rparr>"

record ('fr, 'g1, 'h, 'd) daser_codecs =
  pos_codec :: "Position codec"
  sd_codec :: "('fr, 'g1) SegmentData codec"
  header_hash_bytes :: "('h, 'd) Header \<Rightarrow> bytes"
  rel_codec :: "'g1 Reliability codec"
  lpb_codec :: "LastProcessedBlock codec"
  number_codec :: "u32 codec"

definition of_net :: "string + 'a \<Rightarrow> 'a res" where
  "of_net r = (case r of Inl e \<Rightarrow> Inl (Err e) | Inr x \<Rightarrow> Inr x)"

section \<open>Checking values (network.rs 560 to 653)\<close>

fun verify_values ::
  "('fr, 'g1, 'g2, 'fs, 'fk) kzg_lib \<Rightarrow> ('fr, 'g1) SegmentData codec \<Rightarrow> ('g1, 'g2, 'fs) KZG \<Rightarrow> bytes list \<Rightarrow> 'g1 \<Rightarrow> Position
    \<Rightarrow> ('fr, 'g1) Segment option res" where
  "verify_values L sdc kzg [] commitment pos = Inr None"
| "verify_values L sdc kzg (v # vs) commitment pos =
     (case decode sdc v of
        None \<Rightarrow> verify_values L sdc kzg vs commitment pos
      | Some segment_data \<Rightarrow>
          let segment = \<lparr> position = pos, content = segment_data \<rparr> in
          (case Segment_checked segment of
             Inl _ \<Rightarrow> verify_values L sdc kzg vs commitment pos
           | Inr checked_segment \<Rightarrow>
               (case Segment_verify L checked_segment kzg commitment SEGMENTS_PER_BLOB of
                  Inl (Panic m) \<Rightarrow> Inl (Panic m)
                | Inl _ \<Rightarrow> verify_values L sdc kzg vs commitment pos
                | Inr vd \<Rightarrow>
                    if vd \<and> position segment = pos then Inr (Some segment)
                    else verify_values L sdc kzg vs commitment pos)))"

definition verify_opt ::
  "('fr, 'g1, 'g2, 'fs, 'fk) kzg_lib \<Rightarrow> ('fr, 'g1) SegmentData codec \<Rightarrow> ('g1, 'g2, 'fs) KZG \<Rightarrow> bytes list option \<Rightarrow> 'g1 \<Rightarrow> Position
    \<Rightarrow> ('fr, 'g1) Segment option res" where
  "verify_opt L sdc kzg vals commitment pos =
     (case vals of Some vs \<Rightarrow> verify_values L sdc kzg vs commitment pos | None \<Rightarrow> Inr None)"

definition some_count :: "'a option list \<Rightarrow> nat" where
  "some_count xs = length (filter (\<lambda>x. x \<noteq> None) xs)"

definition rows_values_handler ::
  "('fr, 'g1, 'g2, 'fs, 'fk) kzg_lib \<Rightarrow> ('fr, 'g1) SegmentData codec \<Rightarrow> ('g1, 'g2, 'fs) KZG \<Rightarrow> bytes list option list \<Rightarrow> nat \<Rightarrow> 'g1
    \<Rightarrow> (('fr, 'g1) Segment option list \<times> bool) res" where
  "rows_values_handler L sdc kzg row y commitment =
     res_bind (traverse (\<lambda>(x, vals). verify_opt L sdc kzg vals commitment \<lparr> pos_x = of_nat x, pos_y = of_nat y \<rparr>)
                 (enumerate0 row)) (\<lambda>segments.
     let is_availability = some_count segments \<ge> length segments div 2;
         needs_recovery = is_availability \<and> some_count segments < length segments
     in if needs_recovery
        then (case recovery_order_row_from_segments L segments kzg of
                Inr recovered_segments \<Rightarrow> Inr (map Some recovered_segments, is_availability)
              | Inl (Panic m) \<Rightarrow> Inl (Panic m)
              | Inl _ \<Rightarrow> Inr (segments, False))
        else Inr (segments, is_availability))"

fun rows_loop ::
  "('fr, 'g1, 'g2, 'fs, 'fk) kzg_lib \<Rightarrow> ('fr, 'g1) SegmentData codec \<Rightarrow> ('g1, 'g2, 'fs) KZG \<Rightarrow> 'g1 list \<Rightarrow> bool
    \<Rightarrow> (nat \<times> bytes list option list) list \<Rightarrow> (('fr, 'g1) Segment option list \<times> bool) res" where
  "rows_loop L sdc kzg commitments stop [] = Inr ([], True)"
| "rows_loop L sdc kzg commitments stop ((y, chunk) # rest) =
     res_bind (index_res commitments y) (\<lambda>commitment.
     res_bind (rows_values_handler L sdc kzg chunk y commitment) (\<lambda>(segments, availability).
     if \<not> availability \<and> stop then Inr (segments, False)
     else res_map (\<lambda>(more, is_availability). (segments @ more, is_availability)) (rows_loop L sdc kzg commitments stop rest)))"

definition rows_values_set_handler ::
  "('fr, 'g1, 'g2, 'fs, 'fk) kzg_lib \<Rightarrow> ('fr, 'g1) SegmentData codec \<Rightarrow> bytes list option list \<Rightarrow> 'g1 list \<Rightarrow> ('g1, 'g2, 'fs) KZG
    \<Rightarrow> bool \<Rightarrow> (('fr, 'g1) Segment option list \<times> bool) res" where
  "rows_values_set_handler L sdc values_set commitments kzg stop_on_unavailability =
     (if values_set = [] \<or> commitments = [] then Inr ([], True)
      else rows_loop L sdc kzg commitments stop_on_unavailability (enumerate0 (chunks EXTENDED_SEGMENTS_PER_BLOB values_set)))"

fun cols_loop ::
  "('fr, 'g1, 'g2, 'fs, 'fk) kzg_lib \<Rightarrow> ('fr, 'g1) SegmentData codec \<Rightarrow> ('g1, 'g2, 'fs) KZG \<Rightarrow> 'g1 list \<Rightarrow> bool
    \<Rightarrow> (nat \<times> bytes list option list) list \<Rightarrow> nat list \<Rightarrow> bool \<Rightarrow> (('fr, 'g1) Segment option list \<times> nat list \<times> bool) res" where
  "cols_loop L sdc kzg commitments stop [] need_reconstruct is_availability = Inr ([], need_reconstruct, is_availability)"
| "cols_loop L sdc kzg commitments stop ((x, column_values) # rest) need_reconstruct is_availability =
     (if \<not> is_availability \<and> stop
      then res_map (\<lambda>(more, r). (replicate EXTENDED_SEGMENTS_PER_BLOB None @ more, r))
             (cols_loop L sdc kzg commitments stop rest need_reconstruct is_availability)
      else res_bind (traverse (\<lambda>(y, vals). case vals of
               None \<Rightarrow> Inr None
             | Some vs \<Rightarrow> res_bind (index_res commitments y) (\<lambda>c.
                 verify_values L sdc kzg vs c \<lparr> pos_x = of_nat x, pos_y = of_nat y \<rparr>)) (enumerate0 column_values)) (\<lambda>segments.
           let available_segments = some_count segments;
               (nr, av) = (if available_segments \<ge> length commitments
                           then (if available_segments < length commitments * 2 then need_reconstruct @ [x] else need_reconstruct,
                                 is_availability)
                           else (need_reconstruct, False))
           in res_map (\<lambda>(more, r). (segments @ more, r)) (cols_loop L sdc kzg commitments stop rest nr av)))"

definition cols_values_set_handler ::
  "('fr, 'g1, 'g2, 'fs, 'fk) kzg_lib \<Rightarrow> ('fr, 'g1) SegmentData codec \<Rightarrow> bytes list option list \<Rightarrow> 'g1 list \<Rightarrow> ('g1, 'g2, 'fs) KZG
    \<Rightarrow> bool \<Rightarrow> (('fr, 'g1) Segment option list \<times> nat list \<times> bool) res" where
  "cols_values_set_handler L sdc values_set commitments kzg stop_on_unavailability =
     (if values_set = [] \<or> commitments = [] then Inr ([], [], False)
      else let segments_per_col = length commitments; segments_per_col_exted = segments_per_col * 2 in
           cols_loop L sdc kzg commitments stop_on_unavailability (enumerate0 (chunks segments_per_col_exted values_set)) [] True)"

section \<open>Keys (network.rs 255 to 361)\<close>

definition prepare_keys :: "('fr, 'g1, 'h, 'd) daser_codecs \<Rightarrow> ('h, 'd) Header \<Rightarrow> bytes list" where
  "prepare_keys D header =
     concat (map (\<lambda>app_lookup.
       concat (map (\<lambda>x. map (\<lambda>y. sample_key (pos_codec D) (al_app_id app_lookup) (al_nonce app_lookup)
                                     \<lparr> pos_x = of_nat x, pos_y = of_nat y \<rparr>)
                            [0..<unat (al_count app_lookup)])
                   [0..<EXTENDED_SEGMENTS_PER_BLOB]))
       (ext_app_lookup (hdr_extension header)))"

definition app_row_key :: "('fr, 'g1, 'h, 'd) daser_codecs \<Rightarrow> ('h, 'd) Header \<Rightarrow> string \<Rightarrow> Position \<Rightarrow> bytes res" where
  "app_row_key D header msg pos =
     (case HeaderExtension_get_lookup (hdr_extension header) (pos_y pos) of
        Some (app_lookup, _) \<Rightarrow> Inr (sample_key (pos_codec D) (al_app_id app_lookup) (al_nonce app_lookup) pos)
      | None \<Rightarrow> Inl (Err msg))"

definition prepare_rows_keys ::
  "('fr, 'g1, 'h, 'd) daser_codecs \<Rightarrow> ('h, 'd) Header \<Rightarrow> u32 list \<Rightarrow> u32 \<Rightarrow> bytes list res" where
  "prepare_rows_keys D header index row_count =
     (if index = [] then Inr []
      else res_map concat (traverse (\<lambda>y.
             if y < row_count
             then traverse (\<lambda>x. app_row_key D header ''prepare_cols_keys: get_lookup failed'' \<lparr> pos_x = of_nat x, pos_y = y \<rparr>)
                    [0..<EXTENDED_SEGMENTS_PER_BLOB]
             else if y \<ge> row_count * 2 then Inl (Err ''prepare_cols_keys: idx is too large'')
             else Inr (map (\<lambda>x. sample_key_from_block (pos_codec D) (header_hash_bytes D header) \<lparr> pos_x = of_nat x, pos_y = y \<rparr>)
                        [0..<EXTENDED_SEGMENTS_PER_BLOB])) index))"

definition column_keys :: "('fr, 'g1, 'h, 'd) daser_codecs \<Rightarrow> ('h, 'd) Header \<Rightarrow> u32 \<Rightarrow> u32 \<Rightarrow> bytes list res" where
  "column_keys D header row_count x =
     res_bind (traverse (\<lambda>y. app_row_key D header ''prepare_rows_keys: get_lookup failed'' \<lparr> pos_x = x, pos_y = of_nat y \<rparr>)
                 [0..<unat row_count]) (\<lambda>own.
     let extended = map (\<lambda>y. sample_key_from_block (pos_codec D) (header_hash_bytes D header) \<lparr> pos_x = x, pos_y = of_nat y \<rparr>)
                      [unat row_count..<unat (row_count * 2)]
     in if x > of_nat EXTENDED_SEGMENTS_PER_BLOB then Inl (Err ''prepare_rows_keys: idx is too large'')
        else Inr (own @ extended))"

definition prepare_cols_keys ::
  "('fr, 'g1, 'h, 'd) daser_codecs \<Rightarrow> ('h, 'd) Header \<Rightarrow> u32 list \<Rightarrow> u32 \<Rightarrow> bytes list res" where
  "prepare_cols_keys D header index row_count =
     (if index = [] then Inr [] else res_map concat (traverse (column_keys D header row_count) index))"

section \<open>Operations on the network (network.rs 374 to 510)\<close>

definition put_ext_segments ::
  "('fr, 'g1, 'h, 'd) daser_codecs \<Rightarrow> 'n das_net \<Rightarrow> ('fr, 'g1) Segment list \<Rightarrow> ('h, 'd) Header \<Rightarrow> 'n \<Rightarrow> unit res \<times> 'n" where
  "put_ext_segments D net segments header n =
     (let vals = map (\<lambda>segment. (sample_key_from_block (pos_codec D) (header_hash_bytes D header) (position segment),
                                 encode (sd_codec D) (content segment))) segments
      in map_prod of_net id (net_put_values net n vals))"

definition put_app_segments ::
  "('fr, 'g1, 'h, 'd) daser_codecs \<Rightarrow> 'n das_net \<Rightarrow> ('fr, 'g1) Segment list \<Rightarrow> u32 \<Rightarrow> u32 \<Rightarrow> 'n \<Rightarrow> unit res \<times> 'n" where
  "put_app_segments D net segments app_id nonce n =
     (let vals = map (\<lambda>segment. (sample_key (pos_codec D) app_id nonce (position segment), encode (sd_codec D) (content segment))) segments
      in map_prod of_net id (net_put_values net n vals))"

definition put_bytes ::
  "('fr, 'g1, 'g2, 'fs, 'fk) kzg_lib \<Rightarrow> ('fr, 'g1, 'h, 'd) daser_codecs \<Rightarrow> 'n das_net \<Rightarrow> ('g1, 'g2, 'fs) KZG \<Rightarrow> bytes \<Rightarrow> u32 \<Rightarrow> u32
    \<Rightarrow> 'n \<Rightarrow> unit res \<times> 'n" where
  "put_bytes L D net kzg bs app_id nonce n =
     (case bytes_to_segments L bs FIELD_ELEMENTS_PER_BLOB FIELD_ELEMENTS_PER_SEGMENT kzg of
        Inl e \<Rightarrow> (Inl e, n)
      | Inr segments \<Rightarrow> put_app_segments D net segments app_id nonce n)"

definition fetch_value ::
  "('fr, 'g1, 'g2, 'fs, 'fk) kzg_lib \<Rightarrow> ('fr, 'g1, 'h, 'd) daser_codecs \<Rightarrow> 'n das_net \<Rightarrow> ('g1, 'g2, 'fs) KZG \<Rightarrow> 'n \<Rightarrow> bytes
    \<Rightarrow> Position \<Rightarrow> 'g1 \<Rightarrow> ('fr, 'g1) SegmentData option res" where
  "fetch_value L D net kzg n key pos commitment =
     (case net_get_value net n key of
        Inl _ \<Rightarrow> Inr None
      | Inr vals \<Rightarrow> res_map (map_option content) (verify_values L (sd_codec D) kzg vals commitment pos))"

definition fetch_segment_data ::
  "('fr, 'g1, 'g2, 'fs, 'fk) kzg_lib \<Rightarrow> ('fr, 'g1, 'h, 'd) daser_codecs \<Rightarrow> 'n das_net \<Rightarrow> ('g1, 'g2, 'fs) KZG \<Rightarrow> 'n \<Rightarrow> u32 \<Rightarrow> u32
    \<Rightarrow> Position \<Rightarrow> 'g1 \<Rightarrow> ('fr, 'g1) SegmentData option res" where
  "fetch_segment_data L D net kzg n app_id nonce pos commitment =
     fetch_value L D net kzg n (sample_key (pos_codec D) app_id nonce pos) pos commitment"

definition fetch_sample ::
  "('fr, 'g1, 'g2, 'fs, 'fk) kzg_lib \<Rightarrow> ('fr, 'g1, 'h, 'd) daser_codecs \<Rightarrow> 'n das_net \<Rightarrow> ('g1, 'g2, 'fs) KZG \<Rightarrow> 'n \<Rightarrow> Sample \<Rightarrow> 'g1
    \<Rightarrow> ('fr, 'g1) SegmentData option res" where
  "fetch_sample L D net kzg n sample commitment = fetch_value L D net kzg n (sample_id sample) (sample_position sample) commitment"

definition header_rows_or ::
  "('fr, 'g1, 'g2, 'fs, 'fk) kzg_lib \<Rightarrow> ('h, 'd) Header \<Rightarrow> 'g1 list res" where
  "header_rows_or L header = ok_or (Err ''Header does not contain commitments.'') (Header_commitments L header)"

definition fetch_block ::
  "('fr, 'g1, 'g2, 'fs, 'fk) kzg_lib \<Rightarrow> ('fr, 'g1, 'h, 'd) daser_codecs \<Rightarrow> 'n das_net \<Rightarrow> ('g1, 'g2, 'fs) KZG \<Rightarrow> 'n \<Rightarrow> ('h, 'd) Header
    \<Rightarrow> (('fr, 'g1) Segment option list \<times> bool) res" where
  "fetch_block L D net kzg n header =
     res_bind (header_rows_or L header) (\<lambda>commitments.
     res_bind (of_net (net_get_values net n (prepare_keys D header))) (\<lambda>values_set.
     rows_values_set_handler L (sd_codec D) values_set commitments kzg True))"

definition fetch_rows ::
  "('fr, 'g1, 'g2, 'fs, 'fk) kzg_lib \<Rightarrow> ('fr, 'g1, 'h, 'd) daser_codecs \<Rightarrow> 'n das_net \<Rightarrow> ('g1, 'g2, 'fs) KZG \<Rightarrow> 'n \<Rightarrow> ('h, 'd) Header
    \<Rightarrow> u32 list \<Rightarrow> (('fr, 'g1) Segment option list \<times> bool) res" where
  "fetch_rows L D net kzg n header index =
     res_bind (header_rows_or L header) (\<lambda>commitments.
     res_bind (extend_and_reorder_elements L (KZG_get_fs kzg) commitments) (\<lambda>commits_exted.
     res_bind (prepare_rows_keys D header index (of_nat (length commitments))) (\<lambda>row_keys.
     res_bind (of_net (net_get_values net n row_keys)) (\<lambda>values_set.
     rows_values_set_handler L (sd_codec D) values_set commits_exted kzg False))))"

definition fetch_cols ::
  "('fr, 'g1, 'g2, 'fs, 'fk) kzg_lib \<Rightarrow> ('fr, 'g1, 'h, 'd) daser_codecs \<Rightarrow> 'n das_net \<Rightarrow> ('g1, 'g2, 'fs) KZG \<Rightarrow> 'n \<Rightarrow> ('h, 'd) Header
    \<Rightarrow> u32 list \<Rightarrow> (('fr, 'g1) Segment option list \<times> nat list \<times> bool) res" where
  "fetch_cols L D net kzg n header index =
     res_bind (header_rows_or L header) (\<lambda>commitments.
     res_bind (extend_and_reorder_elements L (KZG_get_fs kzg) commitments) (\<lambda>commits_exted.
     res_bind (prepare_cols_keys D header index (of_nat (length commitments))) (\<lambda>col_keys.
     res_bind (of_net (net_get_values net n col_keys)) (\<lambda>values_set.
     cols_values_set_handler L (sd_codec D) values_set commits_exted kzg False))))"

definition remove_records :: "'n das_net \<Rightarrow> bytes list \<Rightarrow> 'n \<Rightarrow> unit res \<times> 'n" where
  "remove_records net record_keys n = map_prod of_net id (net_remove_records net n record_keys)"

section \<open>The sampling client (client.rs)\<close>

definition LAST_AT_KEY :: bytes where
  "LAST_AT_KEY = str_bytes ''sampled_at_last_block''"

definition client_sample ::
  "('fr, 'g1, 'g2, 'fs, 'fk) kzg_lib \<Rightarrow> ('fr, 'g1, 'h, 'd) daser_codecs \<Rightarrow> 'n das_net \<Rightarrow> ('g1, 'g2, 'fs) KZG \<Rightarrow> 'n \<Rightarrow> 's DasKv
    \<Rightarrow> bytes \<Rightarrow> 'g1 Reliability \<Rightarrow> 'g1 list \<Rightarrow> 's \<Rightarrow> 's res" where
  "client_sample L D net kzg n kv confidence_id confidence commitments db =
     res_map (\<lambda>fetched. Reliability_save kv (rel_codec D)
                (confidence\<lparr> samples := fetched @ drop (length commitments) (samples confidence) \<rparr>) confidence_id db)
       (traverse (\<lambda>(sample, commitment).
            res_map (\<lambda>found. if found \<noteq> None then Sample_set_success sample else sample)
              (fetch_sample L D net kzg n sample commitment))
          (zip (samples confidence) commitments))"

definition set_last_at ::
  "('fr, 'g1, 'h, 'd) daser_codecs \<Rightarrow> 's DasKv \<Rightarrow> u32 \<Rightarrow> bytes \<Rightarrow> 's \<Rightarrow> 's" where
  "set_last_at D kv latest block_hash db =
     (let should_update = (case kv_get kv db LAST_AT_KEY of
            Some bs \<Rightarrow> (case decode (number_codec D) bs of Some current_last \<Rightarrow> latest > current_last | None \<Rightarrow> True)
          | None \<Rightarrow> True)
      in if should_update
         then kv_set kv db LATEST_PROCESSED_BLOCK_KEY
                (encode (lpb_codec D) \<lparr> lpb_block_num = latest, lpb_block_hash = block_hash \<rparr>)
         else db)"

definition last_at :: "('fr, 'g1, 'h, 'd) daser_codecs \<Rightarrow> 's DasKv \<Rightarrow> 's \<Rightarrow> u32" where
  "last_at D kv db =
     (case Option.bind (kv_get kv db LAST_AT_KEY) (decode (number_codec D)) of Some v \<Rightarrow> v | None \<Rightarrow> 0)"

text \<open>The random draws of a sampling are an argument; \<open>None\<close> is a loop that has not ended with them.\<close>

definition sample_application ::
  "('fr, 'g1, 'g2, 'fs, 'fk) kzg_lib \<Rightarrow> ('fr, 'g1, 'h, 'd) daser_codecs \<Rightarrow> 'n das_net \<Rightarrow> ('g1, 'g2, 'fs) KZG \<Rightarrow> 'n \<Rightarrow> 's DasKv
    \<Rightarrow> u32 \<Rightarrow> u32 \<Rightarrow> 'g1 list \<Rightarrow> (nat \<times> nat) list \<Rightarrow> 's \<Rightarrow> 's res option" where
  "sample_application L D net kzg n kv app_id nonce commitments draws db =
     (let cid = app_confidence app_id nonce;
          confidence = Reliability_new App commitments;
          blob_num = length commitments;
          app_lookups = [\<lparr> al_app_id = app_id, al_nonce = nonce, al_count = of_nat blob_num \<rparr>]
      in map_option (\<lambda>r. res_bind r (\<lambda>(sample_commitments, confidence').
           client_sample L D net kzg n kv cid confidence' sample_commitments db))
         (set_sample (pos_codec D) confidence blob_num app_lookups None draws))"

definition sample_block ::
  "('fr, 'g1, 'g2, 'fs, 'fk) kzg_lib \<Rightarrow> ('fr, 'g1, 'h, 'd) daser_codecs \<Rightarrow> 'n das_net \<Rightarrow> ('g1, 'g2, 'fs) KZG \<Rightarrow> 'n \<Rightarrow> 's DasKv
    \<Rightarrow> ('h, 'd) Header \<Rightarrow> (nat \<times> nat) list \<Rightarrow> 's \<Rightarrow> 's res option" where
  "sample_block L D net kzg n kv header draws db =
     (let block_hash = header_hash_bytes D header; cid = block_confidence block_hash in
      case Header_commitments L header of
        None \<Rightarrow> Some (Inl (Err ''Commitments not found in the header''))
      | Some commitments \<Rightarrow>
          map_option (res_map (set_last_at D kv (hdr_number header) block_hash))
            (if commitments = [] then Some (Inr db)
             else case extend_fs_g1 L (KZG_get_fs kzg) commitments of
                    Inl e \<Rightarrow> Some (Inl e)
                  | Inr extended_commits \<Rightarrow>
                      map_option (\<lambda>r. res_bind r (\<lambda>(sample_commitments, confidence).
                          client_sample L D net kzg n kv cid confidence sample_commitments db))
                        (set_sample (pos_codec D) (Reliability_new Block extended_commits) SAMPLES_PER_BLOCK
                           (ext_app_lookup (hdr_extension header)) (Some block_hash) draws)))"

section \<open>The listener (tx\_pool\_handler.rs)\<close>

definition full_col :: "'a option list \<Rightarrow> nat \<Rightarrow> nat \<Rightarrow> 'a list res" where
  "full_col segments index len =
     traverse (ok_or (Err ''Col is not available'')) (step_by len (drop index segments))"

text \<open>An error of a sampling is logged and the listener goes on; a panic or a loop that does not end stops it.\<close>

definition logged :: "'s \<Rightarrow> 's res option \<Rightarrow> 's option" where
  "logged db r = (case r of None \<Rightarrow> None | Some (Inl (Panic _)) \<Rightarrow> None | Some (Inl _) \<Rightarrow> Some db | Some (Inr db') \<Rightarrow> Some db')"

fun on_new_transaction ::
  "('fr, 'g1, 'g2, 'fs, 'fk) kzg_lib \<Rightarrow> ('fr, 'g1, 'h, 'd) daser_codecs \<Rightarrow> 'n das_net \<Rightarrow> ('g1, 'g2, 'fs) KZG \<Rightarrow> 'n \<Rightarrow> 's DasKv
    \<Rightarrow> ('g1 SidecarMetadata \<times> (nat \<times> nat) list) list \<Rightarrow> 's \<Rightarrow> 's option" where
  "on_new_transaction L D net kzg n kv [] db = Some db"
| "on_new_transaction L D net kzg n kv ((params, draws) # rest) db =
     Option.bind (logged db (sample_application L D net kzg n kv (sm_app_id params) (sm_nonce params) (sm_commitments params) draws db))
       (on_new_transaction L D net kzg n kv rest)"

definition extend_column ::
  "('fr, 'g1, 'g2, 'fs, 'fk) kzg_lib \<Rightarrow> ('fr, 'g1, 'h, 'd) daser_codecs \<Rightarrow> 'n das_net \<Rightarrow> ('g1, 'g2, 'fs) KZG \<Rightarrow> ('h, 'd) Header
    \<Rightarrow> ('fr, 'g1) Segment option list \<Rightarrow> nat \<Rightarrow> 'n \<Rightarrow> 'n res" where
  "extend_column L D net kzg header segments x n =
     (case full_col segments x EXTENDED_SEGMENTS_PER_BLOB of
        Inl _ \<Rightarrow> Inr n
      | Inr col \<Rightarrow>
          (case extend_segments_col L (KZG_get_fs kzg) col of
             Inl (Panic m) \<Rightarrow> Inl (Panic m)
           | Inl _ \<Rightarrow> Inr n
           | Inr col_ext \<Rightarrow> Inr (snd (put_ext_segments D net col_ext header n))))"

definition on_best_block ::
  "('fr, 'g1, 'g2, 'fs, 'fk) kzg_lib \<Rightarrow> ('fr, 'g1, 'h, 'd) daser_codecs \<Rightarrow> 'n das_net \<Rightarrow> ('g1, 'g2, 'fs) KZG \<Rightarrow> ('h, 'd) Header
    \<Rightarrow> 'n \<Rightarrow> 'n res" where
  "on_best_block L D net kzg header n =
     (case Header_commitments L header of
        None \<Rightarrow> Inr n
      | Some cmts \<Rightarrow>
          if cmts = [] then Inr n
          else case fetch_block L D net kzg n header of
                 Inl (Panic m) \<Rightarrow> Inl (Panic m)
               | Inl _ \<Rightarrow> Inr n
               | Inr (segments, is_availability) \<Rightarrow>
                   if \<not> is_availability then Inr n
                   else fold_res (extend_column L D net kzg header segments) [0..<EXTENDED_SEGMENTS_PER_BLOB] n)"

text \<open>The numbers a finalised block makes the listener sample.\<close>

definition blocks_to_sample :: "u32 \<Rightarrow> u32 \<Rightarrow> u32 list" where
  "blocks_to_sample latest_sampled_block finalized =
     (let to_block = min finalized (max (latest_sampled_block + BLOCK_SAMPLE_LIMIT) BLOCK_SAMPLE_LIMIT)
      in map of_nat [unat (latest_sampled_block + 1)..<unat to_block])"

fun run_samplings ::
  "('fr, 'g1, 'g2, 'fs, 'fk) kzg_lib \<Rightarrow> ('fr, 'g1, 'h, 'd) daser_codecs \<Rightarrow> 'n das_net \<Rightarrow> ('g1, 'g2, 'fs) KZG \<Rightarrow> 'n \<Rightarrow> 's DasKv
    \<Rightarrow> (('h, 'd) Header \<times> (nat \<times> nat) list) list \<Rightarrow> 's \<Rightarrow> 's option" where
  "run_samplings L D net kzg n kv [] db = Some db"
| "run_samplings L D net kzg n kv ((header, draws) # rest) db =
     Option.bind (logged db (sample_block L D net kzg n kv header draws db)) (run_samplings L D net kzg n kv rest)"

text \<open>The tasks complete in the order \<open>order\<close> gives them, which is any; \<open>chain\<close> is the client's lookup of a header by number.\<close>

definition on_finalized ::
  "('fr, 'g1, 'g2, 'fs, 'fk) kzg_lib \<Rightarrow> ('fr, 'g1, 'h, 'd) daser_codecs \<Rightarrow> 'n das_net \<Rightarrow> ('g1, 'g2, 'fs) KZG \<Rightarrow> 'n \<Rightarrow> 's DasKv
    \<Rightarrow> (u32 \<Rightarrow> ('h, 'd) Header option) \<Rightarrow> (u32 \<Rightarrow> (nat \<times> nat) list)
    \<Rightarrow> ((('h, 'd) Header \<times> (nat \<times> nat) list) list \<Rightarrow> (('h, 'd) Header \<times> (nat \<times> nat) list) list) \<Rightarrow> u32 \<Rightarrow> 's \<Rightarrow> 's option" where
  "on_finalized L D net kzg n kv chain draws order finalized db =
     (let latest_sampled_block = last_at D kv db;
          tasks = List.map_filter (\<lambda>i. map_option (\<lambda>header. (header, draws i)) (chain i))
                    (blocks_to_sample latest_sampled_block finalized)
      in run_samplings L D net kzg n kv (order tasks) db)"

end
