(* ===== verification/Service_Props.thy ===== *)
theory Service_Props
  imports Network_Props Daser
begin

text \<open>The service of das-network (service.rs) in front of the worker: which outcome a request gets, \<open>get_values\<close> and
  \<open>put_values\<close> over many keys, and the metrics registration.\<close>

section \<open>The first result decides\<close>

text \<open>Kademlia numbers its queries: an identifier it hands out was not used before. \<open>used\<close> stands for the identifiers handed out.\<close>

definition query_ids_documented :: "'k swarm_lib \<Rightarrow> ('k \<Rightarrow> QueryId set) \<Rightarrow> bool" where
  "query_ids_documented K used \<longleftrightarrow>
     (\<forall>key k. fst (kad_get_record K key k) \<notin> used k \<and> insert (fst (kad_get_record K key k)) (used k) \<subseteq> used (snd (kad_get_record K key k))) \<and>
     (\<forall>rc qm k q. fst (kad_put_record K rc qm k) = Inr q \<longrightarrow> q \<notin> used k \<and> q \<in> used (snd (kad_put_record K rc qm k))) \<and>
     (\<forall>rc qm k. used k \<subseteq> used (snd (kad_put_record K rc qm k))) \<and>
     (\<forall>k q. fst (kad_bootstrap K k) = Inr q \<longrightarrow> q \<notin> used k \<and> q \<in> used (snd (kad_bootstrap K k))) \<and>
     (\<forall>k. used k \<subseteq> used (snd (kad_bootstrap K k))) \<and>
     (\<forall>p a k. used (kad_add_address K p a k) = used k \<and> used (kad_remove_address K p a k) = used k) \<and>
     (\<forall>p k. used (kad_remove_peer K p k) = used k) \<and>
     (\<forall>key k. used (store_remove K key k) = used k) \<and>
     (\<forall>a k. used (snd (swarm_listen_on K a k)) = used k)"

lemma query_idsD:
  assumes "query_ids_documented K used"
  shows "fst (kad_get_record K key k) \<notin> used k" "used k \<subseteq> used (snd (kad_get_record K key k))"
    "fst (kad_get_record K key k) \<in> used (snd (kad_get_record K key k))"
    "fst (kad_put_record K rc qm k) = Inr q \<Longrightarrow> q \<notin> used k" "used k \<subseteq> used (snd (kad_put_record K rc qm k))"
    "fst (kad_put_record K rc qm k) = Inr q \<Longrightarrow> q \<in> used (snd (kad_put_record K rc qm k))"
    "fst (kad_bootstrap K k) = Inr q \<Longrightarrow> q \<notin> used k" "used k \<subseteq> used (snd (kad_bootstrap K k))"
    "fst (kad_bootstrap K k) = Inr q \<Longrightarrow> q \<in> used (snd (kad_bootstrap K k))"
    "used (kad_remove_peer K p k) = used k" "used (kad_add_address K p a k) = used k" "used (kad_remove_address K p a k) = used k"
    "used (store_remove K key k) = used k" "used (snd (swarm_listen_on K a k)) = used k"
  using assms by (simp_all add: query_ids_documented_def)

definition ids_used :: "('k \<Rightarrow> QueryId set) \<Rightarrow> 'k DasNetwork \<Rightarrow> bool" where
  "ids_used used w \<longleftrightarrow> dom (dn_query_id_receivers w) \<subseteq> used (dn_swarm w)"

lemma used_fold: "(\<And>x k. used (f x k) = used k) \<Longrightarrow> used (fold f xs k) = used k"
  by (induction xs arbitrary: k) simp_all

lemma swarm_kept [simp]:
  "dn_swarm (send c r w) = dn_swarm w" "dn_swarm (drop_sender m w) = dn_swarm w" "dn_swarm (insert_receiver q sd w) = dn_swarm w"
  "dn_swarm (insert_pending p sd w) = dn_swarm w" "dn_swarm (on_swarm f w) = f (dn_swarm w)"
  by (simp_all add: send_def drop_sender_def insert_receiver_def insert_pending_def on_swarm_def split: option.split)

lemma swarm_kademlia: "dn_swarm (handle_kademlia_event e w) = dn_swarm w"
  by (induction e w rule: handle_kademlia_event.induct)
    (simp_all add: handle_send_get_def handle_send_put_def handle_send_bootstrap_def remove_receiver_def Let_def
      split: option.split QueryResultSender.split sum.split)

lemma swarm_kademlia_event: "dn_swarm (handle_swarm_event K (KademliaEv e) w) = dn_swarm w"
  by (simp add: handle_swarm_event_def swarm_kademlia)

lemma used_event:
  assumes "query_ids_documented K used"
  shows "used (dn_swarm (handle_swarm_event K e w)) = used (dn_swarm w)"
proof -
  note k = query_idsD(10-12) [OF assms]
  have retry: "used (dn_swarm (handle_retry_connection K p v)) = used (dn_swarm v)" for p v
    by (simp add: handle_retry_connection_def Let_def k)
  have add: "used (fold (kad_add_address K p) as k) = used k" for p as k by (rule used_fold) (rule k)
  have disc: "used (fold (\<lambda>(p, a). kad_add_address K p a) ps k) = used k" for ps k by (rule used_fold) (simp add: k split: prod.split)
  have exp: "used (fold (\<lambda>(p, a) k. if mdns_has_node K p k then k else kad_remove_address K p a k) ps k) = used k" for ps k
    by (rule used_fold) (simp add: k split: prod.split)
  show ?thesis
  proof (cases e)
    case (ConnectionClosed p cause)
    then show ?thesis by (simp add: handle_swarm_event_def Let_def retry split: option.split ConnectionError.split)
  qed (simp_all add: handle_swarm_event_def swarm_kademlia handle_identify_event_def add disc exp)
qed

lemma used_command:
  assumes "query_ids_documented K used"
  shows "used (dn_swarm w) \<subseteq> used (dn_swarm (handle_command K cmd w))"
proof -
  note k = query_idsD [OF assms]
  have rm: "used (fold (store_remove K) ks k) = used k" for ks k by (rule used_fold) (rule k)
  show ?thesis
  proof (cases cmd)
    case (Bootstrap c)
    then show ?thesis using k(8) [of "dn_swarm w"] by (auto simp: handle_command_def split: prod.splits sum.splits)
  next
    case (PutKadRecord rc qm c)
    then show ?thesis using k(5) [of "dn_swarm w" rc qm] by (auto simp: handle_command_def Let_def split: prod.splits sum.splits)
  next
    case (GetKadRecord key c)
    then show ?thesis using k(2) [of "dn_swarm w" key] by (auto simp: handle_command_def Let_def split: prod.splits)
  next
    case (StartListening a c)
    then show ?thesis by (simp add: handle_command_def Let_def case_prod_beta k(14))
  next
    case (AddAddress p a c)
    then show ?thesis by (simp add: handle_command_def k(11))
  qed (simp_all add: handle_command_def rm)
qed

text \<open>A query that waits keeps waiting until one of its own results comes.\<close>

lemma waits_command:
  assumes "query_ids_documented K used" and "ids_used used w" and "dn_query_id_receivers w q = Some s"
  shows "dn_query_id_receivers (handle_command K cmd w) q = Some s"
proof -
  note d = query_idsD [OF assms(1)]
  have q: "q \<in> used (dn_swarm w)" using assms(2,3) by (auto simp: ids_used_def)
  have g: "fst (kad_get_record K key (dn_swarm w)) \<noteq> q" for key using d(1) [of key "dn_swarm w"] q by auto
  have p: "fst (kad_put_record K rc qm (dn_swarm w)) = Inr q' \<Longrightarrow> q' \<noteq> q" for rc qm q' using d(4) [of rc qm "dn_swarm w"] q by auto
  have b: "fst (kad_bootstrap K (dn_swarm w)) = Inr q' \<Longrightarrow> q' \<noteq> q" for q' using d(7) [of "dn_swarm w"] q by auto
  let ?w = "handle_command K cmd w"
  have s: "place w (Inl q) = Some s" using assms(3) by simp
  have placed: "place ?w (Inl q) = Some s" if "placed_new x t w ?w" "x \<noteq> Inl q" for x t using that s by (simp add: placed_new_def)
  have answered: "place ?w (Inl q) = Some s" if "answered_new c out w ?w" for c out using that s by (simp add: answered_new_def)
  have same: "place ?w (Inl q) = Some s" if "same_channels w ?w" using that s by (simp add: same_channels_def)
  have "place ?w (Inl q) = Some s"
  proof (cases cmd)
    case (Bootstrap c)
    then show ?thesis using command_moves [where K = K and cmd = cmd and w = w] placed answered b
      by (cases "fst (kad_bootstrap K (dn_swarm w))") (simp_all del: place_Inl)
  next
    case (PutKadRecord rc qm c)
    then show ?thesis using command_moves [where K = K and cmd = cmd and w = w] placed answered p
      by (cases "fst (kad_put_record K rc qm (dn_swarm w))") (simp_all del: place_Inl)
  next
    case (GetKadRecord key c)
    then show ?thesis using command_moves [where K = K and cmd = cmd and w = w] placed g by (simp del: place_Inl)
  next
    case (AddAddress peer a c)
    then show ?thesis using command_moves [where K = K and cmd = cmd and w = w] placed by (simp del: place_Inl)
  next
    case (Stream c)
    then show ?thesis using command_moves [where K = K and cmd = cmd and w = w] same by (simp del: place_Inl)
  next
    case (StartListening a c)
    then show ?thesis using command_moves [where K = K and cmd = cmd and w = w] answered by (auto simp del: place_Inl)
  next
    case (RemoveRecords ks c)
    then show ?thesis using command_moves [where K = K and cmd = cmd and w = w] answered by (simp del: place_Inl)
  qed
  then show ?thesis by simp
qed

text \<open>The results that end a query, and the first of them among the worker's inputs.\<close>

fun final_result :: "QueryResult \<Rightarrow> bool" where
  "final_result (BootstrapResult (Inr n)) = (n = 0)"
| "final_result OtherResult = False"
| "final_result _ = True"

fun first_result :: "QueryId \<Rightarrow> worker_input list \<Rightarrow> QueryResult option" where
  "first_result q [] = None"
| "first_result q (Ev (KademliaEv (OutboundQueryProgressed q' r)) # is) =
     (if q' = q \<and> final_result r then Some r else first_result q is)"
| "first_result q (_ # is) = first_result q is"

lemma final_result_out: "final_result r \<longleftrightarrow> result_out r \<noteq> None"
  by (cases r rule: final_result.cases) simp_all

lemma place_event:
  "place (handle_swarm_event K e w) x = (if map_option fst (release_of e) = Some x then None else place w x)"
proof (cases "release_of e")
  case None
  then have "same_channels w (handle_swarm_event K e w)" using swarm_event_moves [where e = e and w = w and K = K] by simp
  with None show ?thesis by (simp add: same_channels_place)
next
  case (Some xo)
  then show ?thesis using swarm_event_moves [where e = e and w = w and K = K] by (cases xo) (auto simp: released_def)
qed

lemma ids_used_event:
  assumes "query_ids_documented K used" and "ids_used used w"
  shows "ids_used used (handle_swarm_event K e w)"
proof -
  have "dom (dn_query_id_receivers (handle_swarm_event K e w)) \<subseteq> dom (dn_query_id_receivers w)"
    using place_event [of K e w "Inl q" for q] by (auto split: if_splits)
  then show ?thesis using assms(2) by (auto simp: ids_used_def used_event [OF assms(1)])
qed

lemma receivers_command:
  "dn_query_id_receivers (handle_command K cmd w) =
     (case cmd of
        Bootstrap c \<Rightarrow> (case fst (kad_bootstrap K (dn_swarm w)) of
          Inr q \<Rightarrow> (dn_query_id_receivers w)(q \<mapsto> BootstrapSender c) | Inl _ \<Rightarrow> dn_query_id_receivers w)
      | GetKadRecord key c \<Rightarrow> (dn_query_id_receivers w)(fst (kad_get_record K key (dn_swarm w)) \<mapsto> GetRecordSender c)
      | PutKadRecord rc qm c \<Rightarrow> (case fst (kad_put_record K rc qm (dn_swarm w)) of
          Inr q \<Rightarrow> (dn_query_id_receivers w)(q \<mapsto> PutRecordSender c) | Inl _ \<Rightarrow> dn_query_id_receivers w)
      | _ \<Rightarrow> dn_query_id_receivers w)"
  by (cases cmd) (simp_all add: handle_command_def Let_def case_prod_beta insert_receiver_def insert_pending_def send_def drop_sender_def
      on_swarm_def count_metrics_def count_request_def count_listening_def split: sum.split option.split)

lemma swarm_command:
  "dn_swarm (handle_command K (Bootstrap c) w) = snd (kad_bootstrap K (dn_swarm w))"
  "dn_swarm (handle_command K (GetKadRecord key c) w) = snd (kad_get_record K key (dn_swarm w))"
  "dn_swarm (handle_command K (PutKadRecord rc qm c) w) = snd (kad_put_record K rc qm (dn_swarm w))"
  by (simp_all add: handle_command_def Let_def case_prod_beta insert_receiver_def send_def drop_sender_def
      on_swarm_def count_metrics_def count_request_def split: sum.split option.split)

lemma ids_used_command:
  assumes "query_ids_documented K used" and "ids_used used w"
  shows "ids_used used (handle_command K cmd w)"
proof -
  have old: "dom (dn_query_id_receivers w) \<subseteq> used (dn_swarm (handle_command K cmd w))"
    using assms(2) used_command [OF assms(1), of w cmd] by (auto simp: ids_used_def)
  note d = query_idsD [OF assms(1)]
  show ?thesis
  proof (cases cmd)
    case (Bootstrap c)
    then have "dn_swarm (handle_command K cmd w) = snd (kad_bootstrap K (dn_swarm w))" by (simp add: swarm_command)
    with Bootstrap show ?thesis using old d(9) [of "dn_swarm w"]
      by (auto simp: ids_used_def receivers_command split: sum.splits)
  next
    case (GetKadRecord key c)
    then have "dn_swarm (handle_command K cmd w) = snd (kad_get_record K key (dn_swarm w))" by (simp add: swarm_command)
    with GetKadRecord show ?thesis using old d(3) [of key "dn_swarm w"]
      by (auto simp: ids_used_def receivers_command)
  next
    case (PutKadRecord rc qm c)
    then have "dn_swarm (handle_command K cmd w) = snd (kad_put_record K rc qm (dn_swarm w))" by (simp add: swarm_command)
    with PutKadRecord show ?thesis using old d(6) [of rc qm "dn_swarm w"]
      by (auto simp: ids_used_def receivers_command split: sum.splits)
  qed (use old in \<open>simp_all add: ids_used_def receivers_command\<close>)
qed

lemma ids_used_loop:
  "query_ids_documented K used \<Longrightarrow> ids_used used w \<Longrightarrow> ids_used used (run_loop K is w)"
proof (induction "is" arbitrary: w)
  case (Cons i "is")
  then show ?case by (cases i) (simp_all add: ids_used_event ids_used_command)
qed simp

lemma reach_ids_used:
  assumes "query_ids_documented K used" and "worker_reach K register I G w"
  shows "ids_used used w"
  using assms(2)
proof induction
  case (start swarm registry config w)
  then show ?case
    by (auto simp: DasNetwork_new_def run_start_def on_swarm_def ids_used_def Let_def case_prod_beta split: option.splits if_splits)
qed (simp_all add: ids_used_event [OF assms(1)] ids_used_command [OF assms(1)])

lemma first_result_decides:
  assumes "query_ids_documented K used" and "ids_used used w" and "worker_inv I G w" and "fresh_inputs I is"
    and "dn_query_id_receivers w q = Some s"
  shows "dn_replies (run_loop K is w) (chan_of s) = Option.bind (first_result q is) (\<lambda>r. map_option (\<lambda>f. f s) (result_out r))"
  using assms(2-)
proof (induction "is" arbitrary: w I G)
  case Nil
  have "place w (Inl q) = Some s" using Nil.prems(4) by simp
  then have "dn_replies w (chan_of s) = None" using accountedD(4) [of I w "Inl q" s] Nil.prems(2) by (simp add: worker_inv_def)
  then show ?case by simp
next
  case (Cons i "is")
  have inv: "accounted I w" using Cons.prems(2) by (simp add: worker_inv_def)
  have s: "place w (Inl q) = Some s" using Cons.prems(4) by simp
  show ?case
  proof (cases i)
    case (Cmd cmd)
    have fresh: "set_option (cmd_chan cmd) \<inter> I = {}" "fresh_inputs (set_option (cmd_chan cmd) \<union> I) is" using Cons.prems(3) Cmd by simp_all
    show ?thesis
      using Cons.IH [OF ids_used_command [OF assms(1) Cons.prems(1)] worker_inv_command [OF Cons.prems(2) fresh(1)] fresh(2)
          waits_command [OF assms(1) Cons.prems(1,4)]] Cmd by simp
  next
    case (Ev e)
    then have fresh: "fresh_inputs I is" using Cons.prems(3) by simp
    let ?w = "handle_swarm_event K e w"
    have go: "dn_query_id_receivers ?w q = Some s \<Longrightarrow> ?thesis" if "first_result q (i # is) = first_result q is"
      using Cons.IH [OF ids_used_event [OF assms(1) Cons.prems(1)] worker_inv_event [OF Cons.prems(2)] fresh] Ev that by simp
    show ?thesis
    proof (cases "map_option fst (release_of e) = Some (Inl q)")
      case True
      then obtain r f where e: "e = KademliaEv (OutboundQueryProgressed q r)" "result_out r = Some f"
        by (cases e rule: release_of.cases) auto
      then have "released (Inl q) f w ?w" using swarm_event_moves [where e = e and w = w and K = K] by simp
      then have "dn_replies ?w (chan_of s) = Some (f s)" using s by (simp add: released_def)
      then have "dn_replies (run_loop K is ?w) (chan_of s) = Some (f s)"
        by (rule run_loop_replies [OF worker_inv_event [OF Cons.prems(2)] fresh])
      then show ?thesis using Ev e final_result_out [of r] by simp
    next
      case False
      then have "dn_query_id_receivers ?w q = Some s" using place_event [of K e w "Inl q"] Cons.prems(4) by simp
      moreover have "first_result q (i # is) = first_result q is"
        using False Ev by (cases e rule: release_of.cases) (auto simp: final_result_out)
      ultimately show ?thesis by (rule go [rotated])
    qed
  qed
qed

section \<open>Single requests\<close>

definition get_answer :: "QueryResult \<Rightarrow> string + bytes list" where
  "get_answer r =
     (case r of
        GetRecordResult (FoundRecord rc) \<Rightarrow> Inr [rec_value rc]
      | GetRecordResult FinishedWithNoAdditionalRecord \<Rightarrow> Inl ''No record found.''
      | GetRecordResult (GetRecordErr e) \<Rightarrow> Inl e
      | _ \<Rightarrow> Inl ''Failed receiving get record response'')"

definition put_answer :: "QueryResult \<Rightarrow> string + unit" where
  "put_answer r = (case r of PutRecordResult u \<Rightarrow> u | _ \<Rightarrow> Inl ''Failed receiving put record response'')"

text \<open>What the invariants give of a worker with requests still to come.\<close>

definition worker_ok :: "('k \<Rightarrow> QueryId set) \<Rightarrow> chan set \<Rightarrow> 'k DasNetwork \<Rightarrow> bool" where
  "worker_ok used I w \<longleftrightarrow> ids_used used w \<and> (\<exists>G. worker_inv I G w)"

lemma worker_ok_loop:
  assumes "query_ids_documented K used" and "worker_ok used I w" and "fresh_inputs I is"
  shows "worker_ok used (set (input_chans is) \<union> I) (run_loop K is w)"
  using assms run_loop_inv [of I _ w "is" K] ids_used_loop [OF assms(1), of w "is"] by (auto simp: worker_ok_def)

lemma first_result_final: "first_result q is = Some r \<Longrightarrow> final_result r"
  by (induction q "is" rule: first_result.induct) (auto split: if_splits)

lemma get_request_answer:
  assumes "query_ids_documented K used" and "worker_ok used I w" and "fresh_inputs I (Cmd (GetKadRecord key c) # is)"
  shows "map_option values_of (await_records ''Failed receiving get record response'' c (run_loop K (Cmd (GetKadRecord key c) # is) w)) =
     map_option get_answer (first_result (fst (kad_get_record K key (dn_swarm w))) is)"
proof -
  let ?w = "handle_command K (GetKadRecord key c) w" and ?q = "fst (kad_get_record K key (dn_swarm w))"
  obtain G where inv: "worker_inv I G w" using assms(2) by (auto simp: worker_ok_def)
  have fresh: "set_option (cmd_chan (GetKadRecord key c)) \<inter> I = {}" "fresh_inputs (set_option (cmd_chan (GetKadRecord key c)) \<union> I) is"
    using assms(3) by simp_all
  have "dn_query_id_receivers ?w ?q = Some (GetRecordSender c)" by (simp add: receivers_command)
  then have "dn_replies (run_loop K is ?w) c = Option.bind (first_result ?q is) (\<lambda>r. map_option (\<lambda>f. f (GetRecordSender c)) (result_out r))"
    using first_result_decides [OF assms(1) ids_used_command [OF assms(1)] worker_inv_command [OF inv fresh(1)] fresh(2)] assms(2)
    by (force simp: worker_ok_def)
  moreover have "map_option (values_of \<circ> (\<lambda>out. case out of Sent (Records u) \<Rightarrow> u | _ \<Rightarrow> Inl ''Failed receiving get record response''))
      (map_option (\<lambda>f. f (GetRecordSender c)) (result_out r)) = Some (get_answer r)" if "first_result ?q is = Some r" for r
    using first_result_final [OF that]
    by (cases r rule: result_out.cases)
      (auto simp: get_answer_def values_of_def get_out_def put_out_def bootstrap_out_def get_record_reply_def split: GetRecordResult.split)
  ultimately show ?thesis
    by (cases "first_result ?q is") (auto simp: await_records_def option.map_comp o_def split: outcome.split reply.split)
qed

lemma put_request_answer:
  assumes "query_ids_documented K used" and "worker_ok used I w" and "fresh_inputs I (Cmd (PutKadRecord rc qm c) # is)"
  shows "await_unit ''Failed receiving put record response'' c (run_loop K (Cmd (PutKadRecord rc qm c) # is) w) =
     (case fst (kad_put_record K rc qm (dn_swarm w)) of
        Inl _ \<Rightarrow> Some (Inl ''Failed receiving put record response'')
      | Inr q \<Rightarrow> map_option put_answer (first_result q is))"
proof -
  let ?w = "handle_command K (PutKadRecord rc qm c) w"
  obtain G where inv: "worker_inv I G w" using assms(2) by (auto simp: worker_ok_def)
  have fresh: "set_option (cmd_chan (PutKadRecord rc qm c)) \<inter> I = {}" "fresh_inputs (set_option (cmd_chan (PutKadRecord rc qm c)) \<union> I) is"
    using assms(3) by simp_all
  note inv' = worker_inv_command [OF inv fresh(1)]
  show ?thesis
  proof (cases "fst (kad_put_record K rc qm (dn_swarm w))")
    case (Inl e)
    then have "dn_replies ?w c = Some Canceled"
      by (simp add: handle_command_def Let_def case_prod_beta drop_sender_def count_metrics_def count_request_def split: option.split)
    then have "dn_replies (run_loop K is ?w) c = Some Canceled" by (rule run_loop_replies [OF inv' fresh(2)])
    with Inl show ?thesis by (simp add: await_unit_def)
  next
    case (Inr q)
    then have "dn_query_id_receivers ?w q = Some (PutRecordSender c)" by (simp add: receivers_command)
    then have "dn_replies (run_loop K is ?w) c = Option.bind (first_result q is) (\<lambda>r. map_option (\<lambda>f. f (PutRecordSender c)) (result_out r))"
      using first_result_decides [OF assms(1) ids_used_command [OF assms(1)] inv' fresh(2)] assms(2) by (force simp: worker_ok_def)
    moreover have "map_option (\<lambda>out. case out of Sent (Done u) \<Rightarrow> u | _ \<Rightarrow> Inl ''Failed receiving put record response'')
      (map_option (\<lambda>f. f (PutRecordSender c)) (result_out r)) = Some (put_answer r)" if "first_result q is = Some r" for r
      using first_result_final [OF that]
      by (cases r rule: result_out.cases) (auto simp: put_answer_def get_out_def put_out_def bootstrap_out_def)
    ultimately show ?thesis using Inr
      by (cases "first_result q is") (auto simp: await_unit_def option.map_comp o_def split: outcome.split reply.split)
  qed
qed

section \<open>Many requests\<close>

text \<open>The query of every request is answered by its first final result: for reads with what \<open>dht\<close> holds of the key, for writes with
  any result, unless the store refuses the record at once.\<close>

fun gets_answered :: "'k swarm_lib \<Rightarrow> (bytes \<Rightarrow> GetRecordResult) \<Rightarrow> (bytes \<times> chan \<times> worker_input list) list \<Rightarrow> 'k DasNetwork \<Rightarrow> bool" where
  "gets_answered K dht [] w = True"
| "gets_answered K dht ((key, c, is) # rest) w =
     (first_result (fst (kad_get_record K key (dn_swarm w))) (is @ request_all K GetKadRecord rest) = Some (GetRecordResult (dht key)) \<and>
      gets_answered K dht rest (run_loop K (Cmd (GetKadRecord key c) # is) w))"

fun chunks_answered :: "'k swarm_lib \<Rightarrow> (bytes \<Rightarrow> GetRecordResult) \<Rightarrow> (bytes \<times> chan \<times> worker_input list) list list \<Rightarrow> 'k DasNetwork \<Rightarrow> bool" where
  "chunks_answered K dht [] w = True"
| "chunks_answered K dht (chunk # rest) w =
     (gets_answered K dht chunk w \<and> chunks_answered K dht rest (run_loop K (request_all K GetKadRecord chunk) w))"

definition put_command :: "bytes \<times> bytes \<Rightarrow> chan \<Rightarrow> Command" where
  "put_command = (\<lambda>(key, v). PutKadRecord \<lparr> rec_key = key, rec_value = v \<rparr> All)"

lemma put_command_simp: "put_command (key, v) c = PutKadRecord \<lparr> rec_key = key, rec_value = v \<rparr> All c"
  by (simp add: put_command_def)

fun puts_answered :: "'k swarm_lib \<Rightarrow> ((bytes \<times> bytes) \<times> chan \<times> worker_input list) list \<Rightarrow> 'k DasNetwork \<Rightarrow> bool" where
  "puts_answered K [] w = True"
| "puts_answered K (((key, v), c, is) # rest) w =
     ((case fst (kad_put_record K \<lparr> rec_key = key, rec_value = v \<rparr> All (dn_swarm w)) of
         Inl _ \<Rightarrow> True
       | Inr q \<Rightarrow> first_result q (is @ request_all K put_command rest) \<noteq> None) \<and>
      puts_answered K rest (run_loop K (Cmd (put_command (key, v) c) # is) w))"

definition found_values :: "GetRecordResult \<Rightarrow> bytes list option" where
  "found_values r = (case r of FoundRecord rc \<Rightarrow> Some [rec_value rc] | _ \<Rightarrow> None)"

lemma request_all_simps [simp]:
  "request_all K mk [] = []" "request_all K mk ((a, c, is) # rest) = Cmd (mk a c) # is @ request_all K mk rest"
  "request_all K mk (xs @ ys) = request_all K mk xs @ request_all K mk ys"
  by (simp_all add: request_all_def)

lemma run_loop_append [simp]: "run_loop K (is @ is') w = run_loop K is' (run_loop K is w)"
  by (simp add: run_loop_def)

lemma request_step:
  assumes "query_ids_documented K used" and "worker_ok used I w" and "fresh_inputs I (request_all K mk ((a, c, is) # rest))"
  shows "worker_ok used (set (input_chans (Cmd (mk a c) # is)) \<union> I) (run_loop K (Cmd (mk a c) # is) w)"
    and "fresh_inputs (set (input_chans (Cmd (mk a c) # is)) \<union> I) (request_all K mk rest)"
proof -
  have fresh: "fresh_inputs I ((Cmd (mk a c) # is) @ request_all K mk rest)" using assms(3) by simp
  show "worker_ok used (set (input_chans (Cmd (mk a c) # is)) \<union> I) (run_loop K (Cmd (mk a c) # is) w)"
    using worker_ok_loop [OF assms(1,2)] fresh by (simp only: fresh_inputs_append)
  show "fresh_inputs (set (input_chans (Cmd (mk a c) # is)) \<union> I) (request_all K mk rest)"
    using fresh by (simp only: fresh_inputs_append)
qed

lemma gets_answered_results:
  assumes "query_ids_documented K used"
  shows "worker_ok used I w \<Longrightarrow> fresh_inputs I (request_all K GetKadRecord reqs) \<Longrightarrow> gets_answered K dht reqs w \<Longrightarrow>
    map (\<lambda>(_, c, _). map_option values_of (await_records ''Failed receiving get record response'' c
      (run_loop K (request_all K GetKadRecord reqs) w))) reqs =
    map (\<lambda>(key, _, _). Some (get_answer (GetRecordResult (dht key)))) reqs"
proof (induction reqs arbitrary: I w)
  case (Cons r rest)
  obtain key c "is" where r: "r = (key, c, is)" by (cases r)
  note step = request_step [OF assms Cons.prems(1) Cons.prems(2) [unfolded r]]
  have "map_option values_of (await_records ''Failed receiving get record response'' c
      (run_loop K (Cmd (GetKadRecord key c) # is @ request_all K GetKadRecord rest) w)) = Some (get_answer (GetRecordResult (dht key)))"
    using get_request_answer [OF assms Cons.prems(1), of key c "is @ request_all K GetKadRecord rest"] Cons.prems(2,3) r by simp
  then show ?case using Cons.IH [OF step] Cons.prems(3) r by simp
qed simp

lemma puts_answered_results:
  assumes "query_ids_documented K used"
  shows "worker_ok used I w \<Longrightarrow> fresh_inputs I (request_all K put_command reqs) \<Longrightarrow>
    None \<in> set (map (\<lambda>(_, c, _). await_unit ''Failed receiving put record response'' c
      (run_loop K (request_all K put_command reqs) w)) reqs) \<longleftrightarrow> \<not> puts_answered K reqs w"
proof (induction reqs arbitrary: I w)
  case (Cons r rest)
  obtain key v c "is" where r: "r = ((key, v), c, is)" by (metis prod.exhaust)
  note step = request_step [OF assms Cons.prems(1) Cons.prems(2) [unfolded r]]
  have "await_unit ''Failed receiving put record response'' c
      (run_loop K (Cmd (PutKadRecord \<lparr> rec_key = key, rec_value = v \<rparr> All c) # is @ request_all K put_command rest) w) = None \<longleftrightarrow>
    (\<exists>q. fst (kad_put_record K \<lparr> rec_key = key, rec_value = v \<rparr> All (dn_swarm w)) = Inr q \<and> first_result q (is @ request_all K put_command rest) = None)"
    using put_request_answer [OF assms Cons.prems(1), of "\<lparr> rec_key = key, rec_value = v \<rparr>" All c "is @ request_all K put_command rest"]
      Cons.prems(2) r by (auto simp: put_command_simp split: sum.splits)
  then show ?case using Cons.IH [OF step] r by (auto simp: put_command_simp split: sum.splits)
qed simp

lemma all_some_map: "all_some (map (\<lambda>x. Some (f x)) xs) = Some (map f xs)"
  by (auto simp: all_some_def)

lemma get_chunk_answered:
  assumes "query_ids_documented K used" and "worker_ok used I w" and "fresh_inputs I (request_all K GetKadRecord chunk)"
    and "gets_answered K dht chunk w"
  shows "get_chunk K chunk w = (Some (map (\<lambda>(key, _, _). found_values (dht key)) chunk), run_loop K (request_all K GetKadRecord chunk) w)"
  unfolding get_chunk_def Let_def gets_answered_results [OF assms]
  by (simp add: case_prod_unfold all_some_map get_answer_def found_values_def split: GetRecordResult.split)

lemma get_values_loop_answered:
  assumes "query_ids_documented K used"
  shows "worker_ok used I w \<Longrightarrow> fresh_inputs I (request_all K GetKadRecord (concat chs)) \<Longrightarrow> chunks_answered K dht chs w \<Longrightarrow>
    fst (get_values_loop K chs w) = Some (map (\<lambda>(key, _, _). found_values (dht key)) (concat chs))"
proof (induction chs arbitrary: I w)
  case (Cons chunk chs)
  have fresh: "fresh_inputs I (request_all K GetKadRecord chunk)"
      "fresh_inputs (set (input_chans (request_all K GetKadRecord chunk)) \<union> I) (request_all K GetKadRecord (concat chs))"
    using Cons.prems(2) by (simp_all add: fresh_inputs_append)
  have "get_chunk K chunk w = (Some (map (\<lambda>(key, _, _). found_values (dht key)) chunk), run_loop K (request_all K GetKadRecord chunk) w)"
    using Cons.prems(3) by (intro get_chunk_answered [OF assms Cons.prems(1) fresh(1)]) simp
  then show ?case
    using Cons.IH [OF worker_ok_loop [OF assms Cons.prems(1) fresh(1)] fresh(2)] Cons.prems(3) by auto
qed simp

section \<open>What the service answers\<close>

lemma reach_worker_ok: "query_ids_documented K used \<Longrightarrow> worker_reach K register I G w \<Longrightarrow> worker_ok used I w"
  using reach_ids_used worker_reach_inv by (fastforce simp: worker_ok_def)

lemma net_get_values_found: "net_get_values (service_net H) d record_keys = Inr (map (\<lambda>key. found_values (dht_get H key d)) record_keys)"
  by (simp add: service_net_def values_of_def get_record_reply_def found_values_def split: GetRecordResult.split)

text \<open>C18: The service answers every request with the first final result of its query. In every state the worker reaches, \<open>get_value\<close> returns the
  value of the first record found, the error, or waits as long as there is no result, whatever other commands and events
  come in between. When every query is answered with what a hash table holds, \<open>get_values\<close> over any number of keys returns what
  \<open>service_net\<close> gives of that table, one entry per key in the order of the keys; and \<open>put_values\<close> returns \<open>Ok\<close>, as \<open>service_net\<close> does, exactly
  when every put has a result, refused and failed ones included, and waits otherwise.\<close>

theorem service_answers_requests:
  assumes "query_ids_documented K used" and "worker_reach K register I G w"
  shows "(\<forall>key c inputs. fresh_inputs I (Cmd (GetKadRecord key c) # inputs) \<longrightarrow>
      fst (get_value K key c inputs w) = map_option get_answer (first_result (fst (kad_get_record K key (dn_swarm w))) inputs)) \<and>
    (\<forall>limit reqs. 0 < limit \<longrightarrow> fresh_inputs I (request_all K GetKadRecord reqs) \<longrightarrow>
      chunks_answered K (\<lambda>key. dht_get H key d) (chunks limit reqs) w \<longrightarrow>
      fst (get_values K limit reqs w) = Some (of_net (net_get_values (service_net H) d (map fst reqs)))) \<and>
    (\<forall>reqs. fresh_inputs I (request_all K put_command reqs) \<longrightarrow>
      fst (put_values K reqs w) =
        (if puts_answered K reqs w then Some (fst (net_put_values (service_net H) d (map fst reqs))) else None))"
proof -
  have ok: "worker_ok used I w" using assms by (rule reach_worker_ok)
  have "fst (get_value K key c inputs w) = map_option get_answer (first_result (fst (kad_get_record K key (dn_swarm w))) inputs)"
    if "fresh_inputs I (Cmd (GetKadRecord key c) # inputs)" for key c inputs
    using get_request_answer [OF assms(1) ok that] by (simp add: get_value_def get_kad_record_def Let_def)
  moreover have "fst (get_values K limit reqs w) = Some (of_net (net_get_values (service_net H) d (map fst reqs)))"
    if "0 < limit" "fresh_inputs I (request_all K GetKadRecord reqs)" "chunks_answered K (\<lambda>key. dht_get H key d) (chunks limit reqs) w" for limit reqs
    using get_values_loop_answered [OF assms(1) ok, of "chunks limit reqs"] that
    by (simp add: get_values_def net_get_values_found of_net_def case_prod_unfold)
  moreover have "fst (put_values K reqs w) =
      (if puts_answered K reqs w then Some (fst (net_put_values (service_net H) d (map fst reqs))) else None)"
    if "fresh_inputs I (request_all K put_command reqs)" for reqs
    using puts_answered_results [OF assms(1) ok that] by (simp add: put_values_def all_some_def service_net_def flip: put_command_def)
  ultimately show ?thesis by blast
qed

lemma counting_swarm_documented: "query_ids_documented counting_swarm (\<lambda>k. {..<k})"
  by (auto simp: query_ids_documented_def counting_swarm_def)

text \<open>Two answers to one query: the second is not reported. One of two puts fails: the answer is \<open>Ok\<close>.\<close>

definition answer_ev :: "QueryId \<Rightarrow> QueryResult \<Rightarrow> worker_input" where
  "answer_ev q r = Ev (KademliaEv (OutboundQueryProgressed q r))"

theorem service_answers_requests_witness:
  "fst (get_value counting_swarm [1] 0 [answer_ev 0 (GetRecordResult (FoundRecord \<lparr> rec_key = [1], rec_value = [7] \<rparr>)),
      answer_ev 0 (GetRecordResult (FoundRecord \<lparr> rec_key = [1], rec_value = [8] \<rparr>))] counting_worker) = Some (Inr [[7]]) \<and>
   fst (get_values counting_swarm 1 [([1], 0, [answer_ev 0 (GetRecordResult (FoundRecord \<lparr> rec_key = [1], rec_value = [7] \<rparr>))]),
      ([2], 1, [answer_ev 1 (GetRecordResult FinishedWithNoAdditionalRecord)])] counting_worker) = Some (Inr [Some [[7]], None]) \<and>
   fst (put_values counting_swarm [(([1], [7]), 0, []), (([2], [8]), 1, [answer_ev 1 (PutRecordResult (Inr ())),
      answer_ev 0 (PutRecordResult (Inl ''quorum failed''))])] counting_worker) = Some (Inr ())"
proof -
  let ?H = "map_dht" and ?d = "[[1 :: u8] \<mapsto> [7]] :: bytes \<rightharpoonup> bytes"
  note claim = service_answers_requests [OF counting_swarm_documented counting_worker_reached, where H = ?H and d = ?d]
  have "fst (get_value counting_swarm [1] 0 [answer_ev 0 (GetRecordResult (FoundRecord \<lparr> rec_key = [1], rec_value = [7] \<rparr>)),
      answer_ev 0 (GetRecordResult (FoundRecord \<lparr> rec_key = [1], rec_value = [8] \<rparr>))] counting_worker) = Some (Inr [[7]])"
    by (subst claim [THEN conjunct1, rule_format])
      (simp_all add: fresh_inputs_def answer_ev_def counting_swarm_def counting_worker_def get_answer_def)
  moreover have "fst (get_values counting_swarm 1 [([1], 0, [answer_ev 0 (GetRecordResult (FoundRecord \<lparr> rec_key = [1], rec_value = [7] \<rparr>))]),
      ([2], 1, [answer_ev 1 (GetRecordResult FinishedWithNoAdditionalRecord)])] counting_worker) = Some (Inr [Some [[7]], None])"
    by (subst claim [THEN conjunct2, THEN conjunct1, rule_format])
      (simp_all add: chunks.simps answer_ev_def swarm_command swarm_kademlia_event counting_swarm_def counting_worker_def map_dht_def
        fresh_inputs_def of_net_def net_get_values_found found_values_def)
  moreover have "fst (put_values counting_swarm [(([1], [7]), 0, []), (([2], [8]), 1, [answer_ev 1 (PutRecordResult (Inr ())),
      answer_ev 0 (PutRecordResult (Inl ''quorum failed''))])] counting_worker) = Some (Inr ())"
    by (subst claim [THEN conjunct2, THEN conjunct2, rule_format])
      (simp_all add: fresh_inputs_def answer_ev_def put_command_simp swarm_command counting_swarm_def counting_worker_def service_net_def)
  ultimately show ?thesis by blast
qed

section \<open>Metrics\<close>

text \<open>The name \<open>das_network_requests_total\<close> is registered twice; a registry refuses a name it has, so the worker never has metrics.\<close>

lemma metrics_never_registered:
  assumes "\<And>name r r1. register name r = (Inr (), r1) \<Longrightarrow> \<exists>e r2. register name r1 = (Inl e, r2)"
    and "DasNetwork_new K register swarm registry config = Inr w"
  shows "dn_metrics w = None"
proof -
  have "\<exists>e. fst (Metrics_register register r) = Inl e" for r
  proof (cases "register ''das_network_publish_total'' r")
    case (Pair u r1)
    show ?thesis
    proof (cases "register ''das_network_requests_total'' r1")
      case (Pair v r2)
      with \<open>register ''das_network_publish_total'' r = (u, r1)\<close> assms(1) [of "''das_network_requests_total''" r1 r2] show ?thesis
        by (cases u; cases v) (auto simp: Metrics_register_def)
    qed
  qed
  then show ?thesis using assms(2) by (auto simp: DasNetwork_new_def split: option.splits prod.splits sum.splits) (metis Inr_Inl_False)
qed

lemma default_network_without_metrics:
  assumes "\<And>name r r1. register name r = (Inr (), r1) \<Longrightarrow> \<exists>e r2. register name r1 = (Inl e, r2)"
    and "network_default K register build_swarm kp registry config keypair = Inr (limit, w)"
  shows "dn_metrics w = None \<and> limit = parallel_limit (case config of Some c \<Rightarrow> c | None \<Rightarrow> DasNetworkConfig_default)"
  using assms(2) metrics_never_registered [OF assms(1)]
  by (auto simp: network_default_def network_create_def res_map_Inr_iff split: sum.splits)

end
