(* ===== verification/Daser_Props.thy ===== *)
theory Daser_Props
  imports Daser
begin

text \<open>
  What the sampling client gets from the network and what it records: segments whose records were stored are fetched again,
  and where the client's bookkeeping and its choice of rows go wrong.
\<close>

section \<open>Fetching what was put\<close>

text \<open>A segment the client accepts at a position.\<close>

definition accepted ::
  "('fr, 'g1, 'g2, 'fs, 'fk) kzg_lib \<Rightarrow> ('g1, 'g2, 'fs) KZG \<Rightarrow> 'g1 \<Rightarrow> ('fr, 'g1) Segment \<Rightarrow> bool" where
  "accepted L kzg c seg \<longleftrightarrow> Segment_checked seg = Inr seg \<and> Segment_verify L seg kzg c SEGMENTS_PER_BLOB = Inr True"

text \<open>What a hash table documents: a record put with success is found under its key, and the other keys stay as they were.\<close>

definition dht_documented :: "'d kad_dht \<Rightarrow> bool" where
  "dht_documented H \<longleftrightarrow>
     (\<forall>rc quorum d d'. dht_put H rc quorum d = (Inr (), d') \<longrightarrow>
        dht_get H (rec_key rc) d' = FoundRecord rc \<and> (\<forall>key. key \<noteq> rec_key rc \<longrightarrow> dht_get H key d' = dht_get H key d))"

definition puts_succeed :: "'d kad_dht \<Rightarrow> (bytes \<times> bytes) list \<Rightarrow> 'd \<Rightarrow> bool" where
  "puts_succeed H kvs d \<longleftrightarrow> list_all (\<lambda>r. r = Inr ()) (fst (put_all H kvs d))"

text \<open>The records of the segments of a submission.\<close>

definition app_records ::
  "('fr, 'g1, 'h, 'd) daser_codecs \<Rightarrow> ('fr, 'g1) Segment list \<Rightarrow> u32 \<Rightarrow> u32 \<Rightarrow> (bytes \<times> bytes) list" where
  "app_records D segs app nonce =
     map (\<lambda>seg. (sample_key (pos_codec D) app nonce (position seg), encode (sd_codec D) (content seg))) segs"

lemma put_all_step [simp]:
  "fst (put_all H ((key, v) # kvs) d) =
     fst (dht_put H \<lparr> rec_key = key, rec_value = v \<rparr> All d) # fst (put_all H kvs (snd (dht_put H \<lparr> rec_key = key, rec_value = v \<rparr> All d)))"
  "snd (put_all H ((key, v) # kvs) d) = snd (put_all H kvs (snd (dht_put H \<lparr> rec_key = key, rec_value = v \<rparr> All d)))"
  by (simp_all add: case_prod_beta)

declare put_all.simps(2) [simp del]

lemma put_all_found:
  assumes "dht_documented H"
  shows "puts_succeed H kvs d \<Longrightarrow> key \<notin> fst ` set kvs \<Longrightarrow> dht_get H key (snd (put_all H kvs d)) = dht_get H key d"
    and "puts_succeed H kvs d \<Longrightarrow> distinct (map fst kvs) \<Longrightarrow> (key, v) \<in> set kvs \<Longrightarrow>
      dht_get H key (snd (put_all H kvs d)) = FoundRecord \<lparr> rec_key = key, rec_value = v \<rparr>"
proof -
  have one: "dht_get H key (snd (dht_put H rc q d)) = (if key = rec_key rc then FoundRecord rc else dht_get H key d)"
    if "fst (dht_put H rc q d) = Inr ()" for key rc q d
    using assms that by (cases "dht_put H rc q d") (auto simp: dht_documented_def)
  show other: "puts_succeed H kvs d \<Longrightarrow> key \<notin> fst ` set kvs \<Longrightarrow> dht_get H key (snd (put_all H kvs d)) = dht_get H key d" for key d kvs
  proof (induction kvs arbitrary: d)
    case (Cons kv kvs)
    then show ?case by (cases kv) (simp add: puts_succeed_def one)
  qed simp
  show "puts_succeed H kvs d \<Longrightarrow> distinct (map fst kvs) \<Longrightarrow> (key, v) \<in> set kvs \<Longrightarrow>
      dht_get H key (snd (put_all H kvs d)) = FoundRecord \<lparr> rec_key = key, rec_value = v \<rparr>"
  proof (induction kvs arbitrary: d)
    case (Cons kv kvs)
    obtain k u where kv: "kv = (k, u)" by (cases kv)
    let ?d = "snd (dht_put H \<lparr> rec_key = k, rec_value = u \<rparr> All d)"
    have ok: "fst (dht_put H \<lparr> rec_key = k, rec_value = u \<rparr> All d) = Inr ()" "puts_succeed H kvs ?d"
      using Cons.prems(1) kv by (simp_all add: puts_succeed_def)
    show ?case
    proof (cases "(key, v) \<in> set kvs")
      case True
      then show ?thesis using Cons.IH [OF ok(2)] Cons.prems(2) kv by simp
    next
      case False
      then have "key = k" "v = u" "key \<notin> fst ` set kvs" using Cons.prems(2,3) kv by auto
      then show ?thesis using other [OF ok(2)] one [OF ok(1)] kv by simp
    qed
  qed simp
qed

lemma put_app_segments_service:
  "put_app_segments D (service_net H) segs app nonce d = (Inr (), snd (put_all H (app_records D segs app nonce) d))"
  by (simp add: put_app_segments_def service_net_def of_net_def app_records_def)

lemma app_records_distinct:
  assumes "inj (encode (pos_codec D))" and "distinct (map position segs)"
  shows "distinct (map fst (app_records D segs app nonce))"
proof -
  have "map fst (app_records D segs app nonce) = map (sample_key (pos_codec D) app nonce) (map position segs)"
    by (simp add: app_records_def)
  moreover have "inj (sample_key (pos_codec D) app nonce)" using assms(1) by (simp add: inj_def sample_key_def)
  ultimately show ?thesis using assms(2) by (metis distinct_map inj_on_subset subset_UNIV)
qed

lemma app_segment_found:
  assumes "dht_documented H" and "inj (encode (pos_codec D))" and "distinct (map position segs)"
    and "puts_succeed H (app_records D segs app nonce) d" and "seg \<in> set segs"
  shows "net_get_value (service_net H) (snd (put_all H (app_records D segs app nonce) d)) (sample_key (pos_codec D) app nonce (position seg)) =
     Inr [encode (sd_codec D) (content seg)]"
proof -
  have "(sample_key (pos_codec D) app nonce (position seg), encode (sd_codec D) (content seg)) \<in> set (app_records D segs app nonce)"
    using assms(5) by (auto simp: app_records_def)
  from put_all_found(2) [OF assms(1,4) app_records_distinct [OF assms(2,3)] this]
  show ?thesis by (simp add: service_net_def values_of_def get_record_reply_def)
qed

lemma Segment_checked_Inr: "Segment_checked seg = Inr seg' \<Longrightarrow> seg' = seg"
  by (auto simp: Segment_checked_def split: if_splits)

text \<open>C16: What was put into the network is fetched from it. Putting any number of segments at different positions answers \<open>Ok\<close>, whatever became
  of the single records; when each of them was stored, fetching at the position of any of the segments whose proof verifies
  against the commitment gives exactly that segment's data.\<close>

theorem put_segments_are_fetched:
  assumes "dht_documented H" and "inj (encode (pos_codec D))" and "distinct (map position segs)"
    and "\<And>seg. seg \<in> set segs \<Longrightarrow> decode (sd_codec D) (encode (sd_codec D) (content seg)) = Some (content seg)"
  shows "\<exists>d'. put_app_segments D (service_net H) segs app nonce d = (Inr (), d') \<and>
     (puts_succeed H (app_records D segs app nonce) d \<longrightarrow>
        (\<forall>seg \<in> set segs. \<forall>c. accepted L kzg c seg \<longrightarrow>
           fetch_segment_data L D (service_net H) kzg d' app nonce (position seg) c = Inr (Some (content seg))))"
proof -
  have "fetch_segment_data L D (service_net H) kzg (snd (put_all H (app_records D segs app nonce) d)) app nonce (position seg) c =
      Inr (Some (content seg))"
    if ok: "puts_succeed H (app_records D segs app nonce) d" and seg: "seg \<in> set segs" and acc: "accepted L kzg c seg" for seg c
  proof -
    have own: "\<lparr> position = position seg, content = content seg \<rparr> = seg" by (rule Segment.equality) simp_all
    have "verify_values L (sd_codec D) kzg [encode (sd_codec D) (content seg)] c (position seg) = Inr (Some seg)"
      using assms(4) [OF seg] acc by (simp add: own accepted_def)
    then show ?thesis
      using app_segment_found [OF assms(1-3) ok seg] by (simp add: fetch_segment_data_def fetch_value_def)
  qed
  then show ?thesis unfolding put_app_segments_service by blast
qed

text \<open>An instance: the hash table is a map, and every value decodes to the one zero element.\<close>

definition map_net :: "(bytes \<rightharpoonup> bytes) das_net" where
  "map_net = service_net map_dht"

definition sample_codecs :: "(bytes, bytes list, bytes, nat list) daser_codecs" where
  "sample_codecs =
     \<lparr> pos_codec = \<lparr> encode = \<lambda>p. u32_to_be_bytes (pos_x p) @ u32_to_be_bytes (pos_y p), decode = \<lambda>_. None \<rparr>,
       sd_codec = \<lparr> encode = \<lambda>_. [1], decode = \<lambda>v. if v = [1] then Some \<lparr> sd_data = [sample_zero], sd_proof = [] \<rparr> else None \<rparr>,
       header_hash_bytes = \<lambda>h. replicate 32 (ucast (hdr_number h)),
       rel_codec = \<lparr> encode = \<lambda>_. [], decode = \<lambda>_. None \<rparr>, lpb_codec = \<lparr> encode = \<lambda>b. u32_to_be_bytes (lpb_block_num b), decode = \<lambda>_. None \<rparr>,
       number_codec = \<lparr> encode = u32_to_be_bytes, decode = \<lambda>_. None \<rparr> \<rparr>"

lemma map_dht_documented: "dht_documented map_dht"
  by (simp add: dht_documented_def map_dht_def)

lemma map_dht_puts_succeed: "puts_succeed map_dht kvs d"
proof (induction kvs arbitrary: d)
  case (Cons kv kvs)
  then show ?case by (cases kv) (simp add: puts_succeed_def map_dht_def)
qed (simp add: puts_succeed_def)

lemma sample_pos_codec_inj: "inj (encode (pos_codec sample_codecs))"
  by (simp add: inj_def sample_codecs_def append_eq_append_conv)

lemma zero_segment_accepted:
  "accepted sample_lib (sample_kzg 4096) [] \<lparr> position = pos, content = \<lparr> sd_data = [sample_zero], sd_proof = pr \<rparr> \<rparr>"
proof -
  have "get_kzg_index sample_lib (sample_kzg 4096) (2 ^ 7) i 1 = Inr (domain_pos 7 i * 16)" for i
    by (rule get_kzg_index_domain_pos) (simp_all add: KZG_max_width_def sample_lib_def sample_kzg_def)
  moreover have "domain_pos 7 i * 16 \<le> 4096" for i using domain_pos_less [of 7 i] by simp
  ultimately have "Segment_verify sample_lib \<lparr> position = pos, content = \<lparr> sd_data = [sample_zero], sd_proof = pr \<rparr> \<rparr>
      (sample_kzg 4096) [] 128 = Inr True"
    by (simp add: Segment_verify_def KZG_check_proof_multi_def Segment_size_def)
      (simp add: sample_lib_def sample_kzg_def get_expanded_roots_of_unity_at_def reverse_bit_order_def)
  then show ?thesis by (simp add: accepted_def Segment_checked_def is_power_of_two.simps config_defs)
qed

theorem put_segments_are_fetched_witness:
  "let seg = \<lambda>x. \<lparr> position = \<lparr> pos_x = x, pos_y = 0 \<rparr>, content = \<lparr> sd_data = [sample_zero], sd_proof = [] \<rparr> \<rparr>
   in fetch_segment_data sample_lib sample_codecs map_net (sample_kzg 4096)
        (snd (put_app_segments sample_codecs map_net [seg 3, seg 4] 1 2 Map.empty)) 1 2 \<lparr> pos_x = 3, pos_y = 0 \<rparr> [] =
      Inr (Some \<lparr> sd_data = [sample_zero], sd_proof = [] \<rparr>)"
proof -
  let ?seg = "\<lambda>x. \<lparr> position = \<lparr> pos_x = x, pos_y = 0 \<rparr>, content = \<lparr> sd_data = [sample_zero], sd_proof = [] \<rparr> \<rparr>"
  have dec: "decode (sd_codec sample_codecs) (encode (sd_codec sample_codecs) (content seg)) = Some (content seg)"
    if "seg \<in> set [?seg 3, ?seg 4]" for seg using that by (auto simp: sample_codecs_def)
  have "distinct (map position [?seg 3, ?seg 4])" by simp
  from put_segments_are_fetched [OF map_dht_documented sample_pos_codec_inj this dec,
      where L = sample_lib and kzg = "sample_kzg 4096" and app = 1 and nonce = 2 and d = Map.empty] map_dht_puts_succeed
  obtain d' where d': "put_app_segments sample_codecs map_net [?seg 3, ?seg 4] 1 2 Map.empty = (Inr (), d')"
      "\<forall>seg \<in> set [?seg 3, ?seg 4]. \<forall>c. accepted sample_lib (sample_kzg 4096) c seg \<longrightarrow>
         fetch_segment_data sample_lib sample_codecs map_net (sample_kzg 4096) d' 1 2 (position seg) c = Inr (Some (content seg))"
    unfolding map_net_def by blast
  from d'(2) zero_segment_accepted [of "\<lparr> pos_x = 3, pos_y = 0 \<rparr>" "[]"]
  have "fetch_segment_data sample_lib sample_codecs map_net (sample_kzg 4096) d' 1 2 \<lparr> pos_x = 3, pos_y = 0 \<rparr> [] =
      Inr (Some \<lparr> sd_data = [sample_zero], sd_proof = [] \<rparr>)" by force
  with d'(1) show ?thesis by simp
qed

section \<open>Which blocks are sampled\<close>

text \<open>The listener's events, on the network and the database; the network changes by itself too.\<close>

inductive listener_step ::
  "('fr, 'g1, 'g2, 'fs, 'fk) kzg_lib \<Rightarrow> ('fr, 'g1, 'h, 'd) daser_codecs \<Rightarrow> 'n das_net \<Rightarrow> ('g1, 'g2, 'fs) KZG \<Rightarrow> 's DasKv
    \<Rightarrow> 'n \<times> 's \<Rightarrow> 'n \<times> 's \<Rightarrow> bool"
  for L D net kzg kv where
  transaction: "on_new_transaction L D net kzg n kv params db = Some db' \<Longrightarrow> listener_step L D net kzg kv (n, db) (n, db')"
| best_block: "on_best_block L D net kzg header n = Inr n' \<Longrightarrow> listener_step L D net kzg kv (n, db) (n', db)"
| finalized: "on_finalized L D net kzg n kv chain draws order num db = Some db' \<Longrightarrow> listener_step L D net kzg kv (n, db) (n, db')"
| peers: "listener_step L D net kzg kv (n, db) (n', db)"

definition no_last_at :: "'s DasKv \<Rightarrow> ('s \<Rightarrow> bool) \<Rightarrow> 's \<Rightarrow> bool" where
  "no_last_at kv ok db \<longleftrightarrow> ok db \<and> kv_get kv db LAST_AT_KEY = None"

lemma other_keys:
  "app_confidence a m \<noteq> LAST_AT_KEY" "LATEST_PROCESSED_BLOCK_KEY \<noteq> LAST_AT_KEY" "length k = 32 \<Longrightarrow> k \<noteq> LAST_AT_KEY"
proof -
  have len: "length LAST_AT_KEY = 21" by (simp add: LAST_AT_KEY_def str_bytes_def)
  show "length k = 32 \<Longrightarrow> k \<noteq> LAST_AT_KEY" using len by auto
  have "length (app_confidence a m) = 8" by (simp add: app_confidence_def)
  with len show "app_confidence a m \<noteq> LAST_AT_KEY" by auto
  have "length LATEST_PROCESSED_BLOCK_KEY = 20" by (simp add: LATEST_PROCESSED_BLOCK_KEY_def str_bytes_def)
  with len show "LATEST_PROCESSED_BLOCK_KEY \<noteq> LAST_AT_KEY" by auto
qed

context das_kv
begin

lemma no_last_at_set: "no_last_at kv inv db \<Longrightarrow> k \<noteq> LAST_AT_KEY \<Longrightarrow> no_last_at kv inv (kv_set kv db k v)"
  by (simp add: no_last_at_def get_set inv_set)

lemma no_last_at_client_sample:
  "no_last_at kv inv db \<Longrightarrow> client_sample L D net kzg n kv cid r cs db = Inr db' \<Longrightarrow> cid \<noteq> LAST_AT_KEY \<Longrightarrow> no_last_at kv inv db'"
  by (auto simp: client_sample_def Reliability_save_def res_simps no_last_at_set)

lemma no_last_at_set_last_at: "no_last_at kv inv db \<Longrightarrow> no_last_at kv inv (set_last_at D kv b h db)"
  by (simp add: set_last_at_def Let_def no_last_at_set other_keys)

lemma no_last_at_sample_application:
  "no_last_at kv inv db \<Longrightarrow> sample_application L D net kzg n kv app nonce cs draws db = Some (Inr db') \<Longrightarrow> no_last_at kv inv db'"
  by (auto simp: sample_application_def Let_def res_bind_Inr_iff other_keys intro: no_last_at_client_sample)

lemma no_last_at_sample_block:
  assumes "no_last_at kv inv db" and "sample_block L D net kzg n kv header draws db = Some (Inr db')"
    and "length (header_hash_bytes D header) = 32"
  shows "no_last_at kv inv db'"
  using assms(1,2) other_keys(3) [OF assms(3)]
  by (auto simp: sample_block_def block_confidence_def Let_def res_bind_Inr_iff res_map_Inr_iff
      split: option.splits if_splits sum.splits intro!: no_last_at_set_last_at intro: no_last_at_client_sample)

lemma no_last_at_logged:
  assumes "no_last_at kv inv db" and "logged db r = Some db'" and "\<And>db'. r = Some (Inr db') \<Longrightarrow> no_last_at kv inv db'"
  shows "no_last_at kv inv db'"
  using assms by (auto simp: logged_def split: option.splits sum.splits fail.splits)

lemma no_last_at_transactions:
  "on_new_transaction L D net kzg n kv params db = Some db' \<Longrightarrow> no_last_at kv inv db \<Longrightarrow> no_last_at kv inv db'"
proof (induction params arbitrary: db)
  case (Cons p ps)
  obtain m draws where p: "p = (m, draws)" by (cases p)
  with Cons.prems(1) obtain db1 where db1: "logged db (sample_application L D net kzg n kv (sm_app_id m) (sm_nonce m) (sm_commitments m) draws db)
      = Some db1" "on_new_transaction L D net kzg n kv ps db1 = Some db'"
    by (auto simp: bind_eq_Some_conv)
  have "no_last_at kv inv db1"
    by (rule no_last_at_logged [OF Cons.prems(2) db1(1)]) (rule no_last_at_sample_application [OF Cons.prems(2)])
  with Cons.IH db1(2) show ?case by blast
qed simp

lemma no_last_at_samplings:
  assumes "\<And>h. length (header_hash_bytes D h) = 32"
  shows "run_samplings L D net kzg n kv tasks db = Some db' \<Longrightarrow> no_last_at kv inv db \<Longrightarrow> no_last_at kv inv db'"
proof (induction tasks arbitrary: db)
  case (Cons t ts)
  obtain h draws where t: "t = (h, draws)" by (cases t)
  with Cons.prems(1) obtain db1 where db1: "logged db (sample_block L D net kzg n kv h draws db) = Some db1"
      "run_samplings L D net kzg n kv ts db1 = Some db'"
    by (auto simp: bind_eq_Some_conv)
  have "no_last_at kv inv db1"
    by (rule no_last_at_logged [OF Cons.prems(2) db1(1)]) (rule no_last_at_sample_block [OF Cons.prems(2) _ assms])
  with Cons.IH db1(2) show ?case by blast
qed simp

lemma no_last_at_steps:
  assumes "(listener_step L D net kzg kv)\<^sup>*\<^sup>* nd nd'" and "\<And>h. length (header_hash_bytes D h) = 32" and "no_last_at kv inv (snd nd)"
  shows "no_last_at kv inv (snd nd')"
  using assms(1,3)
proof (induction rule: rtranclp_induct)
  case (step y z)
  then have y: "no_last_at kv inv (snd y)" by simp
  from step(2) show ?case
  proof cases
    case (transaction n params db db')
    then show ?thesis using y no_last_at_transactions by simp
  next
    case (finalized n chain draws order num db db')
    then show ?thesis using y no_last_at_samplings [OF assms(2)] by (auto simp: on_finalized_def Let_def)
  qed (use y in simp_all)
qed

end

lemma first_blocks: "set (blocks_to_sample 0 finalized) \<subseteq> {1, 2}"
proof -
  have "unat (min finalized 3) \<le> 3" by (simp add: min_def word_le_nat_alt)
  then have "set [1..<unat (min finalized 3)] \<subseteq> {1, 2}" by auto
  then show ?thesis by (auto simp: blocks_to_sample_def BLOCK_SAMPLE_LIMIT_def Let_def)
qed

text \<open>C37: The client never gets past the second block. The number of the last sampled block is read under one key and written, as part of
  another record, under a different one; so, starting from a database without that entry, after any sequence of
  transactions, best blocks and finalised blocks the last sampled number is still 0, and a finalised block of any number makes
  the client sample the blocks 1 and 2 at most.\<close>

theorem sampling_never_advances:
  assumes "das_kv kv ok" and "ok db" and "kv_get kv db LAST_AT_KEY = None" and "\<And>h. length (header_hash_bytes D h) = 32"
    and "(listener_step L D net kzg kv)\<^sup>*\<^sup>* (n, db) (n', db')"
  shows "last_at D kv db' = 0 \<and> set (blocks_to_sample (last_at D kv db') finalized) \<subseteq> {1, 2}"
proof -
  have "no_last_at kv ok db" using assms(2,3) by (simp add: no_last_at_def)
  with das_kv.no_last_at_steps [OF assms(1,5,4)] have "no_last_at kv ok db'" by simp
  then have "last_at D kv db' = 0" by (simp add: no_last_at_def last_at_def)
  then show ?thesis using first_blocks by simp
qed

theorem sampling_never_advances_witness:
  "let chain = \<lambda>i. if i = 0 then None else Some (Header_new i [] [] [] []);
       db = on_finalized sample_lib sample_codecs map_net (sample_kzg 4096) Map.empty MockDb_kv chain (\<lambda>_. []) rev 9 MockDb_new
   in db \<noteq> None \<and> kv_get MockDb_kv (the db) LATEST_PROCESSED_BLOCK_KEY = Some (u32_to_be_bytes 1) \<and>
      last_at sample_codecs MockDb_kv (the db) = 0 \<and> set (blocks_to_sample (last_at sample_codecs MockDb_kv (the db)) 1000) \<subseteq> {1, 2}"
proof -
  let ?chain = "\<lambda>i. if i = 0 then None else Some (Header_new i [] [] [] [])"
  have tasks: "List.map_filter (\<lambda>i. map_option (\<lambda>header. (header, [])) (?chain i)) (blocks_to_sample 0 9) =
      [(Header_new 1 [] [] [] [], []), (Header_new 2 [] [] [] [], [])]"
    by (simp add: blocks_to_sample_def BLOCK_SAMPLE_LIMIT_def min_def upt_rec List.map_filter_simps)
  have sample: "sample_block sample_lib sample_codecs map_net (sample_kzg 4096) n MockDb_kv (Header_new i [] [] [] []) [] db =
      Some (Inr (set_last_at sample_codecs MockDb_kv i (header_hash_bytes sample_codecs (Header_new i [] [] [] [])) db))" for n db i
    by (simp add: sample_block_def Header_commitments_def Header_new_def HeaderExtension_default_def)
  have "last_at sample_codecs MockDb_kv MockDb_new = 0" by (simp add: last_at_def MockDb_get_def MockDb_new_def)
  then obtain db where db: "on_finalized sample_lib sample_codecs map_net (sample_kzg 4096) Map.empty MockDb_kv ?chain (\<lambda>_. []) rev 9 MockDb_new = Some db"
      "kv_get MockDb_kv db LATEST_PROCESSED_BLOCK_KEY = Some (u32_to_be_bytes 1)"
    by (simp add: on_finalized_def tasks sample logged_def set_last_at_def other_keys)
      (simp add: MockDb_get_def MockDb_new_def MockDb_set_def sample_codecs_def)
  have "(listener_step sample_lib sample_codecs map_net (sample_kzg 4096) MockDb_kv)\<^sup>*\<^sup>* (Map.empty, MockDb_new) (Map.empty, db)"
    by (rule r_into_rtranclp, rule listener_step.finalized [OF db(1)])
  moreover have "kv_get MockDb_kv MockDb_new LAST_AT_KEY = None" by (simp add: MockDb_get_def MockDb_new_def)
  moreover have "length (header_hash_bytes sample_codecs h) = 32" for h by (simp add: sample_codecs_def)
  ultimately have "last_at sample_codecs MockDb_kv db = 0 \<and> set (blocks_to_sample (last_at sample_codecs MockDb_kv db) 1000) \<subseteq> {1, 2}"
    by (intro sampling_never_advances [OF mock_kv.das_kv_axioms TrueI])
  then show ?thesis unfolding Let_def db(1) option.sel using db(2) by blast
qed

section \<open>Which rows are checked\<close>

lemma draw_positions_rows:
  assumes "draw_positions draws k cs ps (map (\<lambda>p. cs ! unat (pos_y p)) ps) = Some (Inr (ps', cs'))"
  shows "cs' = map (\<lambda>p. cs ! unat (pos_y p)) ps'"
  using assms
proof (induction draws arbitrary: ps)
  case Nil
  then show ?case by (auto simp: draw_positions.simps split: if_splits)
next
  case (Cons d draws)
  let ?pos = "\<lparr> pos_x = of_nat (fst d), pos_y = of_nat (snd d) \<rparr>"
  consider (enough) "\<not> length ps < k" | (old) "length ps < k" "?pos \<in> set ps" | (new) "length ps < k" "?pos \<notin> set ps" by blast
  then show ?case
  proof cases
    case enough
    then show ?thesis using Cons.prems by (auto simp: draw_positions.simps)
  next
    case old
    then show ?thesis using Cons by (simp add: draw_positions.simps [of "d # draws"] case_prod_beta)
  next
    case new
    with Cons.prems have "draw_positions draws k cs (ps @ [?pos]) (map (\<lambda>p. cs ! unat (pos_y p)) (ps @ [?pos])) = Some (Inr (ps', cs'))"
      by (auto simp: draw_positions.simps [of "d # draws"] case_prod_beta res_simps split: sum.splits)
    then show ?thesis by (rule Cons.IH)
  qed
qed

lemma draw_positions_drawn:
  "draw_positions draws k cs ps acc = Some (Inr (ps', cs')) \<Longrightarrow> length ps \<le> k \<Longrightarrow>
     length ps' = k \<and> set ps' \<subseteq> set ps \<union> pos_of ` set draws"
proof (induction draws arbitrary: ps acc)
  case Nil
  then show ?case by (auto simp: draw_positions.simps split: if_splits)
next
  case (Cons d draws)
  consider (enough) "length ps = k" | (old) "length ps < k" "pos_of d \<in> set ps" | (new) "length ps < k" "pos_of d \<notin> set ps"
    using Cons.prems(2) by fastforce
  then show ?case
  proof cases
    case enough
    then show ?thesis using Cons.prems(1) by (auto simp: draw_positions.simps)
  next
    case old
    then show ?thesis using Cons.IH [of ps acc] Cons.prems by (auto simp: draw_positions.simps [of "d # draws"] case_prod_beta pos_of_def)
  next
    case new
    with Cons.prems obtain c where "draw_positions draws k cs (ps @ [pos_of d]) (acc @ [c]) = Some (Inr (ps', cs'))"
      by (auto simp: draw_positions.simps [of "d # draws"] case_prod_beta pos_of_def split: sum.splits)
    from Cons.IH [OF this] new show ?thesis by auto
  qed
qed

lemma block_sample_position: "block_sample_of pc lookups bh k p = Inr smp \<Longrightarrow> sample_position smp = p"
  by (auto simp: block_sample_of_def split: if_splits option.splits)

lemma set_sample_block_drawn:
  assumes "set_sample pc (Reliability_new Block ext) k lookups (Some bh) draws = Some (Inr (scs, conf))"
    and "0 < length ext" "length ext < 2 ^ 32"
  obtains ps where "draw_positions draws k ext [] [] = Some (Inr (ps, scs))"
    "traverse (block_sample_of pc lookups bh (of_nat (length ext))) ps = Inr (samples conf)" "length (samples conf) = k" "length scs = k"
proof -
  have "(of_nat (length ext) :: u32) \<noteq> 0" using assms(2,3) by (simp add: word_unat_eq_iff [of _ 0] unat_of_nat_u32)
  with assms(1) obtain ps where ps: "draw_positions draws k ext [] [] = Some (Inr (ps, scs))"
      "traverse (block_sample_of pc lookups bh (of_nat (length ext))) ps = Inr (samples conf)"
    by (auto simp: set_sample_def Reliability_new_def Let_def res_map_Inr_iff split: option.splits sum.splits)
  moreover have "length (samples conf) = k" using draw_positions_drawn [OF ps(1)] ps(2) by (auto simp: traverse_Inr_iff)
  moreover have "length scs = k" using draw_positions_drawn [OF ps(1)] draw_positions_rows [of draws k ext "[]"] ps(1) by simp
  ultimately show ?thesis by (rule that)
qed

lemma set_sample_block_rows:
  assumes "set_sample pc (Reliability_new Block ext) k lookups (Some bh) draws = Some (Inr (scs, conf))"
    and "0 < length ext" "length ext < 2 ^ 32" and "i < length (samples conf)"
  shows "i < length scs \<and> scs ! i = ext ! unat (pos_y (sample_position (samples conf ! i))) \<and>
     block_sample_of pc lookups bh (of_nat (length ext)) (sample_position (samples conf ! i)) = Inr (samples conf ! i) \<and>
     sample_position (samples conf ! i) \<in> pos_of ` set draws"
proof -
  obtain ps where ps: "draw_positions draws k ext [] [] = Some (Inr (ps, scs))"
      "traverse (block_sample_of pc lookups bh (of_nat (length ext))) ps = Inr (samples conf)"
    by (rule set_sample_block_drawn [OF assms(1-3)])
  from ps(2) assms(4) have i: "i < length ps" and bs: "block_sample_of pc lookups bh (of_nat (length ext)) (ps ! i) = Inr (samples conf ! i)"
    by (auto simp: traverse_Inr_iff)
  from bs have "sample_position (samples conf ! i) = ps ! i" by (rule block_sample_position)
  moreover have "ps ! i \<in> pos_of ` set draws" using draw_positions_drawn [OF ps(1)] nth_mem [OF i] by auto
  ultimately show ?thesis using draw_positions_rows [of draws k ext "[]"] ps(1) i bs by simp
qed

text \<open>What the client saves: every sample, marked when the value fetched for it passed the check with the commitment of the same place.\<close>

lemma client_sample_checked:
  assumes "client_sample L D net kzg n kv cid conf scs db = Inr db1" and "length (samples conf) = length scs"
  shows "\<exists>checked. db1 = Reliability_save kv (rel_codec D) (conf\<lparr> samples := checked \<rparr>) cid db \<and> length checked = length scs \<and>
     (\<forall>i < length scs. \<exists>found. fetch_sample L D net kzg n (samples conf ! i) (scs ! i) = Inr found \<and>
        checked ! i = (if found \<noteq> None then Sample_set_success (samples conf ! i) else samples conf ! i))"
proof -
  obtain checked where c: "traverse (\<lambda>(sample, commitment). res_map (\<lambda>found. if found \<noteq> None then Sample_set_success sample else sample)
        (fetch_sample L D net kzg n sample commitment)) (zip (samples conf) scs) = Inr checked"
      "db1 = Reliability_save kv (rel_codec D) (conf\<lparr> samples := checked @ drop (length scs) (samples conf) \<rparr>) cid db"
    using assms(1) by (auto simp only: client_sample_def res_map_Inr_iff)
  have "length checked = length scs" using c(1) assms(2) by (simp add: traverse_Inr_iff)
  moreover have "\<forall>i < length scs. \<exists>found. fetch_sample L D net kzg n (samples conf ! i) (scs ! i) = Inr found \<and>
      checked ! i = (if found \<noteq> None then Sample_set_success (samples conf ! i) else samples conf ! i)"
    using c(1) assms(2) by (simp add: traverse_Inr_iff res_map_Inr_iff)
  ultimately show ?thesis using c(2) assms(2) by (intro exI [of _ checked]) simp
qed

text \<open>C38: The samples of a block are checked against the commitments of other rows. The client extends the commitments of the header, which
  interleaves the new ones with them, and takes the commitment of row y at place y of the result, while it fetches the segment of row y
  of the header. Whatever eight positions \<open>set_sample\<close> takes from the draws, a sampling that succeeds saves them with a mark for
  each that was found; and a sample in row 2 k of the block, which is looked up with the application that owns row 2 k, has the mark
  exactly when a value was fetched that passes the check with the commitment of row k.\<close>

theorem block_samples_check_other_rows:
  assumes "Header_commitments L header = Some cs" and "cs \<noteq> []" and "length cs < 2 ^ 31"
    and "g1_extension_documented L (KZG_get_fs kzg) (length cs)"
    and "sample_block L D net kzg n kv header draws db = Some (Inr db')"
  shows "\<exists>ext scs conf checked. extend_fs_g1 L (KZG_get_fs kzg) cs = Inr ext \<and>
     set_sample (pos_codec D) (Reliability_new Block ext) SAMPLES_PER_BLOCK (ext_app_lookup (hdr_extension header))
       (Some (header_hash_bytes D header)) draws = Some (Inr (scs, conf)) \<and>
     db' = set_last_at D kv (hdr_number header) (header_hash_bytes D header)
       (Reliability_save kv (rel_codec D) (conf\<lparr> samples := checked \<rparr>) (block_confidence (header_hash_bytes D header)) db) \<and>
     length (samples conf) = SAMPLES_PER_BLOCK \<and> length checked = SAMPLES_PER_BLOCK \<and>
     (\<forall>i < SAMPLES_PER_BLOCK. sample_position (samples conf ! i) \<in> pos_of ` set draws) \<and>
     (\<forall>i < SAMPLES_PER_BLOCK. \<forall>k. 2 * k < length cs \<longrightarrow> pos_y (sample_position (samples conf ! i)) = of_nat (2 * k) \<longrightarrow>
        (\<exists>found. fetch_sample L D net kzg n (samples conf ! i) (cs ! k) = Inr found \<and>
           checked ! i = (if found \<noteq> None then Sample_set_success (samples conf ! i) else samples conf ! i)) \<and>
        (\<exists>l rel. HeaderExtension_get_lookup (hdr_extension header) (of_nat (2 * k)) = Some (l, rel) \<and>
           sample_id (samples conf ! i) = sample_key (pos_codec D) (al_app_id l) (al_nonce l)
             \<lparr> pos_x = pos_x (sample_position (samples conf ! i)), pos_y = rel \<rparr>))"
proof -
  obtain ext where ext: "extend_fs_g1 L (KZG_get_fs kzg) cs = Inr ext" "length ext = 2 * length cs"
      "\<And>i. i < length cs \<Longrightarrow> ext ! (2 * i) = cs ! i"
    using extend_fs_g1_interleaved [OF assms(4)] by blast
  from assms(1,2,5) ext(1) obtain scs conf db1 where
    set: "set_sample (pos_codec D) (Reliability_new Block ext) SAMPLES_PER_BLOCK (ext_app_lookup (hdr_extension header))
        (Some (header_hash_bytes D header)) draws = Some (Inr (scs, conf))"
    and run: "client_sample L D net kzg n kv (block_confidence (header_hash_bytes D header)) conf scs db = Inr db1"
      "db' = set_last_at D kv (hdr_number header) (header_hash_bytes D header) db1"
    by (auto simp: sample_block_def Let_def res_bind_Inr_iff res_map_Inr_iff)
  have bounds: "0 < length ext" "length ext < 2 ^ 32" using ext(2) assms(2,3) by auto
  have half: "(of_nat (length ext) :: u32) div 2 = of_nat (length cs)"
  proof -
    have "unat (of_nat (length ext) :: u32) = 2 * length cs" using unat_of_nat_u32 [OF bounds(2)] ext(2) by simp
    then have "unat ((of_nat (length ext) :: u32) div 2) = length cs" by (simp add: unat_div)
    also have "\<dots> = unat (of_nat (length cs) :: u32)" using assms(3) by (simp add: unat_of_nat_u32)
    finally show ?thesis unfolding word_unat_eq_iff .
  qed
  have k8: "length (samples conf) = SAMPLES_PER_BLOCK" "length scs = SAMPLES_PER_BLOCK"
    by (rule set_sample_block_drawn [OF set bounds], assumption)+
  obtain checked where checked: "db1 = Reliability_save kv (rel_codec D) (conf\<lparr> samples := checked \<rparr>) (block_confidence (header_hash_bytes D header)) db"
      "length checked = SAMPLES_PER_BLOCK" "\<And>i. i < SAMPLES_PER_BLOCK \<Longrightarrow> \<exists>found. fetch_sample L D net kzg n (samples conf ! i) (scs ! i) = Inr found \<and>
        checked ! i = (if found \<noteq> None then Sample_set_success (samples conf ! i) else samples conf ! i)"
    using client_sample_checked [OF run(1)] k8 by auto
  have "scs ! i = cs ! k \<and> (\<exists>l rel. HeaderExtension_get_lookup (hdr_extension header) (of_nat (2 * k)) = Some (l, rel) \<and>
           sample_id (samples conf ! i) = sample_key (pos_codec D) (al_app_id l) (al_nonce l)
             \<lparr> pos_x = pos_x (sample_position (samples conf ! i)), pos_y = rel \<rparr>)"
    if i: "i < length (samples conf)" and k: "2 * k < length cs" and y: "pos_y (sample_position (samples conf ! i)) = of_nat (2 * k)" for i k
  proof -
    note s = set_sample_block_rows [OF set bounds i]
    have u: "unat (of_nat (2 * k) :: u32) = 2 * k" using k assms(3) by (intro unat_of_nat_u32) simp
    then have row: "scs ! i = cs ! k" using s y ext(3) [of k] k by simp
    have "(of_nat (2 * k) :: u32) < of_nat (length cs)"
      unfolding word_less_nat_alt u using k assms(3) by (simp add: unat_of_nat_u32)
    with s y half have "\<exists>l rel. HeaderExtension_get_lookup (hdr_extension header) (of_nat (2 * k)) = Some (l, rel) \<and>
        samples conf ! i = \<lparr> sample_id = sample_key (pos_codec D) (al_app_id l) (al_nonce l)
             \<lparr> pos_x = pos_x (sample_position (samples conf ! i)), pos_y = rel \<rparr>,
           sample_position = sample_position (samples conf ! i), sample_is_availability = False \<rparr>"
      by (auto simp: block_sample_of_def HeaderExtension_get_lookup_def split: option.splits)
    with row show ?thesis by (metis Sample.select_convs(1))
  qed
  moreover have "sample_position (samples conf ! i) \<in> pos_of ` set draws" if "i < length (samples conf)" for i
    using set_sample_block_rows [OF set bounds that] by blast
  ultimately show ?thesis using ext(1) set run(2) checked k8
    by (intro exI [of _ ext] exI [of _ scs] exI [of _ conf] exI [of _ checked]) (metis (no_types, lifting))
qed

text \<open>An instance: a block of four rows of one application, all samples drawn in row 2.\<close>

definition four_rows :: "(bytes, nat list) Header" where
  "four_rows = SystemExt_finalize (doubling_lib sample_lib) (Header_new 1 [] [] [] [])
     (map (\<lambda>i. [replicate 48 i]) [1, 2, 3, 4], [\<lparr> al_app_id = 1, al_nonce = 1, al_count = 4 \<rparr>])"

lemma four_rows_commitments: "Header_commitments (doubling_lib sample_lib) four_rows = Some (map (\<lambda>i. [replicate 48 i]) [1, 2, 3, 4])"
  and four_rows_lookups: "ext_app_lookup (hdr_extension four_rows) = [\<lparr> al_app_id = 1, al_nonce = 1, al_count = 4 \<rparr>]"
proof -
  have "g1_roundtrip (doubling_lib sample_lib) (map (\<lambda>i. [replicate 48 i]) [1, 2, 3, 4])"
    by (simp add: g1_roundtrip_def doubling_lib_def sample_lib_def resize_def)
  from finalize_header_fields [OF this, of "Header_new 1 [] [] [] [] :: (bytes, nat list) Header" "[\<lparr> al_app_id = 1, al_nonce = 1, al_count = 4 \<rparr>]"]
  show "Header_commitments (doubling_lib sample_lib) four_rows = Some (map (\<lambda>i. [replicate 48 i]) [1, 2, 3, 4])"
    and "ext_app_lookup (hdr_extension four_rows) = [\<lparr> al_app_id = 1, al_nonce = 1, al_count = 4 \<rparr>]"
    by (simp_all add: four_rows_def Let_def)
qed

lemma empty_net_sample:
  "client_sample L D map_net kzg Map.empty kv cid conf cs db =
     Inr (Reliability_save kv (rel_codec D) (conf\<lparr> samples := map fst (zip (samples conf) cs) @ drop (length cs) (samples conf) \<rparr>) cid db)"
proof -
  have "traverse (\<lambda>(sample, commitment). res_map (\<lambda>found. if found \<noteq> None then Sample_set_success sample else sample)
      (fetch_sample L D map_net kzg Map.empty sample commitment)) ps = Inr (map fst ps)" for ps
    by (rule traverse_all_Inr) (auto simp: fetch_sample_def fetch_value_def map_net_def service_net_def map_dht_def values_of_def get_record_reply_def)
  then show ?thesis by (simp add: client_sample_def)
qed

lemma four_rows_sampled:
  "\<exists>db'. sample_block (doubling_lib sample_lib) sample_codecs map_net (sample_kzg 4096) Map.empty MockDb_kv four_rows
     (map (\<lambda>x. (x, 2)) [0..<8]) db = Some (Inr db')"
proof -
  let ?cs = "map (\<lambda>i. [replicate 48 i]) [1, 2, 3, 4 :: u8]" and ?draws = "map (\<lambda>x. (x, 2)) [0..<8] :: (nat \<times> nat) list"
  obtain ext where ext: "extend_fs_g1 (doubling_lib sample_lib) (KZG_get_fs (sample_kzg 4096)) ?cs = Inr ext" "length ext = 8"
    using extend_fs_g1_interleaved [OF doubling_lib_documented [of sample_lib "KZG_get_fs (sample_kzg 4096)"], where els = ?cs] by auto
  have card: "card (pos_of ` set ?draws) = 8"
  proof -
    have "draws_in_range 8 ?draws" by (auto simp: draws_in_range_def extended_256)
    then have "inj_on pos_of (set ?draws)" by (intro pos_of_inj [of 8]) simp_all
    then have "card (pos_of ` set ?draws) = card (set ?draws)" by (rule card_image)
    also have "\<dots> = 8" by (simp add: card_image inj_on_def)
    finally show ?thesis .
  qed
  have range: "draws_in_range (length ext) ?draws" by (auto simp: draws_in_range_def extended_256 ext(2))
  from draw_positions_returns [OF _ range, of "[]" SAMPLES_PER_BLOCK] card obtain ps where
    ps: "draw_positions ?draws SAMPLES_PER_BLOCK ext [] [] = Some (Inr (ps, map (\<lambda>p. ext ! unat (pos_y p)) ps))"
    by (auto simp: ext(2) SAMPLES_PER_BLOCK_def)
  have "\<exists>smp. block_sample_of (pos_codec sample_codecs) [\<lparr> al_app_id = 1, al_nonce = 1, al_count = 4 \<rparr>]
      (header_hash_bytes sample_codecs four_rows) (of_nat (length ext)) p = Inr smp \<and> sample_position smp = p" for p
    using block_sample_of_ok [of "[\<lparr> al_app_id = 1, al_nonce = 1, al_count = 4 \<rparr>]" "of_nat (length ext)" "pos_codec sample_codecs"
        "header_hash_bytes sample_codecs four_rows" p] by (auto simp: ext(2))
  from traverse_section [OF this] obtain ss where "traverse (block_sample_of (pos_codec sample_codecs)
      [\<lparr> al_app_id = 1, al_nonce = 1, al_count = 4 \<rparr>] (header_hash_bytes sample_codecs four_rows) (of_nat (length ext))) ps = Inr ss"
    by blast
  then show ?thesis using ps ext
    by (simp add: sample_block_def four_rows_commitments four_rows_lookups set_sample_def Reliability_new_def Let_def empty_net_sample
        del: of_nat_numeral)
qed

theorem block_samples_check_other_rows_witness:
  "\<exists>ext scs conf. extend_fs_g1 (doubling_lib sample_lib) (KZG_get_fs (sample_kzg 4096)) (map (\<lambda>i. [replicate 48 i]) [1, 2, 3, 4]) = Inr ext \<and>
     set_sample (pos_codec sample_codecs) (Reliability_new Block ext) SAMPLES_PER_BLOCK (ext_app_lookup (hdr_extension four_rows))
       (Some (header_hash_bytes sample_codecs four_rows)) (map (\<lambda>x. (x, 2)) [0..<8]) = Some (Inr (scs, conf)) \<and>
     length (samples conf) = 8 \<and>
     (\<forall>i < 8. pos_y (sample_position (samples conf ! i)) = 2 \<and> 
        (\<exists>found. fetch_sample (doubling_lib sample_lib) sample_codecs map_net (sample_kzg 4096) Map.empty (samples conf ! i) [replicate 48 2] = Inr found))"
proof -
  obtain db' where run: "sample_block (doubling_lib sample_lib) sample_codecs map_net (sample_kzg 4096) Map.empty MockDb_kv four_rows
     (map (\<lambda>x. (x, 2)) [0..<8]) MockDb_new = Some (Inr db')"
    using four_rows_sampled by blast
  have "map (\<lambda>i. [replicate 48 i]) [1, 2, 3, 4] \<noteq> ([] :: bytes list list)" "length (map (\<lambda>i. [replicate 48 i]) [1, 2, 3, 4 :: u8]) < 2 ^ 31" by simp_all
  from block_samples_check_other_rows [OF four_rows_commitments this doubling_lib_documented run]
  obtain ext scs conf where c: "extend_fs_g1 (doubling_lib sample_lib) (KZG_get_fs (sample_kzg 4096)) (map (\<lambda>i. [replicate 48 i]) [1, 2, 3, 4]) = Inr ext"
      "set_sample (pos_codec sample_codecs) (Reliability_new Block ext) SAMPLES_PER_BLOCK (ext_app_lookup (hdr_extension four_rows))
        (Some (header_hash_bytes sample_codecs four_rows)) (map (\<lambda>x. (x, 2)) [0..<8]) = Some (Inr (scs, conf))"
      "length (samples conf) = SAMPLES_PER_BLOCK"
    and drawn: "\<And>i. i < SAMPLES_PER_BLOCK \<Longrightarrow> sample_position (samples conf ! i) \<in> pos_of ` set (map (\<lambda>x. (x, 2)) [0..<8])"
    and rows: "\<And>i k. i < SAMPLES_PER_BLOCK \<Longrightarrow> 2 * k < length (map (\<lambda>i. [replicate 48 i]) [1, 2, 3, 4 :: u8]) \<Longrightarrow> pos_y (sample_position (samples conf ! i)) = of_nat (2 * k) \<Longrightarrow>
        \<exists>found. fetch_sample (doubling_lib sample_lib) sample_codecs map_net (sample_kzg 4096) Map.empty (samples conf ! i)
          (map (\<lambda>i. [replicate 48 i]) [1, 2, 3, 4] ! k) = Inr found"
    by (elim exE conjE) (rule that, assumption, assumption, assumption, blast, blast)
  have "pos_y (sample_position (samples conf ! i)) = 2" if "i < SAMPLES_PER_BLOCK" for i
    using drawn [OF that] by (auto simp: pos_of_def)
  moreover from this have "\<exists>found. fetch_sample (doubling_lib sample_lib) sample_codecs map_net (sample_kzg 4096) Map.empty (samples conf ! i) [replicate 48 2] = Inr found" if "i < SAMPLES_PER_BLOCK" for i
    using rows [OF that, of 1] that by simp
  ultimately show ?thesis using c by (intro exI [of _ ext] exI [of _ scs] exI [of _ conf]) (simp add: SAMPLES_PER_BLOCK_def)
qed

section \<open>Fetching columns\<close>

lemma verify_values_Inl: "verify_values L sdc kzg vs c pos = Inl e \<Longrightarrow> \<exists>m. e = Panic m"
  by (induction vs) (auto simp: Let_def split: option.splits sum.splits fail.splits if_splits)

lemma length_column_keys:
  assumes "column_keys D header (of_nat k) x = Inr ck" and "k < 2 ^ 31"
  shows "length ck = 2 * k"
proof -
  have "unat (of_nat k :: u32) = k" using assms(2) by (simp add: unat_of_nat_u32)
  moreover have "unat (of_nat k * 2 :: u32) = 2 * k"
    using unat_of_nat_u32 [of "2 * k"] assms(2) by (simp add: mult.commute)
  ultimately show ?thesis using assms(1)
    by (auto simp: column_keys_def res_bind_Inr_iff traverse_Inr_iff Let_def split: if_splits)
qed

lemma length_cols_keys:
  assumes "prepare_cols_keys D header [x1, x2] (of_nat k) = Inr col_keys" and "k < 2 ^ 31"
  shows "length col_keys = 4 * k"
proof -
  from assms(1) obtain a b where "column_keys D header (of_nat k) x1 = Inr a" "column_keys D header (of_nat k) x2 = Inr b" "col_keys = a @ b"
    by (auto simp: prepare_cols_keys_def res_map_Inr_iff split: sum.splits)
  with length_column_keys [OF this(1) assms(2)] length_column_keys [OF this(2) assms(2)] show ?thesis by simp
qed

text \<open>C39: Fetching two columns panics on the first value of the second one. The handler is given the extended commitments and doubles their number once
  more, so it takes the values of both columns for one and reads the commitment of every value it was answered by its
  place, past the end of the list; unless no value of the second column was found at all, the fetch of two columns panics.\<close>

theorem fetch_two_columns_panics:
  assumes "Header_commitments L header = Some cs" and "cs \<noteq> []" and "length cs < 2 ^ 31"
    and "g1_extension_documented L (KZG_get_fs kzg) (length cs)"
    and "prepare_cols_keys D header [x1, x2] (of_nat (length cs)) = Inr col_keys"
    and "net_get_values net n col_keys = Inr vals" and "length vals = length col_keys"
    and "2 * length cs \<le> j" and "j < length vals" and "vals ! j \<noteq> None"
  shows "\<exists>m. fetch_cols L D net kzg n header [x1, x2] = Inl (Panic m)"
proof -
  obtain out where out: "extend_and_reorder_elements L (KZG_get_fs kzg) cs = Inr out" "length out = 2 * length cs"
    using extend_and_reorder_originals_first [OF assms(4)] by blast
  have len: "length vals = length out * 2" using length_cols_keys [OF assms(5,3)] assms(7) out(2) by simp
  define f where "f = (\<lambda>(y, vals). case vals of
               None \<Rightarrow> Inr None
             | Some vs \<Rightarrow> res_bind (index_res out y) (\<lambda>c.
                 verify_values L (sd_codec D) kzg vs c \<lparr> pos_x = of_nat 0, pos_y = of_nat y \<rparr>))"
  have "\<exists>m. traverse f (enumerate0 vals) = Inl (Panic m)"
  proof (cases "traverse f (enumerate0 vals)")
    case (Inl e)
    then obtain i where "i < length vals" "f (i, vals ! i) = Inl e" by (auto simp: traverse_Inl_iff nth_enumerate0)
    then show ?thesis using Inl verify_values_Inl
      by (fastforce simp: f_def index_res_def split: option.splits if_splits)
  next
    case (Inr segs)
    then have "f (j, vals ! j) = Inr (segs ! j)" using assms(9) by (simp add: traverse_Inr_iff nth_enumerate0)
    with assms(8,10) out(2) show ?thesis by (auto simp: f_def index_res_def)
  qed
  then obtain m where m: "traverse f (enumerate0 vals) = Inl (Panic m)" by blast
  have ne: "vals \<noteq> []" "out \<noteq> []" "0 < length out * 2" using assms(2,9) out(2) by auto
  have one: "chunks (length out * 2) vals = [vals]" using ne len by (simp add: chunks_step)
  have "cols_values_set_handler L (sd_codec D) vals out kzg False = Inl (Panic m)"
    using ne m by (simp add: cols_values_set_handler_def one enumerate0_def f_def)
  then show ?thesis using assms(1,5,6) out(1) by (simp add: fetch_cols_def header_rows_or_def of_net_def)
qed

theorem fetch_two_columns_panics_witness:
  "\<exists>m. fetch_cols (doubling_lib sample_lib) sample_codecs map_net (sample_kzg 4096) (\<lambda>_. Some [9]) four_rows [0, 1] = Inl (Panic m)"
proof -
  have "app_row_key sample_codecs four_rows msg \<lparr> pos_x = x, pos_y = of_nat y \<rparr> \<noteq> Inl e" if "y < 4" for msg x y e
  proof -
    have "y = 0 \<or> y = 1 \<or> y = 2 \<or> y = 3" using that by auto
    then show ?thesis
      by (auto simp: app_row_key_def HeaderExtension_get_lookup_def AppLookup_get_lookup_def four_rows_lookups Let_def)
  qed
  then have "\<exists>own. traverse (\<lambda>y. app_row_key sample_codecs four_rows msg \<lparr> pos_x = x, pos_y = of_nat y \<rparr>) [0..<4] = Inr own" for msg x
    by (cases "traverse (\<lambda>y. app_row_key sample_codecs four_rows msg \<lparr> pos_x = x, pos_y = of_nat y \<rparr>) [0..<4]")
      (auto simp: traverse_Inl_iff)
  note rows = this
  have "\<exists>ck. column_keys sample_codecs four_rows 4 x = Inr ck" if "x \<le> 256" for x
    using rows [of "''prepare_rows_keys: get_lookup failed''" x] that by (auto simp: column_keys_def extended_256 Let_def not_less)
  from this [of 0] this [of 1] obtain a b where
    "column_keys sample_codecs four_rows 4 0 = Inr a" "column_keys sample_codecs four_rows 4 1 = Inr b" by auto
  then have col: "prepare_cols_keys sample_codecs four_rows [0, 1] (of_nat (length (map (\<lambda>i. [replicate 48 i]) [1, 2, 3, 4 :: u8]))) = Inr (a @ b)"
    by (simp add: prepare_cols_keys_def)
  have len: "length (a @ b) = 16" using length_cols_keys [OF col] by simp
  show ?thesis
  proof (rule fetch_two_columns_panics [OF four_rows_commitments _ _ doubling_lib_documented col, where j = 8])
    show "map (\<lambda>k. Some [[9]]) (a @ b) ! 8 \<noteq> (None :: bytes list option)" using len nth_map [of 8 "a @ b" "\<lambda>k. Some [[9]] :: bytes list option"] by simp
    show "net_get_values map_net (\<lambda>_. Some [9]) (a @ b) = Inr (map (\<lambda>k. Some [[9]]) (a @ b))"
      by (simp add: map_net_def service_net_def map_dht_def values_of_def get_record_reply_def)
  qed (use len in simp_all)
qed

end
