(* ===== verification/Clients.thy ===== *)
theory Clients
  imports Daser_Props Proof_Of_Space
begin

text \<open>
  The programs around the chain: the extraction of submissions from a transaction (runtime), the JSON-RPC services (\<open>das-rpc\<close>), the
  loop of a farmer and the one of a light client, each as the handler of one message.
\<close>

section \<open>Submissions in a transaction (runtime/src/lib.rs)\<close>

datatype 'g1 RuntimeCall =
    MeloStore_submit_data "'g1 SidecarMetadata"
  | Utility_batch "'g1 RuntimeCall list"
  | Utility_batch_all "'g1 RuntimeCall list"
  | Utility_force_batch "'g1 RuntimeCall list"
  | OtherCall

fun extract_filter :: "'g1 RuntimeCall \<Rightarrow> 'g1 SidecarMetadata list" where
  "extract_filter (MeloStore_submit_data params) = [params]"
| "extract_filter (Utility_batch calls) = concat (map extract_filter calls)"
| "extract_filter (Utility_batch_all calls) = concat (map extract_filter calls)"
| "extract_filter (Utility_force_batch calls) = concat (map extract_filter calls)"
| "extract_filter OtherCall = []"

definition process_calls :: "'g1 RuntimeCall list \<Rightarrow> 'g1 SidecarMetadata list" where
  "process_calls calls = concat (map extract_filter calls)"

definition Extractor_extract :: "(bytes \<Rightarrow> 'g1 RuntimeCall option) \<Rightarrow> bytes \<Rightarrow> 'g1 SidecarMetadata list option" where
  "Extractor_extract decode_unchecked extrinsic = map_option (\<lambda>call. process_calls [call]) (decode_unchecked extrinsic)"

definition get_blob_tx_param :: "'g1 RuntimeCall \<Rightarrow> 'g1 SidecarMetadata option" where
  "get_blob_tx_param call = (case call of MeloStore_submit_data params \<Rightarrow> Some params | _ \<Rightarrow> None)"

section \<open>Submitting data (das-rpc/src/submit\_blob.rs)\<close>

datatype RpcError =
    DecodingExtrinsicFailed
  | DecodingTransactionMetadataFailed
  | FetchTransactionMetadataFailed string
  | InvalidTransactionFormat
  | DataLength
  | TransactionPushFailed string

record 'hash BlobTxSatus =
  tx_hash :: 'hash
  tx_err :: "fail option"

text \<open>The node's side: decoding of an extrinsic for the pool and of its call, the runtime API, and the pool.\<close>

record ('x, 'g1, 'hash, 'p) rpc_node =
  decode_xt :: "bytes \<Rightarrow> 'x option"
  decode_call :: "bytes \<Rightarrow> 'g1 RuntimeCall option"
  api_blob_tx_param :: "'g1 RuntimeCall \<Rightarrow> string + 'g1 SidecarMetadata option"
  submit_one :: "'x \<Rightarrow> 'p \<Rightarrow> (string + 'hash) \<times> 'p"

text \<open>The message of a status is the error it prints.\<close>

definition publish_data ::
  "('fr, 'g1, 'g2, 'fs, 'fk) kzg_lib \<Rightarrow> ('fr, 'g1, 'h, 'd) daser_codecs \<Rightarrow> 'n das_net \<Rightarrow> ('g1, 'g2, 'fs) KZG \<Rightarrow> bytes
    \<Rightarrow> 'g1 SidecarMetadata \<Rightarrow> bytes \<Rightarrow> 'n \<Rightarrow> (fail option \<times> 'n) res" where
  "publish_data L D net kzg settings_bytes metadata dat n =
     (case verify_bytes L settings_bytes metadata dat of
        Inr True \<Rightarrow>
          (case put_bytes L D net kzg dat (sm_app_id metadata) (sm_nonce metadata) n of
             (Inr _, n') \<Rightarrow> Inr (None, n')
           | (Inl (Panic m), _) \<Rightarrow> Inl (Panic m)
           | (Inl e, n') \<Rightarrow> Inr (Some e, n'))
      | Inr False \<Rightarrow> Inr (Some (Err ''Data verification failed. Please check your data and try again.''), n)
      | Inl (Panic m) \<Rightarrow> Inl (Panic m)
      | Inl e \<Rightarrow> Inr (Some e, n))"

definition submit_blob_tx ::
  "('fr, 'g1, 'g2, 'fs, 'fk) kzg_lib \<Rightarrow> ('fr, 'g1, 'h, 'd) daser_codecs \<Rightarrow> 'n das_net \<Rightarrow> ('g1, 'g2, 'fs) KZG \<Rightarrow> bytes
    \<Rightarrow> ('x, 'g1, 'hash, 'p) rpc_node \<Rightarrow> bytes \<Rightarrow> bytes \<Rightarrow> 'n \<times> 'p \<Rightarrow> ((RpcError + 'hash BlobTxSatus) \<times> 'n \<times> 'p) res" where
  "submit_blob_tx L D net kzg settings_bytes node dat extrinsic s =
     (case decode_xt node extrinsic of
        None \<Rightarrow> Inr (Inl DecodingExtrinsicFailed, s)
      | Some xt \<Rightarrow>
     (case decode_call node extrinsic of
        None \<Rightarrow> Inr (Inl DecodingTransactionMetadataFailed, s)
      | Some call \<Rightarrow>
     (case api_blob_tx_param node call of
        Inl e \<Rightarrow> Inr (Inl (FetchTransactionMetadataFailed e), s)
      | Inr None \<Rightarrow> Inr (Inl InvalidTransactionFormat, s)
      | Inr (Some metadata) \<Rightarrow>
          if \<not> SidecarMetadata_check metadata \<or> length dat \<noteq> unat (sm_bytes_len metadata) then Inr (Inl DataLength, s)
          else res_map (\<lambda>(err_msg, n').
                 (case submit_one node xt (snd s) of
                    (Inl e, p') \<Rightarrow> (Inl (TransactionPushFailed e), n', p')
                  | (Inr h, p') \<Rightarrow> (Inr \<lparr> tx_hash = h, tx_err = err_msg \<rparr>, n', p')))
               (publish_data L D net kzg settings_bytes metadata dat (fst s)))))"

section \<open>Confidence queries (das-rpc/src/confidence.rs)\<close>

definition Confidence_confidence ::
  "('fr, 'g1, 'h, 'd) daser_codecs \<Rightarrow> 's DasKv \<Rightarrow> bytes \<Rightarrow> 's \<Rightarrow> 'g1 Reliability option" where
  "Confidence_confidence D kv block_hash db = get_confidence kv (rel_codec D) (block_confidence block_hash) db"

definition rpc_block_confidence ::
  "permill_lib \<Rightarrow> ('fr, 'g1, 'h, 'd) daser_codecs \<Rightarrow> 's DasKv \<Rightarrow> bytes \<Rightarrow> 's \<Rightarrow> u32 option" where
  "rpc_block_confidence pm D kv block_hash db = Option.bind (Confidence_confidence D kv block_hash db) (Reliability_value pm)"

definition rpc_is_available ::
  "permill_lib \<Rightarrow> ('fr, 'g1, 'h, 'd) daser_codecs \<Rightarrow> 's DasKv \<Rightarrow> bytes \<Rightarrow> 's \<Rightarrow> bool option" where
  "rpc_is_available pm D kv block_hash db =
     Some (case Confidence_confidence D kv block_hash db of None \<Rightarrow> False | Some c \<Rightarrow> Reliability_is_availability pm c)"

definition Confidence_get_last ::
  "('fr, 'g1, 'h, 'd) daser_codecs \<Rightarrow> 's DasKv \<Rightarrow> 's \<Rightarrow> (bytes \<times> u32) option res" where
  "Confidence_get_last D kv db =
     res_map (map_option (\<lambda>b. (lpb_block_hash b, lpb_block_num b))) (ReliabilityId_get_last kv (lpb_codec D) db)"

definition rpc_last :: "('fr, 'g1, 'h, 'd) daser_codecs \<Rightarrow> 's DasKv \<Rightarrow> 's \<Rightarrow> (u32 \<times> bytes) option res" where
  "rpc_last D kv db = res_map (map_option (\<lambda>(h, num). (num, h))) (Confidence_get_last D kv db)"

definition rpc_remove_records :: "'n das_net \<Rightarrow> bytes list \<Rightarrow> 'n \<Rightarrow> unit res \<times> 'n" where
  "rpc_remove_records net record_keys n = remove_records net record_keys n"

section \<open>The farmer (farmer/src/event\_handler.rs)\<close>

definition process_segment_data ::
  "('fr, 'g1) pos_lib \<Rightarrow> FarmerId \<Rightarrow> (Position \<Rightarrow> PiecePosition) \<Rightarrow> ('fr, 'g1) Segment option \<Rightarrow> ('fr, 'g1) PreCell list
    \<Rightarrow> ('fr, 'g1) PreCell list" where
  "process_segment_data P farmer_id position_fn segment pre_cells =
     (case segment of
        None \<Rightarrow> pre_cells
      | Some seg \<Rightarrow>
          if check_pre_cell P seg farmer_id PRE_CELL_LEADING_ZEROS
          then pre_cells @ [PreCell_new (position_fn (position seg)) seg] else pre_cells)"

fun save_pieces ::
  "('fr, 'g1, 'g2, 'fs, 'fk) kzg_lib \<Rightarrow> ('fr, 'g1) pos_lib \<Rightarrow> 's DasKv \<Rightarrow> u32 \<Rightarrow> FarmerId \<Rightarrow> (Position \<Rightarrow> PiecePosition)
    \<Rightarrow> ('fr, 'g1) Segment option list list \<Rightarrow> 's \<Rightarrow> 's res" where
  "save_pieces L P kv num farmer_id piece_position_fn [] db = Inr db"
| "save_pieces L P kv num farmer_id piece_position_fn (chunk # rest) db =
     (case List.map_filter id chunk of
        [] \<Rightarrow> save_pieces L P kv num farmer_id piece_position_fn rest db
      | first_segment # others \<Rightarrow>
          (case Piece_save L P kv (Piece_new num (piece_position_fn (position first_segment)) (first_segment # others)) farmer_id db of
             (Inl (Panic m), _) \<Rightarrow> Inl (Panic m)
           | (_, db') \<Rightarrow> save_pieces L P kv num farmer_id piece_position_fn rest db'))"

definition process_segments ::
  "('fr, 'g1, 'g2, 'fs, 'fk) kzg_lib \<Rightarrow> ('fr, 'g1) pos_lib \<Rightarrow> 's DasKv \<Rightarrow> u32 \<Rightarrow> FarmerId \<Rightarrow> (Position \<Rightarrow> PiecePosition)
    \<Rightarrow> ('fr, 'g1) Segment option list \<Rightarrow> 's \<Rightarrow> 's res" where
  "process_segments L P kv num farmer_id piece_position_fn segments db =
     save_pieces L P kv num farmer_id piece_position_fn (chunks EXTENDED_SEGMENTS_PER_BLOB segments) db"

fun collect_solutions ::
  "('fr, 'g1) pos_lib \<Rightarrow> 's DasKv \<Rightarrow> 's \<Rightarrow> FarmerId \<Rightarrow> bytes \<Rightarrow> ('fr, 'g1) PreCell list \<Rightarrow> ('fr, 'g1) Solution list res" where
  "collect_solutions P kv db farmer_id block_hash [] = Inr []"
| "collect_solutions P kv db farmer_id block_hash (pre_cell # pre_cells) =
     (case find_solutions P kv db farmer_id pre_cell block_hash of
        Inl (Panic m) \<Rightarrow> Inl (Panic m)
      | Inl _ \<Rightarrow> collect_solutions P kv db farmer_id block_hash pre_cells
      | Inr ss \<Rightarrow> res_map ((@) ss) (collect_solutions P kv db farmer_id block_hash pre_cells))"

text \<open>One best header: the solutions whose claims the farmer submits, and the database.\<close>

definition farmer_on_header ::
  "('fr, 'g1, 'g2, 'fs, 'fk) kzg_lib \<Rightarrow> ('fr, 'g1) pos_lib \<Rightarrow> ('fr, 'g1, 'h, 'd) daser_codecs \<Rightarrow> 'n das_net \<Rightarrow> ('g1, 'g2, 'fs) KZG
    \<Rightarrow> 's DasKv \<Rightarrow> FarmerId \<Rightarrow> ('h, 'd) Header \<Rightarrow> 'n \<Rightarrow> 's \<Rightarrow> (('fr, 'g1) Solution list \<times> 's) res" where
  "farmer_on_header L P D net kzg kv farmer_id header n db =
     (let num = hdr_number header; block_hash = header_hash_bytes D header;
          rows_count = (case Header_col_num L header of Some c \<Rightarrow> c | None \<Rightarrow> 0)
      in if rows_count = 0 then Inr ([], db)
         else
           res_bind (Solution_select_indices farmer_id block_hash (unat (rows_count * 2)) 1) (\<lambda>row_inds.
           res_bind (Solution_select_indices farmer_id block_hash EXTENDED_SEGMENTS_PER_BLOB 1) (\<lambda>col_inds.
           (case res_bind (fetch_rows L D net kzg n header row_inds) (\<lambda>rows.
                 res_map (Pair rows) (fetch_cols L D net kzg n header col_inds)) of
              Inl (Panic m) \<Rightarrow> Inl (Panic m)
            | Inl _ \<Rightarrow> Inr ([], db)
            | Inr ((rows, _), (cols, _, _)) \<Rightarrow>
                let pre_cells = fold (process_segment_data P farmer_id PiecePosition_from_column) cols
                                  (fold (process_segment_data P farmer_id PiecePosition_from_row) rows [])
                in res_bind (process_segments L P kv num farmer_id PiecePosition_from_row rows db) (\<lambda>db1.
                   res_bind (process_segments L P kv num farmer_id PiecePosition_from_column cols db1) (\<lambda>db2.
                   res_map (\<lambda>solutions. (solutions, db2)) (collect_solutions P kv db2 farmer_id block_hash pre_cells)))))))"

section \<open>The light client (light/src/finalized\_headers.rs)\<close>

definition light_on_finalized ::
  "('fr, 'g1, 'g2, 'fs, 'fk) kzg_lib \<Rightarrow> ('fr, 'g1, 'h, 'd) daser_codecs \<Rightarrow> 'n das_net \<Rightarrow> ('g1, 'g2, 'fs) KZG \<Rightarrow> 'n \<Rightarrow> 's DasKv
    \<Rightarrow> ('h, 'd) Header \<Rightarrow> (nat \<times> nat) list \<Rightarrow> 's \<Rightarrow> 's option" where
  "light_on_finalized L D net kzg n kv header draws db = logged db (sample_block L D net kzg n kv header draws db)"

section \<open>Properties\<close>

lemma publish_data_None:
  assumes "publish_data L D net kzg settings m dat n = Inr (None, n')"
  shows "verify_bytes L settings m dat = Inr True \<and>
     (\<exists>segs. bytes_to_segments L dat FIELD_ELEMENTS_PER_BLOB FIELD_ELEMENTS_PER_SEGMENT kzg = Inr segs \<and>
        put_app_segments D net segs (sm_app_id m) (sm_nonce m) n = (Inr (), n'))"
proof (cases "verify_bytes L settings m dat = Inr True")
  case True
  with assms have "put_bytes L D net kzg dat (sm_app_id m) (sm_nonce m) n = (Inr (), n')"
    by (simp add: publish_data_def split: prod.split_asm sum.split_asm fail.split_asm)
  with True show ?thesis by (simp add: put_bytes_def split: sum.split_asm)
next
  case False
  with assms show ?thesis
    by (cases "verify_bytes L settings m dat") (simp_all add: publish_data_def split: fail.split_asm bool.split_asm)
qed

lemma publish_data_refused:
  assumes "publish_data L D net kzg settings m dat n = Inr (err, n')" and "verify_bytes L settings m dat \<noteq> Inr True"
  shows "err \<noteq> None \<and> n' = n"
  using assms by (cases "verify_bytes L settings m dat") (auto simp: publish_data_def split: fail.split_asm bool.split_asm)

lemma submit_blob_tx_status:
  assumes "submit_blob_tx L D net kzg settings node dat extrinsic (n, p) = Inr (Inr status, n', p')"
  obtains xt call m where "decode_xt node extrinsic = Some xt" and "decode_call node extrinsic = Some call"
    and "api_blob_tx_param node call = Inr (Some m)" and "SidecarMetadata_check m" and "length dat = unat (sm_bytes_len m)"
    and "publish_data L D net kzg settings m dat n = Inr (tx_err status, n')"
    and "submit_one node xt p = (Inr (tx_hash status), p')"
proof -
  from assms obtain xt where xt: "decode_xt node extrinsic = Some xt"
    by (cases "decode_xt node extrinsic") (simp_all add: submit_blob_tx_def)
  with assms obtain call where call: "decode_call node extrinsic = Some call"
    by (cases "decode_call node extrinsic") (simp_all add: submit_blob_tx_def)
  with assms xt obtain m where m: "api_blob_tx_param node call = Inr (Some m)"
    by (simp add: submit_blob_tx_def split: sum.split_asm option.split_asm)
  with assms xt call have ok: "SidecarMetadata_check m" "length dat = unat (sm_bytes_len m)"
    by (simp_all add: submit_blob_tx_def split: if_split_asm)
  obtain r where pub: "publish_data L D net kzg settings m dat n = r" by simp
  show thesis
  proof (cases r)
    case (Inl e)
    with assms xt call m ok pub show thesis by (simp add: submit_blob_tx_def res_map_def)
  next
    case (Inr b)
    obtain err n1 where b: "b = (err, n1)" by (cases b)
    obtain h p1 where sub: "submit_one node xt p = (h, p1)" by (cases "submit_one node xt p")
    from assms xt call m ok pub Inr b sub show thesis
      by (cases h) (auto simp: submit_blob_tx_def res_map_def intro: that)
  qed
qed

text \<open>Enough is known of the libraries for every non-empty byte string to become segments: 256 for each blob of 2048 elements, each at a
  position of its own.\<close>

definition grid :: "nat \<Rightarrow> Position list" where
  "grid rows = concat (map (\<lambda>y. map (\<lambda>i. \<lparr> pos_x = of_nat i, pos_y = of_nat y \<rparr>) [0..<EXTENDED_SEGMENTS_PER_BLOB]) [0..<rows])"

lemma grid_distinct: "rows \<le> 2 ^ 32 \<Longrightarrow> distinct (grid rows)"
proof -
  assume rows: "rows \<le> 2 ^ 32"
  let ?f = "\<lambda>(y, i). \<lparr> pos_x = of_nat i, pos_y = of_nat y \<rparr> :: Position" and ?E = "EXTENDED_SEGMENTS_PER_BLOB"
  have E: "?E \<le> 2 ^ 32" by (simp add: config_defs)
  have cast: "a = b" if "of_nat a = (of_nat b :: u32)" and "a < n" and "b < n" and "n \<le> 2 ^ 32" for a b n
    using that unat_of_nat_u32 [of a] unat_of_nat_u32 [of b] by (metis less_le_trans)
  have "inj_on ?f ({0..<rows} \<times> {0..<?E})" by (rule inj_onI) (auto dest: cast [OF _ _ _ rows] cast [OF _ _ _ E])
  then have "distinct (map ?f (List.product [0..<rows] [0..<?E]))" by (simp add: distinct_map distinct_product)
  moreover have "grid rows = map ?f (List.product [0..<rows] [0..<?E])"
    by (simp add: grid_def product_concat_map map_concat o_def)
  ultimately show ?thesis by simp
qed

lemma blob_segments:
  assumes "scalar_documented L" and "fft_documented L (KZG_get_fs kzg) FIELD_ELEMENTS_PER_BLOB"
    and "fk20_documented L (ks kzg) FIELD_ELEMENTS_PER_BLOB FIELD_ELEMENTS_PER_SEGMENT"
    and "length bs \<le> FIELD_ELEMENTS_PER_BLOB * SCALAR_SAFE_BYTES"
  shows "\<exists>ss. res_bind (res_expect ''Failed to convert bytes to Blob; qed'' (Blob_try_from_bytes_pad L bs (FIELD_ELEMENTS_PER_BLOB * SCALAR_SAFE_BYTES)))
      (\<lambda>blob. res_expect ''Failed to convert bytes to Blob; qed'' (poly_to_segment_vec L (Blob_to_poly blob) kzg y FIELD_ELEMENTS_PER_SEGMENT)) =
      Inr ss \<and> map position ss = map (\<lambda>i. \<lparr> pos_x = of_nat i, pos_y = of_nat y \<rparr>) [0..<EXTENDED_SEGMENTS_PER_BLOB]"
proof -
  have n: "is_power_of_two FIELD_ELEMENTS_PER_BLOB" "is_power_of_two FIELD_ELEMENTS_PER_SEGMENT"
      "FIELD_ELEMENTS_PER_BLOB = SEGMENTS_PER_BLOB * FIELD_ELEMENTS_PER_SEGMENT"
    using is_power_of_two_power [of 11] is_power_of_two_power [of 4] by (simp_all add: config_defs)
  from Blob_pad_correct [OF assms(1,4)] obtain b where
    b: "Blob_try_from_bytes_pad L bs (FIELD_ELEMENTS_PER_BLOB * SCALAR_SAFE_BYTES) = Inr b" "length (scalars b) = FIELD_ELEMENTS_PER_BLOB" by auto
  from poly_to_segment_vec_row [OF assms(2,3) n(1,2,3) b(2)] obtain row prs where
    "poly_to_segment_vec L (Polynomial (scalars b)) kzg y FIELD_ELEMENTS_PER_SEGMENT = Inr (map (\<lambda>i. Segment_new
       \<lparr> pos_x = of_nat i, pos_y = of_nat y \<rparr> (take FIELD_ELEMENTS_PER_SEGMENT (drop (i * FIELD_ELEMENTS_PER_SEGMENT) row)) (prs ! i)) [0..<2 * SEGMENTS_PER_BLOB])"
    by blast
  with b(1) show ?thesis
    by (simp add: Blob_to_poly_def Blob_to_fs_fr_vec_def EXTENDED_SEGMENTS_PER_BLOB_def mult.commute Segment_new_def o_def)
qed

lemma bytes_to_segments_total:
  assumes "scalar_documented L" and "fft_documented L (KZG_get_fs kzg) FIELD_ELEMENTS_PER_BLOB"
    and "fk20_documented L (ks kzg) FIELD_ELEMENTS_PER_BLOB FIELD_ELEMENTS_PER_SEGMENT" and "bs \<noteq> []"
  shows "\<exists>segs. bytes_to_segments L bs FIELD_ELEMENTS_PER_BLOB FIELD_ELEMENTS_PER_SEGMENT kzg = Inr segs \<and>
     map position segs = grid ((length bs + 2048 * 31 - 1) div (2048 * 31))"
proof -
  let ?n = "FIELD_ELEMENTS_PER_BLOB" and ?c = "FIELD_ELEMENTS_PER_SEGMENT"
  let ?k = "?n * SCALAR_SAFE_BYTES"
  have n: "is_power_of_two ?n" using is_power_of_two_power [of 11] by (simp add: config_defs)
  have k: "0 < ?k" "?k = 2048 * 31" by (simp_all add: config_defs SCALAR_SAFE_BYTES_def)
  define f where "f = (\<lambda>(y, chunk). res_bind (res_expect ''Failed to convert bytes to Blob; qed'' (Blob_try_from_bytes_pad L chunk ?k))
      (\<lambda>blob. res_expect ''Failed to convert bytes to Blob; qed'' (poly_to_segment_vec L (Blob_to_poly blob) kzg y ?c)))"
  have "\<exists>ss. f yc = Inr ss \<and> map position ss = map (\<lambda>i. \<lparr> pos_x = of_nat i, pos_y = of_nat (fst yc) \<rparr>) [0..<EXTENDED_SEGMENTS_PER_BLOB]"
    if yc: "yc \<in> set (enumerate0 (chunks ?k bs))" for yc
  proof -
    obtain y chunk where y: "yc = (y, chunk)" by (cases yc)
    with yc have "snd yc \<in> set (chunks ?k bs)" by (auto simp: enumerate0_def dest: set_zip_rightD)
    then have "length (snd yc) \<le> ?k" using chunks_lengths [OF k(1)] by blast
    from blob_segments [OF assms(1-3) this] show ?thesis by (simp add: f_def case_prod_unfold)
  qed
  then obtain g where g: "\<And>yc. yc \<in> set (enumerate0 (chunks ?k bs)) \<Longrightarrow>
      f yc = Inr (g yc) \<and> map position (g yc) = map (\<lambda>i. \<lparr> pos_x = of_nat i, pos_y = of_nat (fst yc) \<rparr>) [0..<EXTENDED_SEGMENTS_PER_BLOB]"
    by metis
  have tr: "traverse f (enumerate0 (chunks ?k bs)) = Inr (map g (enumerate0 (chunks ?k bs)))" using g by (intro traverse_all_Inr) blast
  have "map position (concat (map g (enumerate0 (chunks ?k bs)))) =
      concat (map (\<lambda>yc. map (\<lambda>i. \<lparr> pos_x = of_nat i, pos_y = of_nat (fst yc) \<rparr>) [0..<EXTENDED_SEGMENTS_PER_BLOB]) (enumerate0 (chunks ?k bs)))"
    unfolding map_concat map_map o_def using g by (intro arg_cong [of _ _ concat] map_cong refl) blast
  also have "\<dots> = concat (map (\<lambda>y. map (\<lambda>i. \<lparr> pos_x = of_nat i, pos_y = of_nat y \<rparr>) [0..<EXTENDED_SEGMENTS_PER_BLOB]) (map fst (enumerate0 (chunks ?k bs))))"
    by (simp add: o_def)
  also have "map fst (enumerate0 (chunks ?k bs)) = [0..<(length bs + 2048 * 31 - 1) div (2048 * 31)]"
    using length_chunks [OF k(1), of bs] k(2) by (simp add: enumerate0_def)
  finally have pos: "map position (concat (map g (enumerate0 (chunks ?k bs)))) = grid ((length bs + 2048 * 31 - 1) div (2048 * 31))"
    by (simp add: grid_def)
  have "bytes_to_segments L bs ?n ?c kzg = res_map concat (traverse f (enumerate0 (chunks ?k bs)))"
    using assms(4) n(1) is_power_of_two_pos [OF n(1)]
    by (simp add: bytes_to_segments_def get_bytes_per_blob_def f_def mult.commute)
  with tr pos show ?thesis by simp
qed

lemma length_grid: "length (grid rows) = rows * EXTENDED_SEGMENTS_PER_BLOB"
  by (induction rows) (simp_all add: grid_def)

text \<open>C15: A submission without an error has verified, and data that do not match their commitments never reach the network. When the service
  answers with a status, the transaction asked for a submission with well-formed metadata of the length of the data and was
  given to the pool; without an error the data verify against the commitments of the metadata and their segments are what was put
  into the hash table; and data that fail the verification are reported and leave the hash table as it was.\<close>

theorem submitted_data_verified:
  assumes "submit_blob_tx L D (service_net H) kzg settings node dat extrinsic (d, p) = Inr (Inr status, d', p')"
  shows "\<exists>call m xt. decode_call node extrinsic = Some call \<and> api_blob_tx_param node call = Inr (Some m) \<and>
     SidecarMetadata_check m \<and> length dat = unat (sm_bytes_len m) \<and>
     decode_xt node extrinsic = Some xt \<and> submit_one node xt p = (Inr (tx_hash status), p') \<and>
     (tx_err status = None \<longrightarrow> verify_bytes L settings m dat = Inr True \<and>
        (\<exists>segs. bytes_to_segments L dat FIELD_ELEMENTS_PER_BLOB FIELD_ELEMENTS_PER_SEGMENT kzg = Inr segs \<and>
           d' = snd (put_all H (app_records D segs (sm_app_id m) (sm_nonce m)) d))) \<and>
     (verify_bytes L settings m dat \<noteq> Inr True \<longrightarrow> tx_err status \<noteq> None \<and> d' = d)"
proof -
  from assms obtain xt call m where x: "decode_xt node extrinsic = Some xt" "decode_call node extrinsic = Some call"
      "api_blob_tx_param node call = Inr (Some m)" "SidecarMetadata_check m" "length dat = unat (sm_bytes_len m)"
    and pub: "publish_data L D (service_net H) kzg settings m dat d = Inr (tx_err status, d')"
    and sub: "submit_one node xt p = (Inr (tx_hash status), p')"
    by (rule submit_blob_tx_status)
  have ok: "verify_bytes L settings m dat = Inr True \<and>
      (\<exists>segs. bytes_to_segments L dat FIELD_ELEMENTS_PER_BLOB FIELD_ELEMENTS_PER_SEGMENT kzg = Inr segs \<and>
         d' = snd (put_all H (app_records D segs (sm_app_id m) (sm_nonce m)) d))" if none: "tx_err status = None"
    using publish_data_None [OF pub [unfolded none]] by (auto simp: put_app_segments_service)
  from publish_data_refused [OF pub] have refused: "verify_bytes L settings m dat \<noteq> Inr True \<longrightarrow> tx_err status \<noteq> None \<and> d' = d" by blast
  show ?thesis
    by (rule exI [of _ call], rule exI [of _ m], rule exI [of _ xt]) (intro conjI impI x sub refused ok)
qed

text \<open>An instance: a node whose transactions are all the submission of the given metadata, and metadata of two blobs with data for one.\<close>

definition sample_node :: "bytes list SidecarMetadata \<Rightarrow> (bytes, bytes list, nat, bytes list) rpc_node" where
  "sample_node m =
     \<lparr> decode_xt = Some, decode_call = \<lambda>_. Some (MeloStore_submit_data m), api_blob_tx_param = \<lambda>call. Inr (get_blob_tx_param call),
       submit_one = \<lambda>x p. (Inr 7, x # p) \<rparr>"

definition two_blobs :: "bytes list SidecarMetadata" where
  "two_blobs = \<lparr> sm_app_id = 7, sm_bytes_len = 3, sm_nonce = 0, sm_commitments = [[], []], sm_proofs = [[], []] \<rparr>"

lemma two_blobs_refused: "\<exists>ns. verify_bytes sample_lib sample_settings two_blobs [1, 2, 3] =
  Inl (ErrN ''Invalid input length. Expected {} got commitments: {} and proofs: {}'' ns)"
proof -
  obtain kzg where kzg: "default_embedded sample_lib sample_settings = Inr kzg" using sample_default_embedded by blast
  have "is_power_of_two FIELD_ELEMENTS_PER_BLOB" using is_power_of_two_power [of 11] by (simp add: config_defs)
  from bytes_to_blobs_ok [OF sample_scalar_documented this, of "[1, 2, 3]"] obtain blobs where
    "bytes_to_blobs sample_lib [1, 2, 3] FIELD_ELEMENTS_PER_BLOB = Inr blobs" "length blobs = 1"
    by (auto simp: config_defs SCALAR_SAFE_BYTES_def)
  moreover have "g1_is_valid sample_lib c" for c by (simp add: sample_lib_def)
  ultimately show ?thesis using kzg by (simp add: verify_bytes_def Blob_verify_batch_def two_blobs_def)
qed

theorem submitted_data_verified_witness:
  "\<exists>status. submit_blob_tx sample_lib sample_codecs map_net (sample_kzg 4096) sample_settings (sample_node two_blobs) [1, 2, 3] [9]
     (Map.empty, []) = Inr (Inr status, Map.empty, [[9]]) \<and> tx_hash status = 7 \<and> tx_err status \<noteq> None"
proof -
  from two_blobs_refused obtain e where refused: "verify_bytes sample_lib sample_settings two_blobs [1, 2, 3] = Inl e" "\<And>msg. e \<noteq> Panic msg"
    by auto
  have ok: "SidecarMetadata_check two_blobs" "unat (sm_bytes_len two_blobs) = 3" by (simp_all add: SidecarMetadata_check_def two_blobs_def)
  have pub: "publish_data sample_lib sample_codecs map_net (sample_kzg 4096) sample_settings two_blobs [1, 2, 3] Map.empty = Inr (Some e, Map.empty)"
    using refused by (simp add: publish_data_def split: fail.split)
  have run: "submit_blob_tx sample_lib sample_codecs map_net (sample_kzg 4096) sample_settings (sample_node two_blobs) [1, 2, 3] [9]
     (Map.empty, []) = Inr (Inr \<lparr> tx_hash = 7, tx_err = Some e \<rparr>, Map.empty, [[9]])"
    using pub ok by (simp add: submit_blob_tx_def sample_node_def get_blob_tx_param_def)
  from submitted_data_verified [OF run [unfolded map_net_def]] refused(1)
  have "tx_err \<lparr> tx_hash = 7 :: nat, tx_err = Some e \<rparr> \<noteq> None" by (auto simp: sample_node_def get_blob_tx_param_def)
  with run show ?thesis by (intro exI [of _ "\<lparr> tx_hash = 7, tx_err = Some e \<rparr>"]) simp
qed

text \<open>An honest submission, up to the hash table.\<close>

lemma honest_submission:
  assumes "default_embedded L settings = Inr kzg"
    and "scalar_documented L" and "encoding_documented L"
    and "32 + 32 * FIELD_ELEMENTS_PER_BLOB + BYTES_PER_G1 L \<le> CHALLENGE_INPUT_SIZE L"
    and "kzg_total L (ks kzg) FIELD_ELEMENTS_PER_BLOB" and "kzg_complete L (ks kzg)" and "kzg_batch_complete L (ks kzg)"
    and "fft_documented L (KZG_get_fs kzg) FIELD_ELEMENTS_PER_BLOB"
    and "fk20_documented L (ks kzg) FIELD_ELEMENTS_PER_BLOB FIELD_ELEMENTS_PER_SEGMENT"
    and "dat \<noteq> []" and "length dat < 2 ^ 32" and "try_from_app_data L settings dat app nonce = Inr m"
    and "decode_xt node extrinsic = Some xt" and "decode_call node extrinsic = Some (MeloStore_submit_data m)"
    and "\<And>call. api_blob_tx_param node call = Inr (get_blob_tx_param call)"
    and "submit_one node xt p = (Inr h, p')"
  obtains segs where "bytes_to_segments L dat FIELD_ELEMENTS_PER_BLOB FIELD_ELEMENTS_PER_SEGMENT kzg = Inr segs"
    and "length segs = (length dat + 2048 * 31 - 1) div (2048 * 31) * 256" and "distinct (map position segs)"
    and "submit_blob_tx L D (service_net H) kzg settings node dat extrinsic (d, p) =
      Inr (Inr \<lparr> tx_hash = h, tx_err = None \<rparr>, snd (put_all H (app_records D segs app nonce) d), p')"
proof -
  from app_data_metadata [OF assms(1-7,10,11), of app nonce] assms(12)
  have m: "SidecarMetadata_check m" "sm_app_id m = app" "sm_nonce m = nonce" "unat (sm_bytes_len m) = length dat"
      "verify_bytes L settings m dat = Inr True" by auto
  let ?rows = "(length dat + 2048 * 31 - 1) div (2048 * 31)"
  from bytes_to_segments_total [OF assms(2,8,9,10)] obtain segs where
    segs: "bytes_to_segments L dat FIELD_ELEMENTS_PER_BLOB FIELD_ELEMENTS_PER_SEGMENT kzg = Inr segs" "map position segs = grid ?rows" by blast
  have "distinct (grid ?rows)" using assms(11) by (intro grid_distinct) simp
  then have pos: "distinct (map position segs)" using segs(2) by simp
  have "length segs = length (grid ?rows)" unfolding segs(2) [symmetric] by simp
  then have len: "length segs = ?rows * 256" by (simp add: length_grid config_defs)
  have "publish_data L D (service_net H) kzg settings m dat d = Inr (None, snd (put_all H (app_records D segs app nonce) d))"
    using m segs(1) by (simp add: publish_data_def put_bytes_def put_app_segments_service)
  then have "submit_blob_tx L D (service_net H) kzg settings node dat extrinsic (d, p) =
      Inr (Inr \<lparr> tx_hash = h, tx_err = None \<rparr>, snd (put_all H (app_records D segs app nonce) d), p')"
    using assms(13-16) m(1,4) by (simp add: submit_blob_tx_def get_blob_tx_param_def)
  with segs(1) len pos show thesis by (rule that)
qed

text \<open>C14: An honest submission is published whole. For any non-empty data below 4 GiB, take the metadata the client library makes of them and a
  transaction that submits these metadata. With a pool that takes the transaction, the service answers with the hash of the
  transaction and no error; the data were cut into 256 segments per blob of 63488 bytes; and when the hash table stored each of
  their records, the network answers the key of each segment with exactly that segment.\<close>

theorem honest_submission_published:
  assumes "default_embedded L settings = Inr kzg"
    and "scalar_documented L" and "encoding_documented L"
    and "32 + 32 * FIELD_ELEMENTS_PER_BLOB + BYTES_PER_G1 L \<le> CHALLENGE_INPUT_SIZE L"
    and "kzg_total L (ks kzg) FIELD_ELEMENTS_PER_BLOB" and "kzg_complete L (ks kzg)" and "kzg_batch_complete L (ks kzg)"
    and "fft_documented L (KZG_get_fs kzg) FIELD_ELEMENTS_PER_BLOB"
    and "fk20_documented L (ks kzg) FIELD_ELEMENTS_PER_BLOB FIELD_ELEMENTS_PER_SEGMENT"
    and "dat \<noteq> []" and "length dat < 2 ^ 32" and "try_from_app_data L settings dat app nonce = Inr m"
    and "decode_xt node extrinsic = Some xt" and "decode_call node extrinsic = Some (MeloStore_submit_data m)"
    and "\<And>call. api_blob_tx_param node call = Inr (get_blob_tx_param call)"
    and "submit_one node xt p = (Inr h, p')" and "dht_documented H" and "inj (encode (pos_codec D))"
  shows "\<exists>d' segs. submit_blob_tx L D (service_net H) kzg settings node dat extrinsic (d, p) =
       Inr (Inr \<lparr> tx_hash = h, tx_err = None \<rparr>, d', p') \<and>
     bytes_to_segments L dat FIELD_ELEMENTS_PER_BLOB FIELD_ELEMENTS_PER_SEGMENT kzg = Inr segs \<and>
     length segs = (length dat + 2048 * 31 - 1) div (2048 * 31) * 256 \<and>
     (puts_succeed H (app_records D segs app nonce) d \<longrightarrow>
       (\<forall>seg\<in>set segs. net_get_value (service_net H) d' (sample_key (pos_codec D) app nonce (position seg)) =
          Inr [encode (sd_codec D) (content seg)]))"
proof -
  obtain segs where segs: "bytes_to_segments L dat FIELD_ELEMENTS_PER_BLOB FIELD_ELEMENTS_PER_SEGMENT kzg = Inr segs"
      "length segs = (length dat + 2048 * 31 - 1) div (2048 * 31) * 256" "distinct (map position segs)"
      "submit_blob_tx L D (service_net H) kzg settings node dat extrinsic (d, p) =
        Inr (Inr \<lparr> tx_hash = h, tx_err = None \<rparr>, snd (put_all H (app_records D segs app nonce) d), p')"
    by (rule honest_submission [OF assms(1-16)])
  show ?thesis
    by (rule exI [of _ "snd (put_all H (app_records D segs app nonce) d)"], rule exI [of _ segs])
      (intro conjI impI ballI segs app_segment_found [OF assms(17,18) segs(3)])
qed

lemma sample_documented:
  obtains kzg m where "default_embedded sample_lib sample_settings = Inr kzg"
    and "try_from_app_data sample_lib sample_settings [1, 2, 3] 7 0 = Inr m"
    and "32 + 32 * FIELD_ELEMENTS_PER_BLOB + BYTES_PER_G1 sample_lib \<le> CHALLENGE_INPUT_SIZE sample_lib"
    and "kzg_total sample_lib (ks kzg) FIELD_ELEMENTS_PER_BLOB" and "kzg_complete sample_lib (ks kzg)" and "kzg_batch_complete sample_lib (ks kzg)"
    and "fft_documented sample_lib (KZG_get_fs kzg) FIELD_ELEMENTS_PER_BLOB"
    and "fk20_documented sample_lib (ks kzg) FIELD_ELEMENTS_PER_BLOB FIELD_ELEMENTS_PER_SEGMENT"
proof -
  obtain kzg where kzg: "default_embedded sample_lib sample_settings = Inr kzg" "KZG_max_width sample_lib kzg = 4096"
    using sample_default_embedded by blast
  have lib: "kzg_total sample_lib s n" "kzg_complete sample_lib s" "kzg_batch_complete sample_lib s" for s n
    by (auto simp: kzg_total_def kzg_complete_def kzg_batch_complete_def sample_lib_def list_all2_conv_all_nth)
  have size: "32 + 32 * FIELD_ELEMENTS_PER_BLOB + BYTES_PER_G1 sample_lib \<le> CHALLENGE_INPUT_SIZE sample_lib"
    by (simp add: sample_lib_def FIELD_ELEMENTS_PER_BLOB_def)
  have width: "ks_fs (ks kzg) = 4096" using kzg(2) by (simp add: KZG_max_width_def sample_lib_def)
  have fft: "fft_documented sample_lib (KZG_get_fs kzg) FIELD_ELEMENTS_PER_BLOB"
    by (simp add: fft_documented_def sample_lib_def padded_def config_defs)
  have fk: "fk20_documented sample_lib (ks kzg) FIELD_ELEMENTS_PER_BLOB FIELD_ELEMENTS_PER_SEGMENT"
    using width by (simp add: fk20_documented_def sample_lib_def config_defs)
  from app_data_metadata [OF kzg(1) sample_scalar_documented sample_encoding_documented size lib, of "[1, 2, 3]" 7 0]
  obtain m where "try_from_app_data sample_lib sample_settings [1, 2, 3] 7 0 = Inr m" by auto
  from that [OF kzg(1) this size lib fft fk] show thesis .
qed

theorem honest_submission_published_witness:
  "\<exists>kzg m d' (segs :: (bytes, bytes list) Segment list). try_from_app_data sample_lib sample_settings [1, 2, 3] 7 0 = Inr m \<and>
     submit_blob_tx sample_lib sample_codecs map_net kzg sample_settings (sample_node m) [1, 2, 3] [9] (Map.empty, []) =
       Inr (Inr \<lparr> tx_hash = 7, tx_err = None \<rparr>, d', [[9]]) \<and> length segs = 256 \<and>
     (\<forall>seg\<in>set segs. net_get_value map_net d' (sample_key (pos_codec sample_codecs) 7 0 (position seg)) = Inr [encode (sd_codec sample_codecs) (content seg)])"
proof -
  obtain kzg m where s: "default_embedded sample_lib sample_settings = Inr kzg" "try_from_app_data sample_lib sample_settings [1, 2, 3] 7 0 = Inr m"
      "32 + 32 * FIELD_ELEMENTS_PER_BLOB + BYTES_PER_G1 sample_lib \<le> CHALLENGE_INPUT_SIZE sample_lib"
      "kzg_total sample_lib (ks kzg) FIELD_ELEMENTS_PER_BLOB" "kzg_complete sample_lib (ks kzg)" "kzg_batch_complete sample_lib (ks kzg)"
      "fft_documented sample_lib (KZG_get_fs kzg) FIELD_ELEMENTS_PER_BLOB"
      "fk20_documented sample_lib (ks kzg) FIELD_ELEMENTS_PER_BLOB FIELD_ELEMENTS_PER_SEGMENT"
    by (rule sample_documented)
  have node: "decode_xt (sample_node m) [9] = Some [9]" "decode_call (sample_node m) [9] = Some (MeloStore_submit_data m)"
      "api_blob_tx_param (sample_node m) call = Inr (get_blob_tx_param call)" "submit_one (sample_node m) [9] [] = (Inr 7, [[9]])" for call
    by (simp_all add: sample_node_def)
  have "([1, 2, 3] :: bytes) \<noteq> []" "length ([1, 2, 3] :: bytes) < 2 ^ 32" by simp_all
  from honest_submission_published [OF s(1) sample_scalar_documented sample_encoding_documented s(3-8) this s(2) node
      map_dht_documented sample_pos_codec_inj, of Map.empty]
  obtain d' segs where run: "submit_blob_tx sample_lib sample_codecs map_net kzg sample_settings (sample_node m) [1, 2, 3] [9] (Map.empty, []) =
       Inr (Inr \<lparr> tx_hash = 7, tx_err = None \<rparr>, d', [[9]])"
     and len: "length segs = (length ([1, 2, 3] :: bytes) + 2048 * 31 - 1) div (2048 * 31) * 256"
     and found: "puts_succeed map_dht (app_records sample_codecs segs 7 0) Map.empty \<longrightarrow> (\<forall>seg\<in>set segs. net_get_value map_net d'
       (sample_key (pos_codec sample_codecs) 7 0 (position seg)) = Inr [encode (sd_codec sample_codecs) (content seg)])"
    unfolding map_net_def by blast
  have "length segs = 256" using len by simp
  with s(2) run found [THEN mp, OF map_dht_puts_succeed] show ?thesis by blast
qed

text \<open>C26: A publication that failed entirely is reported as a success. When every put into the hash table fails and leaves it as it was, empty, the
  same honest submission is answered with the transaction's hash and no error, the transaction is in the pool, and none of its
  segments is in the network: the service discards the results of the puts.\<close>

theorem failed_publication_reported_ok:
  assumes "default_embedded L settings = Inr kzg"
    and "scalar_documented L" and "encoding_documented L"
    and "32 + 32 * FIELD_ELEMENTS_PER_BLOB + BYTES_PER_G1 L \<le> CHALLENGE_INPUT_SIZE L"
    and "kzg_total L (ks kzg) FIELD_ELEMENTS_PER_BLOB" and "kzg_complete L (ks kzg)" and "kzg_batch_complete L (ks kzg)"
    and "fft_documented L (KZG_get_fs kzg) FIELD_ELEMENTS_PER_BLOB"
    and "fk20_documented L (ks kzg) FIELD_ELEMENTS_PER_BLOB FIELD_ELEMENTS_PER_SEGMENT"
    and "dat \<noteq> []" and "length dat < 2 ^ 32" and "try_from_app_data L settings dat app nonce = Inr m"
    and "decode_xt node extrinsic = Some xt" and "decode_call node extrinsic = Some (MeloStore_submit_data m)"
    and "\<And>call. api_blob_tx_param node call = Inr (get_blob_tx_param call)"
    and "submit_one node xt p = (Inr h, p')"
    and "\<And>rc quorum d. dht_put H rc quorum d = (Inl e, d)" and "\<And>key. dht_get H key d = FinishedWithNoAdditionalRecord"
  shows "submit_blob_tx L D (service_net H) kzg settings node dat extrinsic (d, p) = Inr (Inr \<lparr> tx_hash = h, tx_err = None \<rparr>, d, p') \<and>
     fetch_segment_data L D (service_net H) kzg d app nonce pos c = Inr None"
proof -
  have "snd (put_all H kvs d) = d" for kvs
  proof (induction kvs)
    case (Cons kv kvs)
    then show ?case by (cases kv) (simp add: assms(17))
  qed simp
  with honest_submission [OF assms(1-16), where D = D and H = H and d = d]
  have "submit_blob_tx L D (service_net H) kzg settings node dat extrinsic (d, p) = Inr (Inr \<lparr> tx_hash = h, tx_err = None \<rparr>, d, p')" by metis
  then show ?thesis
    by (simp add: fetch_segment_data_def fetch_value_def service_net_def values_of_def get_record_reply_def assms(18))
qed

definition refusing_dht :: "(bytes \<rightharpoonup> bytes) kad_dht" where
  "refusing_dht = map_dht\<lparr> dht_put := \<lambda>_ _ d. (Inl ''quorum failed'', d) \<rparr>"

theorem failed_publication_reported_ok_witness:
  "\<exists>kzg m. submit_blob_tx sample_lib sample_codecs (service_net refusing_dht) kzg sample_settings (sample_node m) [1, 2, 3] [9] (Map.empty, []) =
       Inr (Inr \<lparr> tx_hash = 7, tx_err = None \<rparr>, Map.empty, [[9]])"
proof -
  obtain kzg m where s: "default_embedded sample_lib sample_settings = Inr kzg" "try_from_app_data sample_lib sample_settings [1, 2, 3] 7 0 = Inr m"
      "32 + 32 * FIELD_ELEMENTS_PER_BLOB + BYTES_PER_G1 sample_lib \<le> CHALLENGE_INPUT_SIZE sample_lib"
      "kzg_total sample_lib (ks kzg) FIELD_ELEMENTS_PER_BLOB" "kzg_complete sample_lib (ks kzg)" "kzg_batch_complete sample_lib (ks kzg)"
      "fft_documented sample_lib (KZG_get_fs kzg) FIELD_ELEMENTS_PER_BLOB"
      "fk20_documented sample_lib (ks kzg) FIELD_ELEMENTS_PER_BLOB FIELD_ELEMENTS_PER_SEGMENT"
    by (rule sample_documented)
  have node: "decode_xt (sample_node m) [9] = Some [9]" "decode_call (sample_node m) [9] = Some (MeloStore_submit_data m)"
      "api_blob_tx_param (sample_node m) call = Inr (get_blob_tx_param call)" "submit_one (sample_node m) [9] [] = (Inr 7, [[9]])" for call
    by (simp_all add: sample_node_def)
  have dht: "dht_put refusing_dht rc quorum d = (Inl ''quorum failed'', d)" "dht_get refusing_dht key Map.empty = FinishedWithNoAdditionalRecord"
    for rc quorum d key by (simp_all add: refusing_dht_def map_dht_def)
  have "([1, 2, 3] :: bytes) \<noteq> []" "length ([1, 2, 3] :: bytes) < 2 ^ 32" by simp_all
  from failed_publication_reported_ok [OF s(1) sample_scalar_documented sample_encoding_documented s(3-8) this s(2) node dht]
  show ?thesis by blast
qed

end
