(* ===== verification/Runtime_Assembly.thy ===== *)
theory Runtime_Assembly
  imports Store_Props Farmers_Fortune
begin

text \<open>
  The runtime (runtime/src/config.rs and lib.rs): its constants, the configurations of the two pallets of this repository, which pallets
  the session pallet tells of the authorities, the transactions of off-chain workers, and the attribute macro of the configurations
  (crates/auto-config). A step of the chain is a step of the store pallet, with session changes as the runtime wires them.
\<close>

section \<open>Constants (config.rs)\<close>

type_synonym Balance = "128 word"

definition MILLISECS_PER_BLOCK :: u64 where "MILLISECS_PER_BLOCK = 6000"
definition SECS_PER_BLOCK :: u64 where "SECS_PER_BLOCK = MILLISECS_PER_BLOCK div 1000"
definition SLOT_DURATION :: u64 where "SLOT_DURATION = MILLISECS_PER_BLOCK"
definition PRIMARY_PROBABILITY :: "u64 \<times> u64" where "PRIMARY_PROBABILITY = (1, 4)"
definition EXISTENTIAL_DEPOSIT :: Balance where "EXISTENTIAL_DEPOSIT = 500"
definition MAX_BLOB_NUMBER :: u32 where "MAX_BLOB_NUMBER = 100"

definition MINUTES :: u32 where "MINUTES = 60 div ucast SECS_PER_BLOCK"
definition HOURS :: u32 where "HOURS = MINUTES * 60"
definition DAYS :: u32 where "DAYS = HOURS * 24"
definition EPOCH_DURATION_IN_SLOTS :: u32 where "EPOCH_DURATION_IN_SLOTS = 1 * HOURS"

definition MILLICENTS :: Balance where "MILLICENTS = 1000000000"
definition CENTS :: Balance where "CENTS = 1000 * MILLICENTS"
definition DOLLARS :: Balance where "DOLLARS = 100 * CENTS"

definition deposit :: "u32 \<Rightarrow> u32 \<Rightarrow> Balance" where
  "deposit items bytes = ucast items * 15 * CENTS + ucast bytes * 6 * CENTS"

definition BlockHashCount :: u32 where "BlockHashCount = 2400"
definition MaxBlobNumber :: u32 where "MaxBlobNumber = MAX_BLOB_NUMBER"
definition MaxExtedLen :: u32 where "MaxExtedLen = MAX_BLOB_NUMBER * 2"

definition MINER_MAX_ITERATIONS :: u32 where "MINER_MAX_ITERATIONS = 10"
definition SignedPhase :: u32 where "SignedPhase = EPOCH_DURATION_IN_SLOTS div 4"
definition UnsignedPhase :: u32 where "UnsignedPhase = EPOCH_DURATION_IN_SLOTS div 4"
definition SessionsPerEra :: u32 where "SessionsPerEra = 6"
definition BondingDuration :: u32 where "BondingDuration = 24 * 28"
definition SlashDeferDuration :: u32 where "SlashDeferDuration = 24 * 7"
definition ReportLongevity :: u32 where "ReportLongevity = BondingDuration * SessionsPerEra * EPOCH_DURATION_IN_SLOTS"
definition runtime_MaxKeys :: u32 where "runtime_MaxKeys = 10000"
definition MaxSetIdSessionEntries :: u32 where "MaxSetIdSessionEntries = BondingDuration * SessionsPerEra"
definition StakingUnsignedPriority :: u64 where "StakingUnsignedPriority = - 1 div 2"
definition MultiPhaseUnsignedPriority :: u64 where "MultiPhaseUnsignedPriority = StakingUnsignedPriority - 1"
definition ImOnlineUnsignedPriority :: u64 where "ImOnlineUnsignedPriority = - 1"

text \<open>The governance periods multiply stored parameters; these are the values while the storage holds the initial \<open>Minutes\<close>.\<close>

definition LaunchPeriod :: u32 where "LaunchPeriod = 28 * 24 * 60 * MINUTES"
definition VotingPeriod :: u32 where "VotingPeriod = 28 * 24 * 60 * MINUTES"
definition FastTrackVotingPeriod :: u32 where "FastTrackVotingPeriod = 3 * 24 * 60 * MINUTES"
definition EnactmentPeriod :: u32 where "EnactmentPeriod = 30 * 24 * 60 * MINUTES"
definition CooloffPeriod :: u32 where "CooloffPeriod = 28 * 24 * 60 * MINUTES"
definition BountyUpdatePeriod :: u32 where "BountyUpdatePeriod = 14 * DAYS"
definition CouncilMaxMembers :: u32 where "CouncilMaxMembers = 100"
definition DesiredMembers :: u32 where "DesiredMembers = 13"
definition VotingBondBase :: Balance where "VotingBondBase = deposit 1 64"
definition VotingBondFactor :: Balance where "VotingBondFactor = deposit 0 32"
definition TermDuration :: u32 where "TermDuration = 7 * DAYS"

lemmas config_constants =
  MILLISECS_PER_BLOCK_def SECS_PER_BLOCK_def SLOT_DURATION_def MINUTES_def HOURS_def DAYS_def EPOCH_DURATION_IN_SLOTS_def MILLICENTS_def
  CENTS_def DOLLARS_def BlockHashCount_def MAX_BLOB_NUMBER_def MaxBlobNumber_def MaxExtedLen_def SignedPhase_def UnsignedPhase_def
  SessionsPerEra_def BondingDuration_def SlashDeferDuration_def ReportLongevity_def runtime_MaxKeys_def MaxSetIdSessionEntries_def
  LaunchPeriod_def VotingPeriod_def FastTrackVotingPeriod_def EnactmentPeriod_def CooloffPeriod_def BountyUpdatePeriod_def TermDuration_def
  MINER_MAX_ITERATIONS_def CouncilMaxMembers_def DesiredMembers_def

text \<open>The assertion on the members of the council, and the order of the priorities the comments promise.\<close>

lemma members_assertion: "DesiredMembers \<le> CouncilMaxMembers"
  by (simp add: config_constants)

lemma priorities_ordered: "MultiPhaseUnsignedPriority < StakingUnsignedPriority" "StakingUnsignedPriority < ImOnlineUnsignedPriority"
  by (simp_all add: MultiPhaseUnsignedPriority_def StakingUnsignedPriority_def ImOnlineUnsignedPriority_def)

section \<open>Conversions of balances (lib.rs)\<close>

definition BalanceToU256 :: "Balance \<Rightarrow> 256 word" where
  "BalanceToU256 balance = ucast balance"

definition U256ToBalance :: "256 word \<Rightarrow> Balance" where
  "U256ToBalance n = (if unat n < 2 ^ 128 then ucast n else - 1)"

section \<open>The pallets of this repository in the runtime\<close>

definition runtime_store_config :: StoreConfig where
  "runtime_store_config = \<lparr> MaxKeys = unat runtime_MaxKeys, MaxBlobNum = unat MaxBlobNumber \<rparr>"

definition runtime_fortune_config :: FortuneConfig where
  "runtime_fortune_config = \<lparr> RewardAmount = unat (100 * DOLLARS), MaxClaimantsPerBlock = 100 \<rparr>"

section \<open>The composition (\<open>construct_runtime!\<close>) and the session handlers\<close>

datatype RuntimePallet =
    System | SystemExt | Utility | Babe | Timestamp | Authorship | Indices | Balances | TransactionPayment
  | ElectionProviderMultiPhase | Staking | Session | Democracy | Council | TechnicalCommittee | Elections | TechnicalMembership
  | Grandpa | Treasury | Sudo | ImOnline | AuthorityDiscovery | Offences | Historical | Scheduler | Preimage | Bounties | Assets
  | VoterList | NominationPools | MeloStore | FarmersFortune

definition construct_runtime :: "(RuntimePallet \<times> u8) list" where
  "construct_runtime =
     [(System, 1), (SystemExt, 2), (Utility, 3), (Babe, 4), (Timestamp, 5), (Authorship, 6), (Indices, 7), (Balances, 8),
      (TransactionPayment, 9), (ElectionProviderMultiPhase, 20), (Staking, 21), (Session, 22), (Democracy, 23), (Council, 24),
      (TechnicalCommittee, 25), (Elections, 26), (TechnicalMembership, 27), (Grandpa, 28), (Treasury, 29), (Sudo, 30), (ImOnline, 31),
      (AuthorityDiscovery, 32), (Offences, 33), (Historical, 34), (Scheduler, 35), (Preimage, 36), (Bounties, 37), (Assets, 38),
      (VoterList, 39), (NominationPools, 40), (MeloStore, 80), (FarmersFortune, 81)]"

record 'key SessionKeys =
  grandpa :: 'key
  babe :: 'key
  im_online :: 'key
  authority_discovery :: 'key

text \<open>\<open>KeyTypeIdProviders\<close>: the pallets of the fields of \<open>SessionKeys\<close>, which the session pallet calls in this order.\<close>

definition SessionHandler :: "RuntimePallet list" where
  "SessionHandler = [Grandpa, Babe, ImOnline, AuthorityDiscovery]"

text \<open>A session change as it reaches the store pallet, whose authorities are identified by their ImOnline keys.\<close>

definition store_validators :: "('acc \<times> 'auth SessionKeys) list \<Rightarrow> ('acc \<times> 'auth) list" where
  "store_validators validators = map (\<lambda>(account, session_keys). (account, im_online session_keys)) validators"

definition session_genesis ::
  "RuntimePallet list \<Rightarrow> StoreConfig \<Rightarrow> ('acc \<times> 'auth SessionKeys) list \<Rightarrow> ('acc, 'g1, 'auth) Store \<Rightarrow> ('acc, 'g1, 'auth) Store res" where
  "session_genesis handlers cfg validators s =
     fold_res (\<lambda>pallet s. if pallet = MeloStore then on_genesis_session cfg (store_validators validators) s else Inr s) handlers s"

definition session_new ::
  "RuntimePallet list \<Rightarrow> bool \<Rightarrow> ('acc \<times> 'auth SessionKeys) list \<Rightarrow> ('acc \<times> 'auth SessionKeys) list \<Rightarrow> ('acc, 'g1, 'auth) Store
    \<Rightarrow> ('acc, 'g1, 'auth) Store" where
  "session_new handlers changed validators queued s =
     fold (\<lambda>pallet s. if pallet = MeloStore then on_new_session changed (store_validators validators) (store_validators queued) s else s)
       handlers s"

definition session_disabled :: "RuntimePallet list \<Rightarrow> u32 \<Rightarrow> ('acc, 'g1, 'auth) Store \<Rightarrow> ('acc, 'g1, 'auth) Store res" where
  "session_disabled handlers i s = fold_res (\<lambda>pallet s. if pallet = MeloStore then on_disabled i s else Inr s) handlers s"

text \<open>The chain: the storage after genesis, then calls, queries, ends of blocks, and session changes through the handlers.\<close>

inductive runtime_reach ::
  "RuntimePallet list \<Rightarrow> (nat \<Rightarrow> (u32 \<Rightarrow> u32 list option) \<Rightarrow> (u32 \<Rightarrow> u32 list option)) \<Rightarrow> ('fr, 'g1, 'g2, 'fs, 'fk) kzg_lib
    \<Rightarrow> ('g1, 'g2, 'fs) KZG \<Rightarrow> StoreConfig \<Rightarrow> permill_lib \<Rightarrow> ('acc, 'g1, 'auth) Store \<Rightarrow> bool"
  for handlers clear L kzg cfg pm where
    genesis: "session_genesis handlers cfg validators (genesis_store []) = Inr s \<Longrightarrow> runtime_reach handlers clear L kzg cfg pm s"
  | submit: "runtime_reach handlers clear L kzg cfg pm s \<Longrightarrow>
      runtime_reach handlers clear L kzg cfg pm (snd (dispatch (submit_data cfg orig p) s))"
  | vote: "runtime_reach handlers clear L kzg cfg pm s \<Longrightarrow>
      runtime_reach handlers clear L kzg cfg pm (snd (dispatch (report cfg pm orig r) s))"
  | register: "runtime_reach handlers clear L kzg cfg pm s \<Longrightarrow>
      runtime_reach handlers clear L kzg cfg pm (snd (dispatch (register_app orig) s))"
  | query: "runtime_reach handlers clear L kzg cfg pm s \<Longrightarrow>
      runtime_reach handlers clear L kzg cfg pm (snd (commitments_from_position L kzg cfg b pos s))"
  | push_ext: "runtime_reach handlers clear L kzg cfg pm s \<Longrightarrow> push_commitments_ext cfg b cs s = Inr s' \<Longrightarrow>
      runtime_reach handlers clear L kzg cfg pm s'"
  | session: "runtime_reach handlers clear L kzg cfg pm s \<Longrightarrow>
      runtime_reach handlers clear L kzg cfg pm (session_new handlers changed validators queued s)"
  | disabled: "runtime_reach handlers clear L kzg cfg pm s \<Longrightarrow> session_disabled handlers i s = Inr s' \<Longrightarrow>
      runtime_reach handlers clear L kzg cfg pm s'"
  | end_block: "runtime_reach handlers clear L kzg cfg pm s \<Longrightarrow> st_block_number s < - 1 \<Longrightarrow>
      runtime_reach handlers clear L kzg cfg pm (next_block clear cfg s)"

section \<open>Transactions of off-chain workers (lib.rs)\<close>

text \<open>\<open>checked_next_power_of_two\<close> of the standard library.\<close>

fun pow2_from :: "nat \<Rightarrow> nat \<Rightarrow> nat \<Rightarrow> nat option" where
  "pow2_from 0 p n = None"
| "pow2_from (Suc k) p n = (if n \<le> p then Some p else pow2_from k (2 * p) n)"

definition checked_next_power_of_two :: "u32 \<Rightarrow> u32 option" where
  "checked_next_power_of_two n = map_option of_nat (pow2_from 32 1 (unat n))"

definition transaction_period :: u64 where
  "transaction_period =
     ucast (case map_option (\<lambda>c. c div 2) (checked_next_power_of_two BlockHashCount) of Some p \<Rightarrow> p | None \<Rightarrow> 2)"

record ('era, 'index) SignedExtra =
  CheckEra :: 'era
  CheckNonce :: 'index
  ChargeTransactionPayment :: Balance

text \<open>Eras, payloads and signatures are of the libraries.\<close>

definition create_transaction ::
  "(u64 \<Rightarrow> u64 \<Rightarrow> 'era) \<Rightarrow> ('call \<Rightarrow> ('era, 'index) SignedExtra \<Rightarrow> 'payload option) \<Rightarrow> ('payload \<Rightarrow> 'public \<Rightarrow> 'sig option)
    \<Rightarrow> ('acc \<Rightarrow> 'address) \<Rightarrow> ('payload \<Rightarrow> 'call \<times> ('era, 'index) SignedExtra) \<Rightarrow> u32 \<Rightarrow> 'call \<Rightarrow> 'public \<Rightarrow> 'acc \<Rightarrow> 'index
    \<Rightarrow> ('call \<times> 'address \<times> 'sig \<times> ('era, 'index) SignedExtra) option" where
  "create_transaction mortal new_payload sign unlookup deconstruct block_number call public account nonce =
     (let current_block = (if block_number = 0 then 0 else ucast block_number - 1);
          extra = \<lparr> CheckEra = mortal transaction_period current_block, CheckNonce = nonce, ChargeTransactionPayment = 0 \<rparr>
      in case new_payload call extra of
           None \<Rightarrow> None
         | Some raw_payload \<Rightarrow>
             (case sign raw_payload public of
                None \<Rightarrow> None
              | Some signature \<Rightarrow>
                  let (call', extra') = deconstruct raw_payload in Some (call', unlookup account, signature, extra')))"

text \<open>The random number of balancing iterations: the first four bytes of the seed, little-endian, below 11.\<close>

definition OffchainRandomBalancing :: "bytes \<Rightarrow> nat" where
  "OffchainRandomBalancing seed =
     (if MINER_MAX_ITERATIONS = 0 then 0
      else let padded = take 4 (seed @ replicate 4 0);
               random = foldr (\<lambda>b acc. ucast b + 256 * acc) padded (0 :: u32)
           in unat (random mod u32_saturating_add MINER_MAX_ITERATIONS 1))"

section \<open>The attribute macro (auto-config)\<close>

record ItemImpl =
  trait_path :: "string list option"
  impl_items :: "(string \<times> string) list"

text \<open>\<open>parse_type\<close> is \<open>syn::parse_str\<close>.\<close>

definition generate_impl_item_type :: "(string \<Rightarrow> bool) \<Rightarrow> string \<Rightarrow> string \<Rightarrow> (string \<times> string) res" where
  "generate_impl_item_type parse_type type_name field_name =
     (if parse_type type_name then Inr (field_name, type_name) else Inl (Panic ''unwrap''))"

definition auto_config :: "(string \<Rightarrow> bool) \<Rightarrow> string list \<Rightarrow> ItemImpl \<Rightarrow> ItemImpl res" where
  "auto_config parse_type args item =
     (let (include_event, include_weight, include_currency) =
            fold (\<lambda>arg (e, w, c).
              if arg = ''skip_event'' then (False, w, c) else if arg = ''skip_weight'' then (e, False, c)
              else if arg = ''include_currency'' then (e, w, True) else (e, w, c)) args (True, True, False)
      in case trait_path item of
           None \<Rightarrow> Inl (Panic ''Expected a trait impl'')
         | Some [] \<Rightarrow> Inl (Panic ''Expected a path segment'')
         | Some (pallet_name # _) \<Rightarrow>
             res_bind (if include_event then res_map (\<lambda>i. [i]) (generate_impl_item_type parse_type ''RuntimeEvent'' ''RuntimeEvent'') else Inr []) (\<lambda>a.
             res_bind (if include_weight
                       then res_map (\<lambda>i. [i]) (generate_impl_item_type parse_type (pallet_name @ ''::weights::SubstrateWeight<Runtime>'') ''WeightInfo'')
                       else Inr []) (\<lambda>b.
             res_map (\<lambda>c. item\<lparr> impl_items := impl_items item @ a @ b @ c \<rparr>)
               (if include_currency then res_map (\<lambda>i. [i]) (generate_impl_item_type parse_type ''Balances'' ''Currency'') else Inr []))))"

section \<open>Properties\<close>

lemma runtime_rows_bounded: "rows_bounded runtime_store_config"
  by (simp add: rows_bounded_def runtime_store_config_def config_constants)

lemma construct_runtime_indices: "distinct (map fst construct_runtime)" "distinct (map snd construct_runtime)"
  by (simp_all add: construct_runtime_def)

lemma deposit_exact: "unat (deposit items bytes) = unat items * 15000000000000 + unat bytes * 6000000000000"
proof -
  have "unat items < 2 ^ 32" "unat bytes < 2 ^ 32" using unsigned_less [of items] unsigned_less [of bytes] by simp_all
  then have lt: "unat items * 15000000000000 + unat bytes * 6000000000000 < (2 :: nat) ^ 128" by simp
  have "deposit items bytes = of_nat (unat items * 15000000000000 + unat bytes * 6000000000000)"
    by (simp add: deposit_def config_constants algebra_simps)
  moreover have "unat (of_nat n :: Balance) = n" if "n < 2 ^ 128" for n
    using that by (simp add: unat_of_nat take_bit_nat_eq_self)
  ultimately show ?thesis using lt by (simp only:)
qed

lemma balance_u256_roundtrip: "U256ToBalance (BalanceToU256 b) = b"
proof -
  have b: "unat b < 2 ^ 128" using unsigned_less [of b] by simp
  then have "unat (ucast b :: 256 word) = unat b" by (simp add: unsigned_ucast_eq take_bit_nat_eq_self)
  moreover have "ucast (ucast b :: 256 word) = b" by (rule bit_word_eqI) (simp add: bit_ucast_iff)
  ultimately show ?thesis using b by (simp add: U256ToBalance_def BalanceToU256_def)
qed

lemma pow2_from_numeral: "pow2_from (numeral k) p n = (if n \<le> p then Some p else pow2_from (pred_numeral k) (2 * p) n)"
  by (simp add: numeral_eq_Suc)

lemma transaction_period_value: "transaction_period = 2048"
  by (simp add: transaction_period_def checked_next_power_of_two_def config_constants pow2_from_numeral)

lemma balancing_iterations: "OffchainRandomBalancing seed \<le> 10"
proof -
  have "unat (x mod 11) \<le> 10" for x :: u32
    using mod_less_divisor [of 11 "unat x"] by (simp add: unat_mod)
  then show ?thesis by (simp add: OffchainRandomBalancing_def MINER_MAX_ITERATIONS_def u32_saturating_add_def Let_def)
qed

text \<open>The arguments of the macro act as a set, and unknown ones have no effect.\<close>

lemma auto_config_flags:
  "fold (\<lambda>arg (e, w, c).
     if arg = ''skip_event'' then (False, w, c) else if arg = ''skip_weight'' then (e, False, c)
     else if arg = ''include_currency'' then (e, w, True) else (e, w, c)) args (e0, w0, c0) =
   (e0 \<and> ''skip_event'' \<notin> set args, w0 \<and> ''skip_weight'' \<notin> set args, c0 \<or> ''include_currency'' \<in> set args)"
  by (induction args arbitrary: e0 w0 c0) auto

lemma auto_config_items:
  assumes "trait_path item = Some (pallet_name # rest)" and "\<And>t. parse_type t"
  shows "auto_config parse_type args item = Inr (item\<lparr> impl_items := impl_items item @
     (if ''skip_event'' \<in> set args then [] else [(''RuntimeEvent'', ''RuntimeEvent'')]) @
     (if ''skip_weight'' \<in> set args then [] else [(''WeightInfo'', pallet_name @ ''::weights::SubstrateWeight<Runtime>'')]) @
     (if ''include_currency'' \<in> set args then [(''Currency'', ''Balances'')] else []) \<rparr>)"
  using assms by (simp add: auto_config_def auto_config_flags generate_impl_item_type_def)

section \<open>The authorities never reach the store pallet\<close>

definition all_available :: "('acc, 'g1, 'auth) Store \<Rightarrow> bool" where
  "all_available s \<longleftrightarrow> (\<forall>b. \<forall>m\<in>set (st_Metadata s b). bm_is_available m)"

lemma SessionHandler_skips_store:
  "session_genesis SessionHandler cfg validators s = Inr s" "session_new SessionHandler changed validators queued s = s"
  "session_disabled SessionHandler i s = Inr s"
  by (simp_all add: session_genesis_def session_new_def session_disabled_def SessionHandler_def)

lemma no_keys_no_report: "st_Keys s = [] \<Longrightarrow> \<exists>e. dispatch (report cfg pm orig r) s = (Inl e, s)"
  by (rule dispatch_report(2)) (simp add: report_ok_def)

lemma runtime_reach_no_keys: "runtime_reach SessionHandler clear L kzg cfg pm s \<Longrightarrow> st_Keys s = [] \<and> all_available s"
proof (induction rule: runtime_reach.induct)
  case (submit s orig p)
  obtain x t where xt: "submit_data cfg orig p s = (x, t)" by fastforce
  show ?case
  proof (cases x)
    case Inl
    with xt submit show ?thesis by (simp add: dispatch_def)
  next
    case (Inr u)
    with xt obtain who where "t = submitted who p s" by (auto elim: submit_data_Inr)
    with Inr xt submit show ?thesis by (auto simp: dispatch_def submitted_def submitted_metadata_def all_available_def Let_def)
  qed
next
  case (vote s orig r)
  then show ?case using no_keys_no_report [of s cfg pm orig r] by auto
next
  case (register s orig)
  then show ?case by (cases orig) (simp_all add: dispatch_def register_app_def Let_def deposit_event_def all_available_def)
next
  case (query s b pos)
  then show ?case by (simp add: commitments_from_position_def all_available_def Let_def split: option.splits sum.splits)
next
  case (push_ext s b cs s')
  then show ?case by (auto simp: push_commitments_ext_def all_available_def Let_def split: if_splits)
next
  case (end_block s)
  then show ?case by (simp add: next_block_def on_finalize_def all_available_def Let_def)
qed (simp_all add: SessionHandler_skips_store genesis_store_def all_available_def)

text \<open>C25: On the real runtime no submission is ever marked unavailable. The session handlers are the pallets of the session keys, without the store
  pallet, and nothing else gives it authorities; so in every storage the chain reaches by its calls, blocks and sessions, whatever validators the sessions have, the pallet has
  no keys, every report is refused by the pool and by the call and changes nothing, no worker finds a key to report with, and
  every submission is available. With the store pallet among the handlers, as in the pallet's tests, a session gives it the keys.\<close>

theorem runtime_never_marks_unavailable:
  assumes "runtime_reach SessionHandler clear L kzg cfg pm s"
  shows "st_Keys s = [] \<and> (\<forall>orig r. \<exists>e. dispatch (report cfg pm orig r) s = (Inl e, s)) \<and>
     (\<forall>verify rc prio r signature. validate_unsigned verify rc prio (call_report r signature) s = Inl Stale) \<and>
     (\<forall>local_keys. local_authority_keys local_keys s = []) \<and> all_available s \<and>
     st_Keys (session_new [MeloStore] changed validators queued s) = map (im_online \<circ> snd) validators"
proof -
  have s: "st_Keys s = []" "all_available s" using runtime_reach_no_keys [OF assms] by simp_all
  have "validate_unsigned verify rc prio (call_report r signature) s = Inl Stale" for verify rc prio r signature
    using s(1) by (simp add: validate_unsigned_def get_opt_def)
  moreover have "local_authority_keys local_keys s = []" for local_keys
    using s(1) by (simp add: local_authority_keys_def enumerate0_def List.map_filter_simps)
  moreover have "st_Keys (session_new [MeloStore] changed validators queued s) = map (im_online \<circ> snd) validators"
    by (simp add: session_new_def on_new_session_def store_validators_def case_prod_unfold)
  ultimately show ?thesis using s no_keys_no_report [OF s(1)] by blast
qed

text \<open>A submission, a session with two validators; then a report of the first validator.\<close>

definition one_row :: "bytes list SidecarMetadata" where
  "one_row = \<lparr> sm_app_id = 0, sm_bytes_len = 31, sm_nonce = 1, sm_commitments = [[]], sm_proofs = [[]] \<rparr>"

definition equal_keys :: "nat \<Rightarrow> nat SessionKeys" where
  "equal_keys k = \<lparr> grandpa = k, babe = k, im_online = k, authority_discovery = k \<rparr>"

lemma one_row_submitted:
  "dispatch (submit_data runtime_store_config (Signed 7) one_row) (genesis_store []) =
     (Inr (), submitted 7 one_row (genesis_store [] :: (nat, bytes list, nat) Store))"
proof -
  have "submit_ok runtime_store_config one_row (genesis_store [] :: (nat, bytes list, nat) Store)"
    by (simp add: submit_ok_def one_row_def SidecarMetadata_check_def runtime_store_config_def genesis_store_def config_constants BYTES_PER_BLOB_def
        FIELD_ELEMENTS_PER_BLOB_def BYTES_PER_FIELD_ELEMENT_def u32_saturating_add_def)
  then show ?thesis by (simp add: dispatch_def submit_data_eq)
qed

theorem runtime_never_marks_unavailable_witness:
  "let s = session_new SessionHandler True [(1 :: nat, equal_keys 10), (2, equal_keys 11)] []
         (snd (dispatch (submit_data runtime_store_config (Signed 7) one_row) (genesis_store [])))
   in length (st_Metadata s 0) = 1 \<and> st_Keys s = [] \<and>
      (\<exists>e. dispatch (report runtime_store_config sample_permill Unsigned
         \<lparr> ur_at_block = 0, ur_authority_index = 0, ur_index_set = [0], ur_validators_len = 2 \<rparr>) s = (Inl e, s))"
proof -
  let ?s0 = "snd (dispatch (submit_data runtime_store_config (Signed 7) one_row) (genesis_store [])) :: (nat, bytes list, nat) Store"
  let ?s = "session_new SessionHandler True [(1, equal_keys 10), (2, equal_keys 11)] [] ?s0"
  have "runtime_reach SessionHandler sample_clear sample_lib (sample_kzg 4096) runtime_store_config sample_permill ?s"
    by (intro runtime_reach.session runtime_reach.submit runtime_reach.genesis) (simp add: SessionHandler_skips_store)
  from runtime_never_marks_unavailable [OF this, of True "[]" "[]"]
  have "st_Keys ?s = [] \<and> (\<exists>e. dispatch (report runtime_store_config sample_permill Unsigned
         \<lparr> ur_at_block = 0, ur_authority_index = 0, ur_index_set = [0], ur_validators_len = 2 \<rparr>) ?s = (Inl e, ?s))" by blast
  moreover have "length (st_Metadata ?s 0) = 1"
    unfolding SessionHandler_skips_store one_row_submitted by (simp add: submitted_def genesis_store_def Let_def)
  ultimately show ?thesis unfolding Let_def by blast
qed

end
