(* ===== verification/Chain_Spec.thy ===== *)
theory Chain_Spec
  imports Runtime_Assembly
begin

text \<open>
  The chain specifications of the node (node/src/chain\_spec.rs, command.rs): the keys of the authorities, the genesis configuration made
  of them, and which specification a name stands for. Key derivation from a seed, conversion of keys to accounts and the random choice of
  nominations are of the libraries.
\<close>

section \<open>Keys from seeds (chain\_spec.rs, helper)\<close>

datatype KeyKind = Sr25519 | Ed25519

record ('key, 'acc) key_lib =
  pair_public :: "KeyKind \<Rightarrow> string \<Rightarrow> 'key option"
  into_account :: "'key \<Rightarrow> 'acc"
  unchecked_into :: "'acc \<Rightarrow> 'key"

record ('key, 'acc) AuthorityKeys =
  controller :: 'acc
  stash :: 'acc
  session_keys :: "'key SessionKeys"

definition get_from_seed :: "('key, 'acc) key_lib \<Rightarrow> KeyKind \<Rightarrow> string \<Rightarrow> 'key res" where
  "get_from_seed K kind seed =
     (case pair_public K kind (''//'' @ seed) of Some k \<Rightarrow> Inr k | None \<Rightarrow> Inl (Panic ''static values are valid; qed''))"

definition account_id_from_seed :: "('key, 'acc) key_lib \<Rightarrow> string \<Rightarrow> 'acc res" where
  "account_id_from_seed K seed = res_map (into_account K) (get_from_seed K Sr25519 seed)"

definition sr25519_id :: "('key, 'acc) key_lib \<Rightarrow> string \<Rightarrow> 'acc res" where
  "sr25519_id K key = account_id_from_seed K key"

definition AuthorityKeys_from_seed :: "('key, 'acc) key_lib \<Rightarrow> string \<Rightarrow> ('key, 'acc) AuthorityKeys res" where
  "AuthorityKeys_from_seed K seed =
     res_bind (account_id_from_seed K seed) (\<lambda>c.
     res_bind (account_id_from_seed K (seed @ ''//stash'')) (\<lambda>s.
     res_bind (get_from_seed K Sr25519 seed) (\<lambda>b.
     res_bind (get_from_seed K Ed25519 seed) (\<lambda>g.
     res_bind (get_from_seed K Sr25519 seed) (\<lambda>i.
     res_map (\<lambda>d. \<lparr> controller = c, stash = s,
                    session_keys = \<lparr> grandpa = g, babe = b, im_online = i, authority_discovery = d \<rparr> \<rparr>)
       (get_from_seed K Sr25519 seed))))))"

definition AuthorityKeys_from_accounts :: "('key, 'acc) key_lib \<Rightarrow> 'acc \<Rightarrow> 'key \<Rightarrow> 'acc option \<Rightarrow> ('key, 'acc) AuthorityKeys" where
  "AuthorityKeys_from_accounts K account grandpa_id stash_id =
     (let raw = unchecked_into K account in
      \<lparr> controller = account, stash = (case stash_id of Some s \<Rightarrow> s | None \<Rightarrow> account),
        session_keys = \<lparr> grandpa = grandpa_id, babe = raw, im_online = raw, authority_discovery = raw \<rparr> \<rparr>)"

definition endow_accounts :: "('key, 'acc) key_lib \<Rightarrow> string list \<Rightarrow> 'acc list res" where
  "endow_accounts K accounts =
     res_map concat (traverse (\<lambda>x.
       res_bind (account_id_from_seed K x) (\<lambda>a.
       res_map (\<lambda>b. [a, b]) (account_id_from_seed K (x @ ''//stash'')))) accounts)"

definition authority_keys_from_seeds :: "('key, 'acc) key_lib \<Rightarrow> string list \<Rightarrow> ('key, 'acc) AuthorityKeys list res" where
  "authority_keys_from_seeds K seeds = traverse (AuthorityKeys_from_seed K) seeds"

definition ENDOWMENT :: Balance where "ENDOWMENT = 10000000 * DOLLARS"
definition STASH :: Balance where "STASH = ENDOWMENT div 1000"

section \<open>The genesis configuration\<close>

datatype 'acc StakerStatus = Validator | Nominator "'acc list"

text \<open>The parts of the genesis that depend on the arguments or hold balances; the code, the slash fraction, the epoch configuration and the
  sections that are empty or defaults are left out.\<close>

record ('key, 'acc) GenesisConfig =
  gc_balances :: "('acc \<times> Balance) list"
  gc_session_keys :: "('acc \<times> 'acc \<times> 'key SessionKeys) list"
  gc_validator_count :: u32
  gc_minimum_validator_count :: u32
  gc_invulnerables :: "'acc list"
  gc_stakers :: "('acc \<times> 'acc \<times> Balance \<times> 'acc StakerStatus) list"
  gc_elections_members :: "('acc \<times> Balance) list"
  gc_technical_committee :: "'acc list"
  gc_sudo_key :: "'acc option"
  gc_assets :: "(u32 \<times> 'acc \<times> bool \<times> Balance) list"
  gc_min_create_bond :: Balance
  gc_min_join_bond :: Balance

text \<open>\<open>generate_solution_type!\<close> names the limit of nominations in the type it makes.\<close>

definition MaxNominations :: nat where "MaxNominations = 16"

text \<open>The random source is a parameter: a number and a choice of so many authorities for each nominator.\<close>

definition nominator_staker ::
  "('acc \<Rightarrow> nat) \<Rightarrow> ('acc \<Rightarrow> nat \<Rightarrow> ('key, 'acc) AuthorityKeys list \<Rightarrow> ('key, 'acc) AuthorityKeys list) \<Rightarrow> ('key, 'acc) AuthorityKeys list
    \<Rightarrow> 'acc \<Rightarrow> ('acc \<times> 'acc \<times> Balance \<times> 'acc StakerStatus) res" where
  "nominator_staker rnd choose_multiple initial_authorities x =
     (let limit = min MaxNominations (length initial_authorities) in
      if limit = 0 then Inl (Panic ''attempt to calculate the remainder with a divisor of zero'')
      else let count = rnd x mod limit; nominations = map stash (choose_multiple x count initial_authorities)
           in Inr (x, x, STASH, Nominator nominations))"

fun endow_new :: "'acc list \<Rightarrow> 'acc list \<Rightarrow> 'acc list" where
  "endow_new [] endowed = endowed"
| "endow_new (x # xs) endowed = endow_new xs (if x \<in> set endowed then endowed else endowed @ [x])"

definition testnet_genesis ::
  "('key, 'acc) key_lib \<Rightarrow> ('acc \<Rightarrow> nat) \<Rightarrow> ('acc \<Rightarrow> nat \<Rightarrow> ('key, 'acc) AuthorityKeys list \<Rightarrow> ('key, 'acc) AuthorityKeys list)
    \<Rightarrow> ('key, 'acc) AuthorityKeys list \<Rightarrow> 'acc list \<Rightarrow> 'acc \<Rightarrow> 'acc list option \<Rightarrow> ('key, 'acc) GenesisConfig res" where
  "testnet_genesis K rnd choose_multiple initial_authorities initial_nominators root_key endowed_accounts =
     res_bind (case endowed_accounts of
                 Some accounts \<Rightarrow> Inr accounts
               | None \<Rightarrow> endow_accounts K [''Alice'', ''Bob'', ''Charlie'', ''Dave'', ''Eve'', ''Ferdie'']) (\<lambda>endowed0.
     let endowed = endow_new (map controller initial_authorities @ initial_nominators) endowed0 in
     res_bind (traverse (nominator_staker rnd choose_multiple initial_authorities) initial_nominators) (\<lambda>nominators.
     res_map (\<lambda>alice.
       \<lparr> gc_balances = map (\<lambda>x. (x, ENDOWMENT)) endowed,
         gc_session_keys = map (\<lambda>x. (stash x, stash x, session_keys x)) initial_authorities,
         gc_validator_count = of_nat (length initial_authorities), gc_minimum_validator_count = of_nat (length initial_authorities),
         gc_invulnerables = map stash initial_authorities,
         gc_stakers = map (\<lambda>x. (stash x, controller x, STASH, Validator)) initial_authorities @ nominators,
         gc_elections_members = map (\<lambda>member. (member, STASH)) (take ((length endowed + 1) div 2) endowed),
         gc_technical_committee = take ((length endowed + 1) div 2) endowed, gc_sudo_key = Some root_key,
         gc_assets = [(9, alice, True, 1)], gc_min_create_bond = 10 * DOLLARS, gc_min_join_bond = DOLLARS \<rparr>)
       (sr25519_id K ''Alice'')))"

section \<open>The specifications of the node\<close>

text \<open>Accounts are 32 bytes; the last specification has them in hexadecimal.\<close>

definition development_config_genesis :: "('key, 'acc) key_lib \<Rightarrow> ('acc \<Rightarrow> nat)
    \<Rightarrow> ('acc \<Rightarrow> nat \<Rightarrow> ('key, 'acc) AuthorityKeys list \<Rightarrow> ('key, 'acc) AuthorityKeys list) \<Rightarrow> ('key, 'acc) GenesisConfig res" where
  "development_config_genesis K rnd choose_multiple =
     res_bind (authority_keys_from_seeds K [''Alice'']) (\<lambda>auths.
     res_bind (sr25519_id K ''Alice'') (\<lambda>root. testnet_genesis K rnd choose_multiple auths [] root None))"

definition local_testnet_genesis :: "('key, 'acc) key_lib \<Rightarrow> ('acc \<Rightarrow> nat)
    \<Rightarrow> ('acc \<Rightarrow> nat \<Rightarrow> ('key, 'acc) AuthorityKeys list \<Rightarrow> ('key, 'acc) AuthorityKeys list) \<Rightarrow> ('key, 'acc) GenesisConfig res" where
  "local_testnet_genesis K rnd choose_multiple =
     res_bind (authority_keys_from_seeds K [''Alice'', ''Bob'', ''Charlie'']) (\<lambda>auths.
     res_bind (sr25519_id K ''Alice'') (\<lambda>root. testnet_genesis K rnd choose_multiple auths [] root None))"

definition overtrue_testnet_genesis :: "('key, 256 word) key_lib \<Rightarrow> (256 word \<Rightarrow> nat)
    \<Rightarrow> (256 word \<Rightarrow> nat \<Rightarrow> ('key, 256 word) AuthorityKeys list \<Rightarrow> ('key, 256 word) AuthorityKeys list) \<Rightarrow> ('key, 256 word) GenesisConfig res" where
  "overtrue_testnet_genesis K rnd choose_multiple =
     testnet_genesis K rnd choose_multiple
       [AuthorityKeys_from_accounts K 0x4850a46ca0afedc00ad8239f903fe0348fc7f2dfb6af5100ef85f1d934871b1c
          (unchecked_into K 0x518f9fedc6b65cee2bfbe750e8fd92b24266e1b624c6359730e63081233ebcd3) None,
        AuthorityKeys_from_accounts K 0x3ebd4644efe640497ffa8d6421bdf4f4d297b9e725a8bba08d61edad809bb871
          (unchecked_into K 0xfb21af619fe27e9963afe208f04d57d141624170a141a8fae2ada560941f44d5) None,
        AuthorityKeys_from_accounts K 0xd07e877f36ba61175dc769463fc131354338c382c95b8d6e9e36252ca05c6f79
          (unchecked_into K 0xf2f5d903a18828e3d4cb2dd1da7882900dbc9825eade91dcf61bcd1e25b0b817) None]
       [] 0x4850a46ca0afedc00ad8239f903fe0348fc7f2dfb6af5100ef85f1d934871b1c
       (Some [0x8a9679d0624a555c9c1088578b0c488b03c5150fe6c021f4968d338a6ebfb24b])"

datatype 'path ChainSpec = overtrue_testnet_config | development_config | local_testnet_config | from_json_file 'path

definition load_spec :: "(string \<Rightarrow> string + 'path) \<Rightarrow> string \<Rightarrow> string + 'path ChainSpec" where
  "load_spec read_json_file spec_id =
     (if spec_id = '''' then Inl ''Please specify which chain you want to run, e.g. --dev or --chain=local''
      else if spec_id = ''overtrue'' then Inr overtrue_testnet_config
      else if spec_id = ''dev'' then Inr development_config
      else if spec_id = ''local'' then Inr local_testnet_config
      else map_sum id from_json_file (read_json_file spec_id))"

section \<open>Properties\<close>

text \<open>What the pallets need of the genesis: no account has two balances, every staker has the bond on the stash, every validator among the
  stakers has session keys registered under the stash, these stashes are the invulnerable ones and as many as the validators wanted,
  and the root key and the members have balances.\<close>

definition genesis_consistent :: "('key, 'acc) GenesisConfig \<Rightarrow> bool" where
  "genesis_consistent g \<longleftrightarrow>
     distinct (map fst (gc_balances g)) \<and>
     (\<forall>(s, c, bond, status)\<in>set (gc_stakers g). \<exists>b. (s, b) \<in> set (gc_balances g) \<and> bond \<le> b) \<and>
     (\<forall>(s, c, bond, status)\<in>set (gc_stakers g). status = Validator \<longrightarrow> (\<exists>keys. (s, s, keys) \<in> set (gc_session_keys g))) \<and>
     map fst (gc_session_keys g) = gc_invulnerables g \<and> gc_validator_count g = of_nat (length (gc_session_keys g)) \<and>
     (\<forall>root. gc_sudo_key g = Some root \<longrightarrow> root \<in> fst ` set (gc_balances g)) \<and>
     set (gc_technical_committee g) \<subseteq> fst ` set (gc_balances g) \<and>
     (\<forall>(m, bond)\<in>set (gc_elections_members g). \<exists>b. (m, b) \<in> set (gc_balances g) \<and> bond \<le> b)"

lemma endow_new_set: "set (endow_new xs endowed) = set xs \<union> set endowed"
  by (induction xs endowed rule: endow_new.induct) auto

lemma endow_new_distinct: "distinct endowed \<Longrightarrow> distinct (endow_new xs endowed)"
  by (induction xs endowed rule: endow_new.induct) simp_all

lemma STASH_le: "STASH \<le> ENDOWMENT"
  by (simp add: STASH_def ENDOWMENT_def config_constants)

lemma testnet_genesis_consistent:
  assumes "endowed_accounts = Some endowed0 \<or> endowed_accounts = None \<and> endow_accounts K [''Alice'', ''Bob'', ''Charlie'', ''Dave'', ''Eve'', ''Ferdie''] = Inr endowed0"
    and "distinct endowed0" and "stash ` set auths \<subseteq> controller ` set auths \<union> set endowed0" and "root \<in> controller ` set auths \<union> set endowed0"
    and "sr25519_id K ''Alice'' = Inr alice"
  shows "\<exists>g. testnet_genesis K rnd choose_multiple auths [] root endowed_accounts = Inr g \<and> genesis_consistent g"
proof -
  let ?endowed = "endow_new (map controller auths) endowed0"
  have e: "set ?endowed = controller ` set auths \<union> set endowed0" "distinct ?endowed"
    using assms(2) by (simp_all add: endow_new_set endow_new_distinct)
  obtain g where g: "testnet_genesis K rnd choose_multiple auths [] root endowed_accounts = Inr g"
      "gc_balances g = map (\<lambda>x. (x, ENDOWMENT)) ?endowed" "gc_stakers g = map (\<lambda>x. (stash x, controller x, STASH, Validator)) auths"
      "gc_session_keys g = map (\<lambda>x. (stash x, stash x, session_keys x)) auths" "gc_invulnerables g = map stash auths"
      "gc_validator_count g = of_nat (length auths)" "gc_sudo_key g = Some root"
      "gc_technical_committee g = take ((length ?endowed + 1) div 2) ?endowed"
      "gc_elections_members g = map (\<lambda>member. (member, STASH)) (take ((length ?endowed + 1) div 2) ?endowed)"
    using assms(1,5) by (auto simp: testnet_genesis_def Let_def)
  have fst: "fst ` set (gc_balances g) = set ?endowed" by (simp add: g(2) image_image)
  have funded: "\<exists>b. (x, b) \<in> set (gc_balances g) \<and> STASH \<le> b" if "x \<in> set ?endowed" for x
    using that STASH_le by (auto simp: g(2))
  have "distinct (map fst (gc_balances g))" using e(2) by (simp add: g(2) comp_def)
  moreover have "\<exists>b. (stash x, b) \<in> set (gc_balances g) \<and> STASH \<le> b" if "x \<in> set auths" for x
    using assms(3) e(1) that by (intro funded) blast
  moreover have "\<exists>b. (m, b) \<in> set (gc_balances g) \<and> STASH \<le> b" if "m \<in> set (take ((length ?endowed + 1) div 2) ?endowed)" for m
    using that by (intro funded) (rule in_set_takeD)
  moreover have "set (take ((length ?endowed + 1) div 2) ?endowed) \<subseteq> fst ` set (gc_balances g)"
    unfolding fst by (rule set_take_subset)
  moreover have "root \<in> fst ` set (gc_balances g)" unfolding fst e(1) by (rule assms(4))
  ultimately have "genesis_consistent g" unfolding genesis_consistent_def g(3-) by (auto simp: comp_def)
  with g(1) show ?thesis by blast
qed

text \<open>The derivation paths of the development accounts, which key derivation takes.\<close>

definition seed_paths :: "string list" where
  "seed_paths = concat (map (\<lambda>s. [''//'' @ s, ''//'' @ s @ ''//stash'']) [''Alice'', ''Bob'', ''Charlie'', ''Dave'', ''Eve'', ''Ferdie''])"

definition path_account :: "('key, 'acc) key_lib \<Rightarrow> string \<Rightarrow> 'acc" where
  "path_account K path = into_account K (the (pair_public K Sr25519 path))"

definition seeds_valid :: "('key, 'acc) key_lib \<Rightarrow> bool" where
  "seeds_valid K \<longleftrightarrow> (\<forall>kind. \<forall>path\<in>set seed_paths. pair_public K kind path \<noteq> None)"

lemma seed_ok:
  assumes "seeds_valid K" and "''//'' @ seed \<in> set seed_paths"
  shows "get_from_seed K kind seed = Inr (the (pair_public K kind (''//'' @ seed)))"
    and "account_id_from_seed K seed = Inr (path_account K (''//'' @ seed))"
proof -
  have get: "get_from_seed K kind seed = Inr (the (pair_public K kind (''//'' @ seed)))" for kind
  proof -
    obtain k where "pair_public K kind (''//'' @ seed) = Some k" using assms unfolding seeds_valid_def by blast
    then show ?thesis unfolding get_from_seed_def by simp
  qed
  show "get_from_seed K kind seed = Inr (the (pair_public K kind (''//'' @ seed)))" by (rule get)
  show "account_id_from_seed K seed = Inr (path_account K (''//'' @ seed))"
    by (simp only: account_id_from_seed_def get res_map_simps path_account_def)
qed

lemma named_paths:
  assumes "seed \<in> {''Alice'', ''Bob'', ''Charlie'', ''Dave'', ''Eve'', ''Ferdie''}"
  shows "''//'' @ seed @ ''//stash'' \<in> set seed_paths" and "''//'' @ seed \<in> set seed_paths"
  using assms by (auto simp: seed_paths_def)

lemma endow_accounts_ok:
  assumes "seeds_valid K"
  shows "endow_accounts K [''Alice'', ''Bob'', ''Charlie'', ''Dave'', ''Eve'', ''Ferdie''] = Inr (map (path_account K) seed_paths)"
proof -
  let ?names = "[''Alice'', ''Bob'', ''Charlie'', ''Dave'', ''Eve'', ''Ferdie'']"
  have "traverse (\<lambda>x. res_bind (account_id_from_seed K x) (\<lambda>a. res_map (\<lambda>b. [a, b]) (account_id_from_seed K (x @ ''//stash'')))) ?names =
      Inr (map (\<lambda>x. [path_account K (''//'' @ x), path_account K (''//'' @ x @ ''//stash'')]) ?names)"
  proof (rule traverse_all_Inr)
    fix x assume "x \<in> set ?names"
    then have "x \<in> {''Alice'', ''Bob'', ''Charlie'', ''Dave'', ''Eve'', ''Ferdie''}" by simp
    from seed_ok(2) [OF assms named_paths(2) [OF this]] seed_ok(2) [OF assms named_paths(1) [OF this]]
    show "res_bind (account_id_from_seed K x) (\<lambda>a. res_map (\<lambda>b. [a, b]) (account_id_from_seed K (x @ ''//stash''))) =
      Inr [path_account K (''//'' @ x), path_account K (''//'' @ x @ ''//stash'')]" by (simp only: res_bind_simps res_map_simps)
  qed
  then show ?thesis by (simp add: endow_accounts_def seed_paths_def)
qed

definition authority_of :: "('key, 'acc) key_lib \<Rightarrow> string \<Rightarrow> ('key, 'acc) AuthorityKeys" where
  "authority_of K seed = projr (AuthorityKeys_from_seed K seed)"

lemma authority_of:
  assumes "seeds_valid K" and "seed \<in> {''Alice'', ''Bob'', ''Charlie'', ''Dave'', ''Eve'', ''Ferdie''}"
  shows "AuthorityKeys_from_seed K seed = Inr (authority_of K seed)"
    and "stash (authority_of K seed) = path_account K (''//'' @ seed @ ''//stash'')"
proof -
  note ok = seed_ok [OF assms(1) named_paths(2) [OF assms(2)]] seed_ok(2) [OF assms(1) named_paths(1) [OF assms(2)]]
  have "\<exists>a. AuthorityKeys_from_seed K seed = Inr a \<and> stash a = path_account K (''//'' @ seed @ ''//stash'')"
    unfolding AuthorityKeys_from_seed_def ok res_bind_simps res_map_simps by (intro exI conjI) (rule HOL.refl, simp)
  then show "AuthorityKeys_from_seed K seed = Inr (authority_of K seed)"
    and "stash (authority_of K seed) = path_account K (''//'' @ seed @ ''//stash'')"
    by (auto simp: authority_of_def)
qed

lemma seeded_genesis:
  assumes "seeds_valid K" and "distinct (map (path_account K) seed_paths)" and "set names \<subseteq> {''Alice'', ''Bob'', ''Charlie''}"
  shows "\<exists>g. res_bind (authority_keys_from_seeds K names) (\<lambda>auths. res_bind (sr25519_id K ''Alice'')
      (\<lambda>root. testnet_genesis K rnd pick auths [] root None)) = Inr g \<and> genesis_consistent g"
proof -
  let ?auths = "map (authority_of K) names" and ?root = "path_account K (''//'' @ ''Alice'')"
  have in_names: "seed \<in> {''Alice'', ''Bob'', ''Charlie'', ''Dave'', ''Eve'', ''Ferdie''}" if "seed \<in> set names" for seed
    using that assms(3) by blast
  have alice: "sr25519_id K ''Alice'' = Inr ?root" unfolding sr25519_id_def by (rule seed_ok(2) [OF assms(1) named_paths(2)]) simp
  have auths: "authority_keys_from_seeds K names = Inr ?auths"
    unfolding authority_keys_from_seeds_def by (rule traverse_all_Inr) (rule authority_of(1) [OF assms(1) in_names])
  have "stash a \<in> set (map (path_account K) seed_paths)" if "a \<in> set ?auths" for a
  proof -
    from that obtain seed where seed: "seed \<in> set names" "a = authority_of K seed" by auto
    from named_paths(1) [OF in_names [OF seed(1)]] show ?thesis
      unfolding seed(2) authority_of(2) [OF assms(1) in_names [OF seed(1)]] set_map by (rule imageI)
  qed
  then have "stash ` set ?auths \<subseteq> controller ` set ?auths \<union> set (map (path_account K) seed_paths)" by blast
  moreover have "?root \<in> controller ` set ?auths \<union> set (map (path_account K) seed_paths)"
    unfolding set_map by (rule UnI2, rule imageI, rule named_paths(2)) simp
  ultimately have "\<exists>g. testnet_genesis K rnd pick ?auths [] ?root None = Inr g \<and> genesis_consistent g"
    by (intro testnet_genesis_consistent [OF disjI2 [OF conjI [OF HOL.refl endow_accounts_ok [OF assms(1)]]] assms(2) _ _ alice])
  then show ?thesis unfolding auths alice res_bind_simps .
qed

text \<open>C24: Every chain specification of the node has a consistent genesis: the development, the local and the overtrue configuration are made without a panic,
  no account is endowed twice, every staker's stash holds its bond, every validator among the stakers has session keys under its stash, and the root key
  and the members of the council and the committee hold balances; given that key derivation takes the twelve development
  seeds and gives them different accounts.\<close>

theorem shipped_genesis_consistent:
  assumes "seeds_valid K" and "distinct (map (path_account K) seed_paths)"
  shows "\<exists>dev loc overtrue. development_config_genesis K rnd pick = Inr dev \<and> local_testnet_genesis K rnd pick = Inr loc \<and>
     overtrue_testnet_genesis K rnd pick = Inr overtrue \<and> genesis_consistent dev \<and> genesis_consistent loc \<and> genesis_consistent overtrue"
proof -
  have alice: "sr25519_id K ''Alice'' = Inr (path_account K (''//'' @ ''Alice''))"
    unfolding sr25519_id_def by (rule seed_ok(2) [OF assms(1) named_paths(2)]) simp
  have "\<exists>g. development_config_genesis K rnd pick = Inr g \<and> genesis_consistent g"
    unfolding development_config_genesis_def by (rule seeded_genesis [OF assms]) simp
  moreover have "\<exists>g. local_testnet_genesis K rnd pick = Inr g \<and> genesis_consistent g"
    unfolding local_testnet_genesis_def by (rule seeded_genesis [OF assms]) simp
  moreover have "\<exists>g. overtrue_testnet_genesis K rnd pick = Inr g \<and> genesis_consistent g"
    unfolding overtrue_testnet_genesis_def
    by (rule testnet_genesis_consistent [OF disjI1 [OF HOL.refl] _ _ _ alice])
      (simp_all add: AuthorityKeys_from_accounts_def Let_def)
  ultimately show ?thesis by blast
qed

text \<open>An instance: a key is its derivation path, an account the path read as a number.\<close>

definition path_keys :: "(string, 256 word) key_lib" where
  "path_keys = \<lparr> pair_public = \<lambda>_ path. Some path, into_account = foldl (\<lambda>n c. n * 256 + of_char c) 0, unchecked_into = \<lambda>_. [] \<rparr>"

theorem shipped_genesis_consistent_witness:
  "\<exists>dev. development_config_genesis path_keys (\<lambda>_. 0) (\<lambda>_ n auths. take n auths) = Inr dev \<and> genesis_consistent dev"
proof -
  have "distinct (map (path_account path_keys) seed_paths)"
    by (simp add: path_account_def path_keys_def seed_paths_def)
  moreover have "seeds_valid path_keys" by (simp add: seeds_valid_def path_keys_def)
  ultimately show ?thesis using shipped_genesis_consistent [where K = path_keys and rnd = "\<lambda>_. 0" and pick = "\<lambda>_ n auths. take n auths"]
    by blast
qed

end
