(* ===== verification/Client_Loops.thy ===== *)
theory Client_Loops
  imports Clients Store_Props Space_Props
begin

text \<open>
  The processes around the handlers of \<open>Clients\<close>: the command line of the farmer and of the light client (farmer/src/cli.rs and
  light/src/cli.rs, which are equal), their loops over a subscription to headers (farmer/src/event\_handler.rs,
  light/src/finalized\_headers.rs), and what the client library sends to the chain (crates/meloxt).
\<close>

section \<open>Command line (cli.rs)\<close>

record Cli =
  cli_rpc_listen_addr :: "string option"
  cli_rpc_remote_url :: "string option"
  cli_das_net_listen_port :: "u16 option"
  cli_dev_mode :: bool
  cli_test_mode :: bool

record Config =
  cfg_rpc_listen_addr :: string
  cfg_rpc_url :: string
  cfg_network_config :: DasNetworkConfig

definition DEFAULT_RPC_LISTEN_ADDR :: string where "DEFAULT_RPC_LISTEN_ADDR = ''127.0.0.1:4177''"
definition DEV_RPC_URL :: string where "DEV_RPC_URL = ''ws://127.0.0.1:9944''"
definition TEST_RPC_URL :: string where "TEST_RPC_URL = ''wss://dev.melodot.io:9944''"
definition DEFAULT_RPC_URL :: string where "DEFAULT_RPC_URL = ''ws://127.0.0.1:9944''"

definition from_cli_args :: "Cli \<Rightarrow> Config" where
  "from_cli_args cli =
     (let listen = (case cli_rpc_listen_addr cli of Some a \<Rightarrow> a | None \<Rightarrow> DEFAULT_RPC_LISTEN_ADDR);
          (url, net) = (if cli_dev_mode cli then (DEV_RPC_URL, DasNetworkConfig_default\<lparr> listen_port := 4418 \<rparr>)
                        else if cli_test_mode cli then (TEST_RPC_URL, DasNetworkConfig_default)
                        else (DEFAULT_RPC_URL, DasNetworkConfig_default))
      in \<lparr> cfg_rpc_listen_addr = listen, cfg_rpc_url = (case cli_rpc_remote_url cli of Some u \<Rightarrow> u | None \<Rightarrow> url), cfg_network_config = net \<rparr>)"

text \<open>The option for the port of the network has no effect: the port is 4417, or 4418 in development mode.\<close>

lemma listen_port_option_ignored:
  "from_cli_args (cli\<lparr> cli_das_net_listen_port := p \<rparr>) = from_cli_args cli"
  "listen_port (cfg_network_config (from_cli_args cli)) = (if cli_dev_mode cli then 4418 else 4417)"
  by (simp_all add: from_cli_args_def DasNetworkConfig_default_def)

section \<open>What is sent to the chain (meloxt)\<close>

text \<open>The types of the generated bindings: group elements and scalars are their bytes.\<close>

record RtSegmentData =
  rt_proof :: bytes
  rt_data :: "bytes list"

record RtSegment =
  rt_position :: Position
  rt_content :: RtSegmentData

datatype RtPiecePosition = RtRow u32 | RtColumn u32

record RtPieceMetadata =
  rt_block_num :: u32
  rt_pos :: RtPiecePosition

record RtPreCell =
  rt_pre_seg :: RtSegment
  rt_pre_position :: RtPiecePosition

record RtCell =
  rt_piece_metadata :: RtPieceMetadata
  rt_offset :: u32
  rt_cell_seg :: RtSegment

definition commitments_to_runtime :: "('fr, 'g1, 'g2, 'fs, 'fk) kzg_lib \<Rightarrow> 'g1 list \<Rightarrow> bytes list" where
  "commitments_to_runtime L commitments = map (KZGCommitment_to_bytes L) commitments"

definition proofs_to_runtime :: "('fr, 'g1, 'g2, 'fs, 'fk) kzg_lib \<Rightarrow> 'g1 list \<Rightarrow> bytes list" where
  "proofs_to_runtime L proofs = map (KZGCommitment_to_bytes L) proofs"

definition bls_scalars_to_runtime :: "('fr, 'g1, 'g2, 'fs, 'fk) kzg_lib \<Rightarrow> 'fr list \<Rightarrow> bytes list" where
  "bls_scalars_to_runtime L ss = map (BlsScalar_to_bytes L) ss"

definition piece_position_to_runtime :: "PiecePosition \<Rightarrow> RtPiecePosition" where
  "piece_position_to_runtime pos = (case pos of Row row \<Rightarrow> RtRow row | Column column \<Rightarrow> RtColumn column)"

definition piece_metadata_to_runtime :: "PiecePosition \<Rightarrow> u32 \<Rightarrow> RtPieceMetadata" where
  "piece_metadata_to_runtime pos block_num = \<lparr> rt_block_num = block_num, rt_pos = piece_position_to_runtime pos \<rparr>"

definition segment_to_runtime :: "('fr, 'g1, 'g2, 'fs, 'fk) kzg_lib \<Rightarrow> ('fr, 'g1) Segment \<Rightarrow> RtSegment" where
  "segment_to_runtime L segment =
     \<lparr> rt_position = \<lparr> pos_x = pos_x (position segment), pos_y = pos_y (position segment) \<rparr>,
       rt_content = \<lparr> rt_proof = KZGCommitment_to_bytes L (sd_proof (content segment)),
                      rt_data = bls_scalars_to_runtime L (sd_data (content segment)) \<rparr> \<rparr>"

definition pre_cell_to_runtime :: "('fr, 'g1, 'g2, 'fs, 'fk) kzg_lib \<Rightarrow> ('fr, 'g1) PreCell \<Rightarrow> RtPreCell" where
  "pre_cell_to_runtime L pre_cell =
     \<lparr> rt_pre_seg =
         \<lparr> rt_position = \<lparr> pos_x = pos_x (position (pre_seg pre_cell)), pos_y = pos_y (position (pre_seg pre_cell)) \<rparr>,
           rt_content = \<lparr> rt_proof = KZGCommitment_to_bytes L (sd_proof (content (pre_seg pre_cell))),
                          rt_data = bls_scalars_to_runtime L (sd_data (content (pre_seg pre_cell))) \<rparr> \<rparr>,
       rt_pre_position = piece_position_to_runtime (pre_position pre_cell) \<rparr>"

definition cell_to_runtime :: "('fr, 'g1, 'g2, 'fs, 'fk) kzg_lib \<Rightarrow> ('fr, 'g1) Cell \<Rightarrow> RtCell" where
  "cell_to_runtime L cell =
     \<lparr> rt_piece_metadata = piece_metadata_to_runtime (pm_pos (cm_piece_metadata (cell_metadata cell)))
                             (pm_block_num (cm_piece_metadata (cell_metadata cell))),
       rt_offset = cm_offset (cell_metadata cell),
       rt_cell_seg =
         \<lparr> rt_position = \<lparr> pos_x = pos_x (position (cell_seg cell)), pos_y = pos_y (position (cell_seg cell)) \<rparr>,
           rt_content = \<lparr> rt_proof = KZGCommitment_to_bytes L (sd_proof (content (cell_seg cell))),
                          rt_data = bls_scalars_to_runtime L (sd_data (content (cell_seg cell))) \<rparr> \<rparr> \<rparr>"

definition sidecar_metadata_to_runtime :: "('fr, 'g1, 'g2, 'fs, 'fk) kzg_lib \<Rightarrow> 'g1 SidecarMetadata \<Rightarrow> bytes SidecarMetadata" where
  "sidecar_metadata_to_runtime L metadata =
     \<lparr> sm_app_id = sm_app_id metadata, sm_bytes_len = sm_bytes_len metadata, sm_nonce = sm_nonce metadata,
       sm_commitments = commitments_to_runtime L (sm_commitments metadata), sm_proofs = proofs_to_runtime L (sm_proofs metadata) \<rparr>"

text \<open>The random bytes are an argument.\<close>

definition sidecar_metadata ::
  "('fr, 'g1, 'g2, 'fs, 'fk) kzg_lib \<Rightarrow> bytes \<Rightarrow> bytes \<Rightarrow> u32 \<Rightarrow> u32 \<Rightarrow> ('g1 SidecarMetadata \<times> bytes) res" where
  "sidecar_metadata L settings random_bytes app_id nonce =
     (case try_from_app_data L settings random_bytes app_id nonce of
        Inr metadata \<Rightarrow> Inr (metadata, random_bytes)
      | Inl (Panic m) \<Rightarrow> Inl (Panic m)
      | Inl _ \<Rightarrow> Inl (Panic ''unwrap''))"

definition sidecar_metadata_runtime ::
  "('fr, 'g1, 'g2, 'fs, 'fk) kzg_lib \<Rightarrow> bytes \<Rightarrow> bytes \<Rightarrow> u32 \<Rightarrow> u32 \<Rightarrow> (bytes SidecarMetadata \<times> bytes) res" where
  "sidecar_metadata_runtime L settings random_bytes app_id nonce =
     res_map (\<lambda>(metadata, bs). (sidecar_metadata_to_runtime L metadata, bs)) (sidecar_metadata L settings random_bytes app_id nonce)"

definition hex_digit :: "nat \<Rightarrow> char" where
  "hex_digit n = (if n < 10 then char_of (48 + n) else char_of (87 + n))"

definition to_hex_string :: "bytes \<Rightarrow> string" where
  "to_hex_string bs = ''0x'' @ concat (map (\<lambda>b. [hex_digit (unat b div 16), hex_digit (unat b mod 16)]) bs)"

text \<open>\<open>create_signed\<close> is of subxt.\<close>

definition create_params ::
  "('fr, 'g1, 'g2, 'fs, 'fk) kzg_lib \<Rightarrow> (bytes SidecarMetadata \<Rightarrow> string + bytes) \<Rightarrow> bytes \<Rightarrow> 'g1 SidecarMetadata \<Rightarrow> string + string \<times> string" where
  "create_params L create_signed bs metadata =
     (case create_signed (sidecar_metadata_to_runtime L metadata) of
        Inl e \<Rightarrow> Inl e
      | Inr extrinsic \<Rightarrow> Inr (to_hex_string bs, to_hex_string extrinsic))"

text \<open>The next nonce of an application, read from the storage of the pallet under the number of the application; a missing entry is 0.\<close>

definition Client_nonce :: "('acc, 'g1, 'auth) Store \<Rightarrow> u32 \<Rightarrow> u32" where
  "Client_nonce s app_id = st_Nonces s app_id"

section \<open>The loops over headers\<close>

text \<open>The channel of messages has room for 100, and its receiver is held but never read: the send of the 101st message never completes. A loop
  ends with the subscription, or stays at such a send, or dies with a panic of a handler.\<close>

definition MESSAGE_CAPACITY :: nat where "MESSAGE_CAPACITY = 100"

datatype loop_end = Disconnected | Waiting | Died

datatype ('h, 'n) head = Head 'h 'n | HeadError

fun finalized_headers ::
  "('fr, 'g1, 'g2, 'fs, 'fk) kzg_lib \<Rightarrow> ('fr, 'g1, 'h, 'd) daser_codecs \<Rightarrow> 'n das_net \<Rightarrow> ('g1, 'g2, 'fs) KZG \<Rightarrow> 's DasKv
    \<Rightarrow> (('h, 'd) Header, 'n \<times> (nat \<times> nat) list) head list \<Rightarrow> ('h, 'd) Header list \<Rightarrow> 's \<Rightarrow> loop_end \<times> ('h, 'd) Header list \<times> 's" where
  "finalized_headers L D net kzg kv [] messages db = (Disconnected, messages, db)"
| "finalized_headers L D net kzg kv (HeadError # heads) messages db = finalized_headers L D net kzg kv heads messages db"
| "finalized_headers L D net kzg kv (Head header (n, draws) # heads) messages db =
     (if MESSAGE_CAPACITY \<le> length messages then (Waiting, messages, db)
      else case light_on_finalized L D net kzg n kv header draws db of
             None \<Rightarrow> (Died, messages @ [header], db)
           | Some db' \<Rightarrow> finalized_headers L D net kzg kv heads (messages @ [header]) db')"

text \<open>The farmer sends a message for a block with data only, and a claim for every solution.\<close>

fun event_handler_run ::
  "('fr, 'g1, 'g2, 'fs, 'fk) kzg_lib \<Rightarrow> ('fr, 'g1) pos_lib \<Rightarrow> ('fr, 'g1, 'h, 'd) daser_codecs \<Rightarrow> 'n das_net \<Rightarrow> ('g1, 'g2, 'fs) KZG \<Rightarrow> 's DasKv
    \<Rightarrow> FarmerId \<Rightarrow> (('h, 'd) Header, 'n) head list \<Rightarrow> ('h, 'd) Header list \<Rightarrow> (RtPreCell \<times> RtCell \<times> RtCell) list \<Rightarrow> 's
    \<Rightarrow> loop_end \<times> ('h, 'd) Header list \<times> (RtPreCell \<times> RtCell \<times> RtCell) list \<times> 's" where
  "event_handler_run L P D net kzg kv farmer_id [] messages claims db = (Disconnected, messages, claims, db)"
| "event_handler_run L P D net kzg kv farmer_id (HeadError # heads) messages claims db =
     event_handler_run L P D net kzg kv farmer_id heads messages claims db"
| "event_handler_run L P D net kzg kv farmer_id (Head header n # heads) messages claims db =
     (let rows_count = (case Header_col_num L header of Some c \<Rightarrow> c | None \<Rightarrow> 0) in
      if rows_count = 0 then event_handler_run L P D net kzg kv farmer_id heads messages claims db
      else if MESSAGE_CAPACITY \<le> length messages then (Waiting, messages, claims, db)
      else case farmer_on_header L P D net kzg kv farmer_id header n db of
             Inl _ \<Rightarrow> (Died, messages @ [header], claims, db)
           | Inr (solutions, db') \<Rightarrow>
               event_handler_run L P D net kzg kv farmer_id heads (messages @ [header])
                 (claims @ map (\<lambda>solution. (pre_cell_to_runtime L (sol_pre_cell solution), cell_to_runtime L (sol_win_cell_left solution),
                    cell_to_runtime L (sol_win_cell_right solution))) solutions) db')"

section \<open>Properties\<close>

fun headers_of :: "('h, 'n) head list \<Rightarrow> 'h list" where
  "headers_of [] = []"
| "headers_of (HeadError # heads) = headers_of heads"
| "headers_of (Head h n # heads) = h # headers_of heads"

definition has_data :: "('fr, 'g1, 'g2, 'fs, 'fk) kzg_lib \<Rightarrow> ('h, 'd) Header \<Rightarrow> bool" where
  "has_data L header \<longleftrightarrow> (case Header_col_num L header of Some c \<Rightarrow> c | None \<Rightarrow> 0) \<noteq> 0"

text \<open>How such a loop ends: \<open>received\<close> are the headers it should handle, \<open>messages\<close> those it handled.\<close>

definition loop_result :: "'h list \<Rightarrow> 'h list \<Rightarrow> loop_end \<Rightarrow> 'h list \<Rightarrow> bool" where
  "loop_result before received e messages \<longleftrightarrow>
     length messages \<le> MESSAGE_CAPACITY \<and> (\<exists>rest. before @ received = messages @ rest \<and> (e = Disconnected \<longrightarrow> rest = [])) \<and>
     (e = Waiting \<longrightarrow> length messages = MESSAGE_CAPACITY)"

lemma loop_result_step: "loop_result (before @ [h]) received e messages \<Longrightarrow> loop_result before (h # received) e messages"
  by (simp add: loop_result_def)

lemma loop_result_full: "length messages = MESSAGE_CAPACITY \<Longrightarrow> loop_result messages received Waiting messages"
  by (auto simp: loop_result_def)

lemma finalized_headers_result:
  "length messages \<le> MESSAGE_CAPACITY \<Longrightarrow> finalized_headers L D net kzg kv heads messages db = (e, messages', db') \<Longrightarrow>
     loop_result messages (headers_of heads) e messages' \<and>
     (e \<noteq> Disconnected \<longrightarrow> (\<forall>more. finalized_headers L D net kzg kv (heads @ more) messages db = (e, messages', db')))"
proof (induction L D net kzg kv heads messages db rule: finalized_headers.induct)
  case (3 L D net kzg kv header n draws heads messages db)
  show ?case
  proof (cases "MESSAGE_CAPACITY \<le> length messages")
    case True
    with 3 show ?thesis by (auto intro: loop_result_full)
  next
    case False
    show ?thesis
    proof (cases "light_on_finalized L D net kzg n kv header draws db")
      case None
      with False 3 show ?thesis by (auto simp: loop_result_def)
    next
      case (Some db1)
      with False "3.prems" "3.IH" [OF False Some] show ?thesis by (auto intro: loop_result_step)
    qed
  qed
qed (auto simp: loop_result_def)

lemma event_handler_result:
  "length messages \<le> MESSAGE_CAPACITY \<Longrightarrow>
     event_handler_run L P D net kzg kv farmer_id heads messages claims db = (e, messages', claims', db') \<Longrightarrow>
     loop_result messages (filter (has_data L) (headers_of heads)) e messages' \<and>
     (e \<noteq> Disconnected \<longrightarrow> (\<forall>more. event_handler_run L P D net kzg kv farmer_id (heads @ more) messages claims db = (e, messages', claims', db')))"
proof (induction L P D net kzg kv farmer_id heads messages claims db rule: event_handler_run.induct)
  case (3 L P D net kzg kv farmer_id header n heads messages claims db)
  show ?case
  proof (cases "has_data L header")
    case False
    with 3 show ?thesis by (auto simp: has_data_def Let_def)
  next
    case data: True
    then have rows: "(case Header_col_num L header of Some c \<Rightarrow> c | None \<Rightarrow> 0) \<noteq> 0" by (simp add: has_data_def)
    show ?thesis
    proof (cases "MESSAGE_CAPACITY \<le> length messages")
      case True
      with 3 data rows show ?thesis by (auto intro: loop_result_full)
    next
      case room: False
      show ?thesis
      proof (cases "farmer_on_header L P D net kzg kv farmer_id header n db")
        case (Inl f)
        with room 3 data rows show ?thesis by (auto simp: loop_result_def)
      next
        case (Inr r)
        obtain ss db1 where r: "r = (ss, db1)" by (cases r)
        with room data rows "3.prems" "3.IH"(2) [OF HOL.refl rows room Inr r [symmetric]] Inr show ?thesis by (auto intro: loop_result_step)
      qed
    qed
  qed
qed (auto simp: loop_result_def)

lemma finalized_headers_alive:
  "\<forall>header n draws. Head header (n, draws) \<in> set heads \<longrightarrow> (\<forall>db. light_on_finalized L D net kzg n kv header draws db \<noteq> None) \<Longrightarrow>
     fst (finalized_headers L D net kzg kv heads messages db) \<noteq> Died"
proof (induction L D net kzg kv heads messages db rule: finalized_headers.induct)
  case (3 L D net kzg kv header n draws heads messages db)
  obtain db1 where "light_on_finalized L D net kzg n kv header draws db = Some db1" using "3.prems" by fastforce
  with 3 show ?case by simp
qed simp_all

lemma event_handler_alive:
  "\<forall>header n. Head header n \<in> set heads \<longrightarrow> (\<forall>db f. farmer_on_header L P D net kzg kv farmer_id header n db \<noteq> Inl f) \<Longrightarrow>
     fst (event_handler_run L P D net kzg kv farmer_id heads messages claims db) \<noteq> Died"
proof (induction L P D net kzg kv farmer_id heads messages claims db rule: event_handler_run.induct)
  case (3 L P D net kzg kv farmer_id header n heads messages claims db)
  obtain ss db1 where "farmer_on_header L P D net kzg kv farmer_id header n db = Inr (ss, db1)"
    using "3.prems" by (metis list.set_intros(1) prod.exhaust sum.exhaust)
  with 3 show ?case by (simp add: Let_def)
qed simp_all

lemma loop_result_waiting:
  "loop_result [] received e messages \<Longrightarrow> MESSAGE_CAPACITY < length received \<Longrightarrow> e \<noteq> Died \<Longrightarrow> e = Waiting \<and> length messages = 100"
  by (cases e) (auto simp: loop_result_def MESSAGE_CAPACITY_def)

lemma loop_result_unfinished:
  "loop_result [] received e messages \<Longrightarrow> MESSAGE_CAPACITY < length received \<Longrightarrow> e \<noteq> Disconnected"
  by (auto simp: loop_result_def)

lemma loop_result_taken: "loop_result [] received e messages \<Longrightarrow> messages = take (length messages) received \<and> length messages \<le> 100"
  by (auto simp: loop_result_def MESSAGE_CAPACITY_def)

text \<open>C27: The light client handles at most one hundred headers and the farmer at most one hundred blocks with data. The channel of messages they send to holds a
  hundred and nobody reads it; the handled headers are the first ones received, up to a hundred; once more have come in, the loop has not
  ended with the subscription but stays at a send (or died in a handler), and whatever headers follow change neither the database
  nor, for the farmer, the claims; if the samplings of the received headers return without a panic whatever the database holds, the light client stays at the send with a hundred
  headers handled, and so does the farmer if its handling of the received headers does not panic.\<close>

theorem clients_stop_after_100_messages:
  assumes "finalized_headers L D net kzg kv heads [] db = (e, messages, db')"
    and "event_handler_run L P D net kzg kv farmer_id fheads [] [] fdb = (fe, fmessages, claims, fdb')"
    and "100 < length (headers_of heads)" and "100 < length (filter (has_data L) (headers_of fheads))"
  shows "messages = take (length messages) (headers_of heads) \<and> length messages \<le> 100 \<and> e \<noteq> Disconnected \<and>
     (\<forall>more. finalized_headers L D net kzg kv (heads @ more) [] db = (e, messages, db')) \<and>
     ((\<forall>header n draws. Head header (n, draws) \<in> set heads \<longrightarrow> (\<forall>db. light_on_finalized L D net kzg n kv header draws db \<noteq> None)) \<longrightarrow>
        e = Waiting \<and> length messages = 100) \<and>
     fmessages = take (length fmessages) (filter (has_data L) (headers_of fheads)) \<and> length fmessages \<le> 100 \<and> fe \<noteq> Disconnected \<and>
     (\<forall>more. event_handler_run L P D net kzg kv farmer_id (fheads @ more) [] [] fdb = (fe, fmessages, claims, fdb')) \<and>
     ((\<forall>header n. Head header n \<in> set fheads \<longrightarrow> (\<forall>db f. farmer_on_header L P D net kzg kv farmer_id header n db \<noteq> Inl f)) \<longrightarrow>
        fe = Waiting \<and> length fmessages = 100)"
proof -
  have cap: "MESSAGE_CAPACITY = 100" by (simp add: MESSAGE_CAPACITY_def)
  from finalized_headers_result [OF _ assms(1)] have l: "loop_result [] (headers_of heads) e messages"
      "e \<noteq> Disconnected \<longrightarrow> (\<forall>more. finalized_headers L D net kzg kv (heads @ more) [] db = (e, messages, db'))" by simp_all
  from event_handler_result [OF _ assms(2)] have f: "loop_result [] (filter (has_data L) (headers_of fheads)) fe fmessages"
      "fe \<noteq> Disconnected \<longrightarrow> (\<forall>more. event_handler_run L P D net kzg kv farmer_id (fheads @ more) [] [] fdb = (fe, fmessages, claims, fdb'))"
    by simp_all
  have ends: "e \<noteq> Disconnected" "fe \<noteq> Disconnected"
    using loop_result_unfinished [OF l(1)] loop_result_unfinished [OF f(1)] assms(3,4) cap by simp_all
  have waiting: "e = Waiting \<and> length messages = 100"
    if "\<forall>header n draws. Head header (n, draws) \<in> set heads \<longrightarrow> (\<forall>db. light_on_finalized L D net kzg n kv header draws db \<noteq> None)"
    using loop_result_waiting [OF l(1)] finalized_headers_alive [OF that, of "[]" db] assms(1,3) cap by simp
  have fwaiting: "fe = Waiting \<and> length fmessages = 100"
    if "\<forall>header n. Head header n \<in> set fheads \<longrightarrow> (\<forall>db f. farmer_on_header L P D net kzg kv farmer_id header n db \<noteq> Inl f)"
    using loop_result_waiting [OF f(1)] event_handler_alive [OF that, of "[]" "[]" fdb] assms(2,4) cap by simp
  show ?thesis using loop_result_taken [OF l(1)] loop_result_taken [OF f(1)] ends l(2) f(2) waiting fwaiting by blast
qed

text \<open>An instance: 101 blocks of four rows, nothing in the network, and a farmer for whose number the hash of these blocks selects no index.\<close>

lemma headers_of_replicate: "headers_of (replicate k (Head h n)) = replicate k h"
  by (induction k) simp_all

lemma four_rows_data: "has_data (doubling_lib sample_lib) four_rows"
proof -
  have "g1_roundtrip (doubling_lib sample_lib) (map (\<lambda>i. [replicate 48 i]) [1, 2, 3, 4])"
    by (simp add: g1_roundtrip_def doubling_lib_def sample_lib_def resize_def)
  from finalize_header_fields [OF this, of "Header_new 1 [] [] [] [] :: (bytes, nat list) Header" "[\<lparr> al_app_id = 1, al_nonce = 1, al_count = 4 \<rparr>]"]
  show ?thesis by (simp add: has_data_def four_rows_def Let_def)
qed

lemma four_rows_light:
  "light_on_finalized (doubling_lib sample_lib) sample_codecs map_net (sample_kzg 4096) Map.empty MockDb_kv four_rows (map (\<lambda>x. (x, 2)) [0..<8]) db \<noteq> None"
  using four_rows_sampled [of db] by (auto simp: light_on_finalized_def logged_def)

lemma select_indices_zero: "select_indices (replicate 32 0) start end_index (Suc 0) = []"
proof -
  have "\<not> hash_to_bitvec (replicate 32 0) ! i" if "i < 256" for i
    using that nth_hash_to_bitvec [of i "replicate 32 0"] by (auto simp: hash_bit_def)
  then show ?thesis by (simp add: select_indices_def length_hash_to_bitvec Let_def)
qed

lemma four_rows_farmer:
  "\<exists>r. farmer_on_header (doubling_lib sample_lib) sample_pos_lib sample_codecs map_net (sample_kzg 4096) MockDb_kv (FarmerId (replicate 32 1)) four_rows Map.empty db = Inr r"
proof -
  let ?L = "doubling_lib sample_lib"
  have none: "Solution_select_indices (FarmerId (replicate 32 1)) (header_hash_bytes sample_codecs four_rows) k (Suc 0) = Inr []" for k
  proof -
    have "hdr_number four_rows = 1"
      by (simp add: four_rows_def SystemExt_finalize_def Header_new_ext_def Header_set_extension_def Header_new_def Let_def)
    then have "xor_byte_slices (replicate 32 1) (header_hash_bytes sample_codecs four_rows) = replicate 32 0"
      by (simp add: sample_codecs_def xor_byte_slices_def numeral_eq_Suc)
    then show ?thesis by (simp add: Solution_select_indices_def Let_def select_indices_zero)
  qed
  obtain out where out: "extend_and_reorder_elements ?L (KZG_get_fs (sample_kzg 4096)) (map (\<lambda>i. [replicate 48 i]) [1, 2, 3, 4 :: u8]) = Inr out"
    using extend_and_reorder_originals_first [OF doubling_lib_documented [of sample_lib "KZG_get_fs (sample_kzg 4096)"],
        where els = "map (\<lambda>i. [replicate 48 i]) [1, 2, 3, 4 :: u8]"] by auto
  have net: "net_get_values map_net Map.empty [] = Inr []" by (simp add: map_net_def service_net_def)
  have "fetch_rows ?L sample_codecs map_net (sample_kzg 4096) Map.empty four_rows [] = Inr ([], True)"
      "fetch_cols ?L sample_codecs map_net (sample_kzg 4096) Map.empty four_rows [] = Inr ([], [], False)"
    by (simp_all add: fetch_rows_def fetch_cols_def header_rows_or_def four_rows_commitments out [simplified] net of_net_def ok_or_def
        prepare_rows_keys_def prepare_cols_keys_def rows_values_set_handler_def cols_values_set_handler_def)
  then show ?thesis
    by (simp add: farmer_on_header_def none Let_def process_segments_def chunks.simps)
qed

theorem clients_stop_after_100_messages_witness:
  "let light = finalized_headers (doubling_lib sample_lib) sample_codecs map_net (sample_kzg 4096) MockDb_kv;
       farmer = event_handler_run (doubling_lib sample_lib) sample_pos_lib sample_codecs map_net (sample_kzg 4096) MockDb_kv (FarmerId (replicate 32 1));
       heads = replicate 101 (Head four_rows (Map.empty, map (\<lambda>x. (x, 2)) [0..<8]));
       fheads = replicate 101 (Head four_rows Map.empty)
   in fst (light heads [] MockDb_new) = Waiting \<and> fst (snd (light heads [] MockDb_new)) = replicate 100 four_rows \<and>
      fst (farmer fheads [] [] MockDb_new) = Waiting \<and> fst (snd (farmer fheads [] [] MockDb_new)) = replicate 100 four_rows"
proof -
  let ?L = "doubling_lib sample_lib"
  let ?heads = "replicate 101 (Head four_rows (Map.empty, map (\<lambda>x. (x, 2)) [0..<8])) :: ((bytes, nat list) Header, (bytes \<rightharpoonup> bytes) \<times> (nat \<times> nat) list) head list"
  let ?fheads = "replicate 101 (Head four_rows Map.empty) :: ((bytes, nat list) Header, bytes \<rightharpoonup> bytes) head list"
  obtain e ms db where l: "finalized_headers ?L sample_codecs map_net (sample_kzg 4096) MockDb_kv ?heads [] MockDb_new = (e, ms, db)"
    by (metis prod.exhaust)
  obtain fe fms claims fdb where f: "event_handler_run ?L sample_pos_lib sample_codecs map_net (sample_kzg 4096) MockDb_kv (FarmerId (replicate 32 1)) ?fheads [] [] MockDb_new =
      (fe, fms, claims, fdb)" by (metis prod.exhaust)
  have all: "filter (has_data ?L) (headers_of ?fheads) = replicate 101 four_rows" "headers_of ?heads = replicate 101 four_rows"
    unfolding headers_of_replicate using four_rows_data by simp_all
  then have "100 < length (headers_of ?heads)" "100 < length (filter (has_data ?L) (headers_of ?fheads))" by simp_all
  note stop = clients_stop_after_100_messages [OF l f this, unfolded all]
  have "\<forall>header n draws. Head header (n, draws) \<in> set ?heads \<longrightarrow>
      (\<forall>db. light_on_finalized ?L sample_codecs map_net (sample_kzg 4096) n MockDb_kv header draws db \<noteq> None)"
    using four_rows_light by auto
  moreover have "\<forall>header n. Head header n \<in> set ?fheads \<longrightarrow> (\<forall>db f.
      farmer_on_header ?L sample_pos_lib sample_codecs map_net (sample_kzg 4096) MockDb_kv (FarmerId (replicate 32 1)) header n db \<noteq> Inl f)"
    using four_rows_farmer by (metis Inr_Inl_False head.inject(1) in_set_replicate)
  ultimately have "e = Waiting \<and> length ms = 100" "ms = take (length ms) (replicate 101 four_rows)"
      "fe = Waiting \<and> length fms = 100" "fms = take (length fms) (replicate 101 four_rows)"
    using stop by blast+
  then have "e = Waiting" "ms = take 100 (replicate 101 four_rows)" "fe = Waiting" "fms = take 100 (replicate 101 four_rows)" by metis+
  then show ?thesis unfolding Let_def using l f by simp
qed

text \<open>What the chain decodes from the converted cells is what the farmer found, and metadata keep their numbers.\<close>

definition segment_from_runtime :: "('fr, 'g1, 'g2, 'fs, 'fk) kzg_lib \<Rightarrow> RtSegment \<Rightarrow> ('fr, 'g1) Segment res" where
  "segment_from_runtime L seg =
     res_bind (KZGCommitment_try_from_bytes L (rt_proof (rt_content seg))) (\<lambda>proof.
     res_map (\<lambda>dat. \<lparr> position = rt_position seg, content = \<lparr> sd_data = dat, sd_proof = proof \<rparr> \<rparr>)
       (traverse (BlsScalar_try_from_bytes L) (rt_data (rt_content seg))))"

lemma segment_runtime_roundtrip:
  assumes "g1_roundtrip L [sd_proof (content seg)]" and "\<And>x. x \<in> set (sd_data (content seg)) \<Longrightarrow> BlsScalar_try_from_bytes L (BlsScalar_to_bytes L x) = Inr x"
  shows "segment_from_runtime L (segment_to_runtime L seg) = Inr seg"
proof -
  have "traverse (BlsScalar_try_from_bytes L) (map (BlsScalar_to_bytes L) (sd_data (content seg))) = Inr (sd_data (content seg))"
    using assms(2) by (simp add: traverse_Inr_iff)
  then show ?thesis using assms(1)
    by (cases seg, cases "position seg", cases "content seg")
      (auto simp: segment_from_runtime_def segment_to_runtime_def bls_scalars_to_runtime_def g1_roundtrip_def KZGCommitment_to_bytes_def
        KZGCommitment_try_from_bytes_def)
qed

lemma cells_to_runtime_segments:
  "rt_pre_seg (pre_cell_to_runtime L pre) = segment_to_runtime L (pre_seg pre)"
  "rt_cell_seg (cell_to_runtime L cell) = segment_to_runtime L (cell_seg cell)"
  by (simp_all add: pre_cell_to_runtime_def cell_to_runtime_def segment_to_runtime_def)

text \<open>C28: An application that is not the last one registered submits once through the client library, and then no more until another one is registered. The library asks for the
  nonce under the number of the application and sends the next one, while the pallet counts under the last registered number: after an
  accepted submission the library reads the same nonce as before, and whatever it submits with it next for this application is refused and
  changes nothing.\<close>

theorem older_app_submits_once:
  assumes "submit_ok cfg p s" and "sm_app_id p < st_AppId s" and "sm_nonce p = Client_nonce s (sm_app_id p) + 1" and "sm_nonce p < - 1"
    and "s1 = snd (dispatch (submit_data cfg (Signed who) p) s)"
    and "sm_app_id p' = sm_app_id p" and "sm_nonce p' = Client_nonce s1 (sm_app_id p') + 1"
  shows "dispatch (submit_data cfg (Signed who) p) s = (Inr (), submitted who p s) \<and>
     Client_nonce s1 (sm_app_id p) = Client_nonce s (sm_app_id p) \<and>
     (\<forall>orig. \<exists>e. dispatch (submit_data cfg orig p') s1 = (Inl e, s1))"
proof -
  have s1: "dispatch (submit_data cfg (Signed who) p) s = (Inr (), submitted who p s)" "s1 = submitted who p s"
    using assms(1,5) by (simp_all add: dispatch_def submit_data_eq)
  have same: "Client_nonce s1 (sm_app_id p) = Client_nonce s (sm_app_id p)" and stored: "st_Nonces s1 (st_AppId s1) = sm_nonce p"
    using assms(2) s1(2) by (auto simp: Client_nonce_def submitted_def Let_def)
  have nonce: "sm_nonce p' = sm_nonce p" using assms(3,6,7) same by simp
  have "u32_saturating_add (sm_nonce p) 1 \<noteq> sm_nonce p" using assms(4) by (auto simp: u32_saturating_add_def)
  then have refused: "\<not> submit_ok cfg p' s1" using stored nonce by (auto simp: submit_ok_def)
  have "\<exists>e. dispatch (submit_data cfg orig p') s1 = (Inl e, s1)" for orig
  proof (cases "submit_data cfg orig p' s1")
    case (Pair x t)
    with refused show ?thesis by (cases x) (auto simp: dispatch_def elim: submit_data_Inr)
  qed
  with s1(1) same show ?thesis by blast
qed

text \<open>Two applications are registered, and the first one submits.\<close>

theorem older_app_submits_once_witness:
  "let s = (genesis_store [] :: (nat, nat, nat) Store)\<lparr> st_AppId := 2 \<rparr>;
       s1 = snd (dispatch (submit_data sample_config (Signed 7) (sample_params 1 1 [5, 6])) s)
   in Client_nonce s1 1 = 0 \<and> (\<exists>e. dispatch (submit_data sample_config (Signed 7) (sample_params 1 1 [5])) s1 = (Inl e, s1))"
proof -
  let ?s = "(genesis_store [] :: (nat, nat, nat) Store)\<lparr> st_AppId := 2 \<rparr>"
  let ?s1 = "snd (dispatch (submit_data sample_config (Signed 7) (sample_params 1 1 [5, 6])) ?s)"
  have ok: "submit_ok sample_config (sample_params 1 1 [5, 6]) ?s"
    by (rule submit_ok_sample) (simp_all add: genesis_store_def u32_saturating_add_def)
  have "sm_app_id (sample_params 1 1 [5, 6]) < st_AppId ?s" "sm_nonce (sample_params 1 1 [5, 6]) = Client_nonce ?s (sm_app_id (sample_params 1 1 [5, 6])) + 1"
      "sm_nonce (sample_params 1 1 [5, 6]) < - 1" "sm_app_id (sample_params 1 1 [5]) = sm_app_id (sample_params 1 1 [5, 6])"
    by (simp_all add: sample_params_def Client_nonce_def genesis_store_def) (simp flip: word_order.not_eq_extremum)
  moreover have "Client_nonce ?s1 1 = 0"
    by (simp add: dispatch_def submit_data_eq [OF ok] submitted_def Let_def Client_nonce_def) (simp add: genesis_store_def)
  then have "sm_nonce (sample_params 1 1 [5]) = Client_nonce ?s1 (sm_app_id (sample_params 1 1 [5])) + 1" by (simp add: sample_params_def)
  ultimately show ?thesis using older_app_submits_once [OF ok _ _ _ HOL.refl, where who = 7 and p' = "sample_params 1 1 [5]"] \<open>Client_nonce ?s1 1 = 0\<close>
    unfolding Let_def by blast
qed

end
