(* ===== verification/Spec2Isabelle.thy ===== *)
theory Spec2Isabelle
  imports Store_Offchain Fortune_Props Executive Service_Props Clients Chain_Spec Client_Loops
begin

text \<open>
  A verification library for Melodot, a data-availability layer built on Substrate.

  \<^bold>\<open>The program.\<close> An application registers with the chain and submits data in two halves: the metadata (KZG commitments and proofs,
  one for each blob of 2048 field elements) go into a transaction, the data themselves, extended to twice their length and cut into
  segments of 16 elements, into a DHT. Authorities sample the DHT and report the submissions whose data they cannot find; a submission
  that a majority reports is marked unavailable. One block later the commitments of the available submissions enter the header, together with
  a table that maps rows to applications. Nodes extend the columns of the resulting matrix, light clients sample it, and farmers
  store parts of it and are paid for solutions of a proof of space.

  \<^bold>\<open>Theories and sources\<close> (paths are below \<open>src/crates\<close> where no other directory is named).
  \<^item> \<open>Prelude\<close>: integers at their Rust widths (\<open>u8\<close> to \<open>u64\<close> are words, \<open>usize\<close> is \<open>nat\<close>), results (\<open>'a res\<close>, whose errors are
    messages, formatted messages and panics), the slice and iterator operations of the Rust library.
  \<^item> \<open>Das_Db\<close> (das-db): the trait \<open>DasKv\<close> as a record of operations and as the locale \<open>das_kv\<close> of its laws, interpreted on the in-memory store
    and on the SQLite store over a connection with documented statements.
  \<^item> \<open>Crypto\<close>, \<open>Blob\<close> (das-primitives): scalars, commitments, the setup and its embedding, polynomials, positions, blobs, segments. The
    arithmetic of BLS12-381, the transforms and FK20 are the record \<open>kzg_lib\<close>, always called \<open>L\<close>.
  \<^item> \<open>Erasure\<close>, \<open>Extend_Col\<close> (melo-erasure-coding): bytes to blobs to rows of segments, recovery of a row, extension of columns.
  \<^item> \<open>Header_Ext\<close> (core-primitives header and config, frame-system-ext): the extended header, its lookup table, finalisation.
  \<^item> \<open>Reliability\<close>, \<open>Sidecar\<close> (core-primitives): sampling records and confidence; metadata made from data, and their verification.
  \<^item> \<open>Melo_Store\<close> (pallet-melo-store): the storage as the record \<open>Store\<close>, each call as a function from a store to a result and a store.
    \<open>Store_Votes\<close> and \<open>Store_Props\<close> hold its properties, \<open>Store_Machine\<close> the step relation of all calls, hooks and session changes, and
    \<open>Store_Offchain\<close> the worker that sends the reports with its lock.
  \<^item> \<open>Pos_Utils\<close>, \<open>Proof_Of_Space\<close>, \<open>Space_Props\<close> (proof-of-space): readings of a hash, pieces, cells, tables, solutions.
  \<^item> \<open>Farmers_Fortune\<close>, \<open>Fortune_Props\<close> (pallet-farmers-fortune): the call \<open>claim\<close>; the locale \<open>commitment_provider\<close> is what it needs of the
    store, interpreted on \<open>Melo_Store\<close>.
  \<^item> \<open>Executive\<close> (frame-executive-ext): authoring, import and validation over a record \<open>runtime\<close> of the functions of FRAME and of the pallets.
  \<^item> \<open>Das_Network\<close> (das-network): the worker as the record \<open>DasNetwork\<close> with one function for each handler of a command or an event of the swarm,
    and the service, whose requests are commands with a reply channel of their own. \<open>Network_Props\<close> holds the reachable workers and their
    invariant, \<open>Service_Props\<close> what the service answers. The swarm of libp2p is the record \<open>swarm_lib\<close>, always called \<open>K\<close>.
  \<^item> \<open>Daser\<close>, \<open>Daser_Props\<close> (daser): network operations, the sampling client and the listener's three handlers. They call the network through
    the record \<open>das_net\<close>; \<open>service_net\<close> makes it from the service and a hash table \<open>kad_dht\<close> on an abstract state.
  \<^item> \<open>Clients\<close> (das-rpc, \<open>src/farmer\<close>, \<open>src/light\<close>, runtime APIs of \<open>src/runtime/src/lib.rs\<close>): the RPC services and the handling of
    one header by a farmer and by a light client. \<open>Client_Loops\<close> adds their command lines and loops over headers, and the client library meloxt.
  \<^item> \<open>Runtime_Assembly\<close> (\<open>src/runtime\<close>, auto-config): constants, the composition of the pallets, the session handlers and the chain they make of the
    store pallet. \<open>Chain_Spec\<close> (\<open>src/node/src/chain_spec.rs\<close>, \<open>command.rs\<close>): the genesis configurations.

  \<^bold>\<open>Interfaces.\<close> Code outside the sources is an argument of the definitions. What is relied on is a predicate whose name ends in
  \<open>_documented\<close>, \<open>_total\<close>, \<open>_complete\<close>, \<open>_succeed\<close> or \<open>_valid\<close> (a transform and its inverse agree, an honest proof verifies, a codec decodes
  what it encoded, a query has a new number, a hash table finds what was put last). Concrete instances, such as \<open>sample_lib\<close>,
  \<open>doubling_lib\<close>, \<open>counting_swarm\<close>, \<open>map_dht\<close>, \<open>path_keys\<close> and \<open>demo_runtime\<close>, satisfy them in the witnesses.

  \<^bold>\<open>What is shown.\<close>
  \<^item> Data survive: half of the segments of a row give back the row and the bytes (C1, C2), metadata made from data verify (C19), an
    extended column is the extension of its rows (C20), roots of unity are chosen without collision (C21).
  \<^item> The store: well-formedness in every reachable state (C4), the effect and every error of a submission (C5), atomic reports and the exact
    majority (C3), submissions that only grow and settle (C6), lookup entries that locate their commitments (C7), and reports of the
    worker that the pallet accepts, sent once (C12, C13).
  \<^item> Blocks: what an author builds every node imports, if its inherents come first (C9), and a header fixes the rows of its parent for good (C8). The genesis of every
    chain specification is consistent (C24).
  \<^item> Rewards: bounded for each block whatever else the chain mints, at most one for an account, and only for verified solutions (C10, C11).
  \<^item> The network: no request to the worker is lost or answered twice (C17), and the service answers what the hash table holds (C18).
  \<^item> Clients: an honest submission whose puts succeed is published whole, a status without error implies that the data match the
    metadata, and published segments are fetched (C14, C15, C16); sampling ends with distinct positions (C22); the SQLite store refines a map (C23).
  \<^item> Where the code departs from its intent (C25 to C40): a runtime whose reports all fail, failed publications reported as successes, clients that stop
    after a hundred messages, an application that submits once, votes after a disabled authority, the bound on voters, the nonce of another
    application, rows that move with a cache, mirrored bit readings, swapped pairs, unchecked metadata, an unchecked header extension,
    sampling that never advances, samples of other rows, and two panics.

  \<^bold>\<open>Bounds.\<close> Recursion is structural or has a termination proof, and there is no fuel. The random positions of \<open>set_sample\<close> are an argument, the
  list of draws; the result is \<open>None\<close> when they run out before enough distinct positions came up, which stands for a loop that still
  draws, and C22 says when they suffice. Additions on \<open>u32\<close> wrap as in a release build; where the code converts between \<open>u32\<close> and \<open>usize\<close> a theorem
  states the bound it needs. Concurrency is the order of the events: the tasks of the listener complete in any order given as an
  argument, the worker takes commands and events in any order given as a list, and the network may change between two steps. A request that
  has no outcome yet, and a loop that waits at a full channel, are values of their own (\<open>None\<close>, \<open>Waiting\<close>).

  \<^bold>\<open>What is not modelled.\<close> The swarm, transport and behaviour of libp2p, the services of a node and its RPC modules, the subxt client with its generated
  bindings (but for the types of segments and claims), the configurations of the FRAME pallets, loggers, weights, benchmarks and tests: they
  are input and output, library code, generated code or configuration. Subscribing to headers and waiting for a transaction are the
  arguments of the loops.
\<close>

section \<open>The submissions and the headers\<close>

lemma commit_list_on_finalize: "commit_list_last (on_finalize clear cfg n s) = commit_list_last s"
  by (simp add: commit_list_last_def on_finalize_def get_commitments_and_app_lookups_def iter_metadata_def Let_def)

lemma commit_list_of_parent:
  assumes "DELAY_CHECK_THRESHOLD < st_block_number s"
  shows "commit_list_last s = (get_commitments (st_block_number s - 1) s, map app_lookup_of (iter_metadata (st_block_number s - 1) s))"
proof -
  have "\<not> st_block_number s \<le> DELAY_CHECK_THRESHOLD" using assms by simp
  then have "commit_list_last s = get_commitments_and_app_lookups (st_block_number s - DELAY_CHECK_THRESHOLD) s"
    unfolding commit_list_last_def Let_def by (rule if_not_P)
  then show ?thesis by (simp add: commitments_and_lookups DELAY_CHECK_THRESHOLD_def)
qed

lemma settled_after_next_block:
  assumes "store_steps clear L kzg cfg pm (next_block clear cfg s) later"
    and "DELAY_CHECK_THRESHOLD < st_block_number s" and "st_block_number s < - 1"
  shows "st_Metadata later (st_block_number s - 1) = st_Metadata s (st_block_number s - 1)"
proof -
  have n: "st_block_number (next_block clear cfg s) = st_block_number s + 1"
    and m: "st_Metadata (next_block clear cfg s) = st_Metadata s"
    by (simp_all add: next_block_def on_finalize_def Let_def)
  have "0 < st_block_number s" using assms(2) by (auto simp: DELAY_CHECK_THRESHOLD_def word_less_nat_alt)
  then have "unat (st_block_number s - 1) + 1 = unat (st_block_number s)" by (simp add: unat_minus_one word_gt_0 unat_gt_0)
  also have "\<dots> < unat (st_block_number (next_block clear cfg s))" using assms(3) by (simp add: n unat_succ)
  finally show ?thesis using settled_steps [OF assms(1)] m by simp
qed

text \<open>C8: A header fixes the data of its parent for good. When the runtime takes its commit list from the submissions' pallet, the header it
  finalises in block n carries exactly the commitments of the available submissions of block n - 1, as every later state of
  the pallet, after any calls, votes and blocks, still answers them; its lookup table attributes a row exactly when the row
  is one of them, to an application whose available submission has the commitment of that row at the offset it names.\<close>

theorem header_fixes_settled_rows:
  assumes "clear_documented clear" and "rows_bounded cfg" and "store_steps clear L kzg cfg pm (genesis_store keys) s"
    and "DELAY_CHECK_THRESHOLD < st_block_number s" and "st_block_number s < - 1"
    and "\<And>rs. runtime_commit_list_last R rs = commit_list_last (store rs)"
    and "finalize_block L R rs = (H, rs')" and "store rs' = on_finalize clear cfg (st_block_number s) s"
    and "g1_roundtrip L (get_commitments (st_block_number s - 1) s)"
    and "store_steps clear L kzg cfg pm (next_block clear cfg s) later"
  shows "let b = st_block_number s - 1; rows = get_commitments b later in
     Header_commitments L H = Some rows \<and>
     (\<forall>y. case HeaderExtension_get_lookup (hdr_extension H) y of
        None \<Rightarrow> length rows \<le> unat y
      | Some (l, off) \<Rightarrow> \<exists>m\<in>set (st_Metadata later b). bm_is_available m \<and> al_app_id l = bm_app_id m \<and> al_nonce l = bm_nonce m \<and>
          unat y < length rows \<and> unat off < length (bm_commitments m) \<and> rows ! unat y = bm_commitments m ! unat off)"
proof -
  let ?b = "st_block_number s - 1"
  have inv: "metadata_inv cfg s" using store_inv_steps [OF assms(3) store_inv_genesis assms(1)] by (simp add: store_inv_def)
  obtain base where H: "H = SystemExt_finalize L base (commit_list_last (store rs'))"
    using assms(6,7) by (auto simp: finalize_block_def ext_finalize_def Let_def split: prod.splits)
  note last_s = commit_list_of_parent [OF assms(4)]
  have H: "H = SystemExt_finalize L base (commit_list_last s)" using H assms(8) by (simp add: commit_list_on_finalize)
  have good: "commit_list_good (cfg, s)" using inv assms(2) by (simp add: commit_list_good_def)
  have "g1_roundtrip L (fst (commit_list_last s))" using assms(9) last_s by simp
  note rows = commit_list.header_rows [OF good, unfolded snd_conv, OF this, of base, folded H, unfolded Let_def last_s fst_conv snd_conv]
  have meta: "st_Metadata later ?b = st_Metadata s ?b" by (rule settled_after_next_block [OF assms(10,4,5)])
  have same: "get_commitments ?b later = get_commitments ?b s" by (rule get_commitments_cong [OF meta])
  have "case HeaderExtension_get_lookup (hdr_extension H) y of
        None \<Rightarrow> length (get_commitments ?b s) \<le> unat y
      | Some (l, off) \<Rightarrow> \<exists>m\<in>set (st_Metadata s ?b). bm_is_available m \<and> al_app_id l = bm_app_id m \<and> al_nonce l = bm_nonce m \<and>
          unat y < length (get_commitments ?b s) \<and> unat off < length (bm_commitments m) \<and>
          get_commitments ?b s ! unat y = bm_commitments m ! unat off" for y
  proof (cases "HeaderExtension_get_lookup (hdr_extension H) y")
    case None
    with rows have "length (get_commitments ?b s) \<le> unat y" by blast
    then show ?thesis unfolding None by simp
  next
    case (Some p)
    obtain l off where p: "p = (l, off)" by (cases p)
    from Some rows have "AppLookup_get_lookup (map app_lookup_of (iter_metadata ?b s)) y = Some (l, off)"
      by (simp add: HeaderExtension_get_lookup_def p)
    from located_commitment [OF inv assms(2) this] show ?thesis
      unfolding Some p option.case prod.case by (fastforce simp: app_lookup_of_def iter_metadata_def)
  qed
  then show ?thesis unfolding Let_def same meta using rows by blast
qed

text \<open>An instance: one submission of one row in block 1, whose commitment the header of block 2 carries.\<close>

definition demo_params :: "bytes list SidecarMetadata" where
  "demo_params = \<lparr> sm_app_id = 0, sm_bytes_len = 31, sm_nonce = 1, sm_commitments = [[replicate 48 5]], sm_proofs = [[]] \<rparr>"

definition demo_store :: "(nat, bytes list, nat) Store" where
  "demo_store = next_block sample_clear sample_config (submitted 7 demo_params (next_block sample_clear sample_config (genesis_store [10, 11])))"

lemma demo_store_fields: "st_block_number demo_store = 2" "st_Metadata demo_store 1 = [submitted_metadata 7 demo_params]"
  by (simp_all add: demo_store_def next_block_def on_finalize_def submitted_def genesis_store_def DELAY_CHECK_THRESHOLD_def Let_def)

lemma demo_store_reachable: "store_steps sample_clear sample_lib (sample_kzg 4096) sample_config sample_permill (genesis_store [10, 11]) demo_store"
proof -
  let ?g = "genesis_store [10, 11] :: (nat, bytes list, nat) Store"
  have "submit_ok sample_config demo_params (next_block sample_clear sample_config ?g)"
    by (simp add: submit_ok_def demo_params_def sample_config_def SidecarMetadata_check_def BYTES_PER_BLOB_def
        FIELD_ELEMENTS_PER_BLOB_def BYTES_PER_FIELD_ELEMENT_def next_block_def on_finalize_def genesis_store_def u32_saturating_add_def
        DELAY_CHECK_THRESHOLD_def)
  note sub = submit_step [OF this, where who = 7]
  have b0: "st_block_number ?g < - 1" by (simp add: genesis_store_def word_gt_0)
  have b1: "st_block_number (submitted 7 demo_params (next_block sample_clear sample_config ?g)) < - 1"
    by (simp add: submitted_def next_block_def on_finalize_def genesis_store_def DELAY_CHECK_THRESHOLD_def Let_def
        word_less_nat_alt unsigned_minus_1_eq_mask mask_eq_exp_minus_1)
  show ?thesis unfolding demo_store_def
    by (rule store_steps.trans [OF store_steps.trans [OF store_steps.trans [OF store_steps.refl store_step.end_block [OF b0]] sub]
          store_step.end_block [OF b1]])
qed

theorem header_fixes_settled_rows_witness:
  "let R = demo_runtime (\<lambda>_ st. st) (\<lambda>_. 0) commit_list_last; st = on_finalize sample_clear sample_config 2 demo_store;
       H = fst (finalize_block sample_lib R ((2, 1, []), \<lambda>_. 0, st))
   in Header_commitments sample_lib H = Some [[replicate 48 5]] \<and> HeaderExtension_get_lookup (hdr_extension H) 0 \<noteq> None"
proof -
  let ?R = "demo_runtime (\<lambda>_ st. st) (\<lambda>_. 0) commit_list_last"
    and ?st = "on_finalize sample_clear sample_config 2 demo_store"
  let ?rs = "((2 :: u32, 1 :: nat, [] :: nat list), \<lambda>_ :: u32. 0 :: nat, ?st)"
  obtain H rs' where fin: "finalize_block sample_lib ?R ?rs = (H, rs')"
    by (cases "finalize_block sample_lib ?R ?rs")
  then have rs': "rs' = ?rs" by (simp add: demo_finalize)
  have rows: "get_commitments 1 demo_store = [[replicate 48 5]]"
    by (simp add: get_commitments_def iter_metadata_def demo_store_fields submitted_metadata_def demo_params_def)
  have later: "get_commitments 1 (next_block sample_clear sample_config demo_store) = [[replicate 48 5]]"
    using rows by (simp add: get_commitments_def iter_metadata_def next_block_def on_finalize_def Let_def)
  have trip: "g1_roundtrip sample_lib [[replicate 48 5]]"
    by (simp add: g1_roundtrip_def sample_lib_def resize_def)
  have bounded: "rows_bounded sample_config" by (simp add: rows_bounded_def sample_config_def)
  have "(2 :: u32) < - 1" by (simp add: word_less_nat_alt unsigned_minus_1_eq_mask mask_eq_exp_minus_1)
  note fixed = header_fixes_settled_rows [where R = ?R and store = "\<lambda>rs. snd (snd rs)" and rs = ?rs and rs' = rs' and H = H,
      OF sample_clear_documented bounded demo_store_reachable _ _ _ fin _ _ store_steps.refl, unfolded Let_def demo_store_fields]
  have "Header_commitments sample_lib H = Some [[replicate 48 5]] \<and>
      (\<forall>y. HeaderExtension_get_lookup (hdr_extension H) y = None \<longrightarrow> 1 \<le> unat y)"
    using fixed \<open>2 < - 1\<close> rows trip rs' later
    by (simp add: demo_runtime_def DELAY_CHECK_THRESHOLD_def) (force split: option.splits)
  then have "Header_commitments sample_lib H = Some [[replicate 48 5]]" "HeaderExtension_get_lookup (hdr_extension H) 0 \<noteq> None"
    by force+
  then show ?thesis unfolding Let_def fin fst_conv by blast
qed

end
